theory Spec2Isabelle
  imports Main "HOL-Library.Sublist"
begin

section \<open>Python values used by the scripts\<close>

text \<open>
  The scripts under \<^verbatim>\<open>scripts/\<close> are Python. A text is modelled as a \<^typ>\<open>string\<close>
  holding the bytes of its UTF-8 encoding, which is what the scripts read and write;
  one \<^typ>\<open>char\<close> is one code point for ASCII text. Exceptions are values of the type
  \<open>error\<close>, and a function that can raise returns \<open>error + 'a\<close> with \<open>Inl\<close> for
  the exception.
\<close>

datatype error =
    FileNotFoundError
  | IsADirectoryError
  | NotADirectoryError
  | FileExistsError
  | ValueError
  | TypeError
  | KeyError string
  | IndexError
  | AttributeError
  | YAMLError
  | TemplateNotFound string
  | TemplateError
  | RenderFailed string

definition fence :: string where
  "fence = ''```''"

definition nl :: string where
  "nl = ''\<newline>''"

text \<open>
  \<^verbatim>\<open>str.isspace\<close>, which \<^verbatim>\<open>lstrip()\<close>, \<^verbatim>\<open>rstrip()\<close> and the pattern
  \<^verbatim>\<open>\s\<close> use. The ASCII whitespace is tab, line feed, vertical tab, form feed,
  carriage return, the four separators 0x1C to 0x1F, and the space. The other
  whitespace of Unicode is U+0085, U+00A0, U+1680, U+2000 to U+200A, U+2028,
  U+2029, U+202F, U+205F and U+3000, each given here by its UTF-8 bytes.
\<close>

definition is_space :: "char \<Rightarrow> bool" where
  "is_space c \<longleftrightarrow>
     c \<in> set [CHR 0x09, CHR 0x0A, CHR 0x0B, CHR 0x0C, CHR 0x0D,
               CHR 0x1C, CHR 0x1D, CHR 0x1E, CHR 0x1F, CHR 0x20]"

definition unicode_spaces :: "string list" where
  "unicode_spaces =
     [[CHR 0xC2, CHR 0x85], [CHR 0xC2, CHR 0xA0], [CHR 0xE1, CHR 0x9A, CHR 0x80],
      [CHR 0xE2, CHR 0x80, CHR 0x80], [CHR 0xE2, CHR 0x80, CHR 0x81],
      [CHR 0xE2, CHR 0x80, CHR 0x82], [CHR 0xE2, CHR 0x80, CHR 0x83],
      [CHR 0xE2, CHR 0x80, CHR 0x84], [CHR 0xE2, CHR 0x80, CHR 0x85],
      [CHR 0xE2, CHR 0x80, CHR 0x86], [CHR 0xE2, CHR 0x80, CHR 0x87],
      [CHR 0xE2, CHR 0x80, CHR 0x88], [CHR 0xE2, CHR 0x80, CHR 0x89],
      [CHR 0xE2, CHR 0x80, CHR 0x8A], [CHR 0xE2, CHR 0x80, CHR 0xA8],
      [CHR 0xE2, CHR 0x80, CHR 0xA9], [CHR 0xE2, CHR 0x80, CHR 0xAF],
      [CHR 0xE2, CHR 0x81, CHR 0x9F], [CHR 0xE3, CHR 0x80, CHR 0x80]]"

text \<open>
  The number of bytes of the whitespace character that a text starts with, and 0 when
  it starts with none; \<open>table\<close> lists the whitespace characters of more than one
  byte.
\<close>

definition space_width :: "string list \<Rightarrow> string \<Rightarrow> nat" where
  "space_width table s =
     (case s of
        [] \<Rightarrow> 0
      | c # cs \<Rightarrow>
          if is_space c then 1
          else (case find (\<lambda>u. prefix u s) table of None \<Rightarrow> 0 | Some u \<Rightarrow> length u))"

definition whitespace :: "string \<Rightarrow> nat" where
  "whitespace s = space_width unicode_spaces s"

text \<open>The text without the whitespace characters it starts with.\<close>

fun strip :: "string list \<Rightarrow> string \<Rightarrow> string" where
  "strip table [] = []"
| "strip table (c # cs) =
     (if space_width table (c # cs) = 0 then c # cs
      else strip table (drop (space_width table (c # cs) - 1) cs))"

text \<open>
  The pattern \<^verbatim>\<open>\w\<close> on ASCII: letters, digits and the underscore. Python also
  takes the letters and digits outside ASCII for word characters, a set that changes
  with the Unicode version of the interpreter; they are not word characters here.
\<close>

definition is_word :: "char \<Rightarrow> bool" where
  "is_word c \<longleftrightarrow>
     c \<in> set ''abcdefghijklmnopqrstuvwxyzABCDEFGHIJKLMNOPQRSTUVWXYZ0123456789_''"

definition lstrip :: "string \<Rightarrow> string" where
  "lstrip s = strip unicode_spaces s"

text \<open>At the end of the text the bytes of a whitespace character come in reverse.\<close>

definition rstrip :: "string \<Rightarrow> string" where
  "rstrip s = rev (strip (map rev unicode_spaces) (rev s))"

definition lstrip_chars :: "char \<Rightarrow> string \<Rightarrow> string" where
  "lstrip_chars c s = dropWhile (\<lambda>x. x = c) s"

definition startswith :: "string \<Rightarrow> string \<Rightarrow> bool" where
  "startswith s p \<longleftrightarrow> prefix p s"

section \<open>Paths (pathlib)\<close>

text \<open>
  A pure POSIX path: whether it is anchored at the root, and its components.
  Parsing a string drops empty and \<^verbatim>\<open>.\<close> components; joining with an absolute
  path gives that path. \<^verbatim>\<open>suffix\<close> follows pathlib's rule: the part of the final
  component from its last dot, when that dot is neither first nor last.
\<close>

datatype path = Path (is_abs: bool) (parts: "string list")

fun split_on :: "char \<Rightarrow> string \<Rightarrow> string list" where
  "split_on sep [] = [[]]"
| "split_on sep (c # cs) =
     (if c = sep then [] # split_on sep cs
      else (case split_on sep cs of
              [] \<Rightarrow> [[c]]
            | w # ws \<Rightarrow> (c # w) # ws))"

definition parse_path :: "string \<Rightarrow> path" where
  "parse_path s =
     Path (startswith s ''/'') (filter (\<lambda>w. w \<noteq> [] \<and> w \<noteq> ''.'') (split_on CHR ''/'' s))"

definition joinpath :: "path \<Rightarrow> string \<Rightarrow> path" where
  "joinpath p s =
     (let q = parse_path s
      in if is_abs q then q else Path (is_abs p) (parts p @ parts q))"

definition name :: "path \<Rightarrow> string" where
  "name p = (case parts p of [] \<Rightarrow> [] | _ \<Rightarrow> last (parts p))"

definition parent :: "path \<Rightarrow> path" where
  "parent p = Path (is_abs p) (butlast (parts p))"

fun find_char :: "char \<Rightarrow> string \<Rightarrow> nat option" where
  "find_char c [] = None"
| "find_char c (x # xs) = (if x = c then Some 0 else map_option Suc (find_char c xs))"

definition rfind :: "char \<Rightarrow> string \<Rightarrow> nat option" where
  "rfind c s = map_option (\<lambda>i. length s - 1 - i) (find_char c (rev s))"

definition suffix_of :: "path \<Rightarrow> string" where
  "suffix_of p =
     (let n = name p
      in case rfind CHR ''.'' n of
           None \<Rightarrow> []
         | Some i \<Rightarrow> if 0 < i \<and> i < length n - 1 then drop i n else [])"

definition with_suffix :: "path \<Rightarrow> string \<Rightarrow> error + path" where
  "with_suffix p sfx =
     (let n = name p
      in if n = [] then Inl ValueError
         else Inr (Path (is_abs p)
                     (butlast (parts p) @ [take (length n - length (suffix_of p)) n @ sfx])))"

section \<open>Code block handler (\<^verbatim>\<open>readme_filters.py\<close>)\<close>

definition LANGUAGE_MAP :: "(string \<times> string) list" where
  "LANGUAGE_MAP =
     [(''.py'', ''python''), (''.go'', ''go''), (''.java'', ''java''),
      (''.js'', ''javascript''), (''.ts'', ''typescript''), (''.rb'', ''ruby''),
      (''.php'', ''php''), (''.cs'', ''csharp''), (''.rs'', ''rust''),
      (''.ex'', ''elixir''), (''.exs'', ''elixir'')]"

subsection \<open>The search for the first fenced block\<close>

text \<open>
  \<^verbatim>\<open>re.search(pattern, content, re.DOTALL)\<close> with the pattern
  \<^verbatim>\<open>```(\w+)?\s*(?:title="[^"]*")?\s*\n(.*?)```\<close>
  is a backtracking search: the leftmost start wins, and at one start the greedy
  pieces try their longest match first and give characters back one at a time.
  Each function below matches a tail of the pattern against the text and returns
  what group 2 (and group 1) then hold, in that order of attempts.
\<close>

text \<open>\<^verbatim>\<open>(.*?)```\<close>: the text up to the first fence marker.\<close>

fun find_fence :: "string \<Rightarrow> string option" where
  "find_fence [] = None"
| "find_fence (c # cs) =
     (if prefix fence (c # cs) then Some []
      else map_option ((#) c) (find_fence cs))"

text \<open>\<^verbatim>\<open>\s*\n(.*?)```\<close>\<close>

fun body :: "string \<Rightarrow> string option" where
  "body [] = None"
| "body (c # cs) =
     (case (if 0 < whitespace (c # cs) then body (drop (whitespace (c # cs) - 1) cs)
            else None) of
        Some code \<Rightarrow> Some code
      | None \<Rightarrow> if c = CHR 0x0A then find_fence cs else None)"

text \<open>\<^verbatim>\<open>title="[^"]*"\<close>: what is left after the attribute.\<close>

definition title :: "string \<Rightarrow> string option" where
  "title s =
     (if prefix (''title='' @ [CHR 0x22]) s
      then (case dropWhile (\<lambda>c. c \<noteq> CHR 0x22) (drop 7 s) of
              [] \<Rightarrow> None
            | _ # r \<Rightarrow> Some r)
      else None)"

text \<open>\<^verbatim>\<open>(?:title="[^"]*")?\s*\n(.*?)```\<close>\<close>

definition title_body :: "string \<Rightarrow> string option" where
  "title_body s =
     (case (case title s of Some r \<Rightarrow> body r | None \<Rightarrow> None) of
        Some code \<Rightarrow> Some code
      | None \<Rightarrow> body s)"

text \<open>\<^verbatim>\<open>\s*(?:title="[^"]*")?\s*\n(.*?)```\<close>\<close>

fun header :: "string \<Rightarrow> string option" where
  "header [] = title_body []"
| "header (c # cs) =
     (case (if 0 < whitespace (c # cs) then header (drop (whitespace (c # cs) - 1) cs)
            else None) of
        Some code \<Rightarrow> Some code
      | None \<Rightarrow> title_body (c # cs))"

text \<open>
  \<^verbatim>\<open>(\w+)\<close> followed by the rest of the pattern; \<open>acc\<close> is what the group has
  taken so far. The result is group 1 and group 2.
\<close>

fun lang_group :: "string \<Rightarrow> string \<Rightarrow> (string \<times> string) option" where
  "lang_group acc [] = (if acc = [] then None else map_option (Pair acc) (header []))"
| "lang_group acc (c # cs) =
     (case (if is_word c then lang_group (acc @ [c]) cs else None) of
        Some m \<Rightarrow> Some m
      | None \<Rightarrow> if acc = [] then None else map_option (Pair acc) (header (c # cs)))"

text \<open>The pattern after its opening fence marker: group 1 is optional.\<close>

definition open_fence :: "string \<Rightarrow> (string option \<times> string) option" where
  "open_fence s =
     (case lang_group [] s of
        Some (l, code) \<Rightarrow> Some (Some l, code)
      | None \<Rightarrow> map_option (Pair None) (header s))"

fun re_search :: "string \<Rightarrow> (string option \<times> string) option" where
  "re_search [] = None"
| "re_search (c # cs) =
     (case (if prefix fence (c # cs) then open_fence (drop 3 (c # cs)) else None) of
        Some m \<Rightarrow> Some m
      | None \<Rightarrow> re_search cs)"

subsection \<open>Extraction and wrapping\<close>

definition extract_code_block :: "string \<Rightarrow> path \<Rightarrow> error + string" where
  "extract_code_block content snippet_path =
     (case re_search content of
        None \<Rightarrow> Inl ValueError
      | Some (g1, g2) \<Rightarrow>
          (let lang = (case g1 of None \<Rightarrow> ''text'' | Some l \<Rightarrow> l);
               code = rstrip g2
           in Inr (fence @ lang @ nl @ code @ nl @ fence @ nl)))"

definition wrap_code_block :: "string \<Rightarrow> path \<Rightarrow> string \<Rightarrow> string" where
  "wrap_code_block content snippet_path lang =
     (let content_stripped = lstrip content
      in if startswith content_stripped fence then content
         else
           (let ext = lstrip_chars CHR ''.'' (suffix_of snippet_path);
                lang_id = (case map_of LANGUAGE_MAP lang of
                             Some v \<Rightarrow> v
                           | None \<Rightarrow> if ext = [] then ''text'' else ext);
                code = rstrip content
            in fence @ lang_id @ nl @ code @ nl @ fence @ nl))"

section \<open>Dynamically typed values\<close>

text \<open>
  What \<^verbatim>\<open>yaml.safe_load\<close> gives and what the functions typed \<^verbatim>\<open>Any\<close> receive:
  \<^verbatim>\<open>None\<close>, booleans, integers, strings, lists and dictionaries with string keys,
  a dictionary being the list of its items in insertion order. Floating-point numbers
  and dates are left out. Each operation returns the exception Python raises on a
  value of the wrong type. The length, the first element and the elements of a string
  count characters, each a first byte and the continuation bytes that follow it.
\<close>

definition is_continuation :: "char \<Rightarrow> bool" where
  "is_continuation c \<longleftrightarrow> 128 \<le> (of_char c :: nat) \<and> (of_char c :: nat) < 192"

fun utf8_chars :: "string \<Rightarrow> string list" where
  "utf8_chars [] = []"
| "utf8_chars (c # cs) =
     (case utf8_chars cs of
        [] \<Rightarrow> [[c]]
      | u # us \<Rightarrow>
          if u \<noteq> [] \<and> is_continuation (hd u) then (c # u) # us else [c] # u # us)"

datatype pyval =
    PNone
  | PBool bool
  | PInt int
  | PStr string
  | PList "pyval list"
  | PDict "(string \<times> pyval) list"

definition and_then :: "error + 'a \<Rightarrow> ('a \<Rightarrow> error + 'b) \<Rightarrow> error + 'b" where
  "and_then r f = (case r of Inl e \<Rightarrow> Inl e | Inr x \<Rightarrow> f x)"

text \<open>Truth value of an object (\<^verbatim>\<open>if x\<close>, \<^verbatim>\<open>not x\<close>).\<close>

fun truthy :: "pyval \<Rightarrow> bool" where
  "truthy PNone = False"
| "truthy (PBool b) = b"
| "truthy (PInt n) = (n \<noteq> 0)"
| "truthy (PStr s) = (s \<noteq> [])"
| "truthy (PList xs) = (xs \<noteq> [])"
| "truthy (PDict m) = (m \<noteq> [])"

text \<open>\<^verbatim>\<open>key in x\<close> for a string \<open>key\<close>.\<close>

fun contains :: "pyval \<Rightarrow> string \<Rightarrow> error + bool" where
  "contains (PDict m) k = Inr (k \<in> set (map fst m))"
| "contains (PList xs) k = Inr (PStr k \<in> set xs)"
| "contains (PStr s) k = Inr (sublist k s)"
| "contains _ k = Inl TypeError"

text \<open>\<^verbatim>\<open>x[key]\<close> for a string \<open>key\<close>.\<close>

fun getitem :: "pyval \<Rightarrow> string \<Rightarrow> error + pyval" where
  "getitem (PDict m) k = (case map_of m k of None \<Rightarrow> Inl (KeyError k) | Some v \<Rightarrow> Inr v)"
| "getitem _ k = Inl TypeError"

text \<open>\<^verbatim>\<open>x.get(key, default)\<close>\<close>

fun get :: "pyval \<Rightarrow> string \<Rightarrow> pyval \<Rightarrow> error + pyval" where
  "get (PDict m) k d = Inr (case map_of m k of None \<Rightarrow> d | Some v \<Rightarrow> v)"
| "get _ k d = Inl AttributeError"

text \<open>\<^verbatim>\<open>x.items()\<close> and \<^verbatim>\<open>x.values()\<close>\<close>

fun items :: "pyval \<Rightarrow> error + (string \<times> pyval) list" where
  "items (PDict m) = Inr m"
| "items _ = Inl AttributeError"

fun values_of :: "pyval \<Rightarrow> error + pyval list" where
  "values_of (PDict m) = Inr (map snd m)"
| "values_of _ = Inl AttributeError"

text \<open>\<^verbatim>\<open>len(x)\<close>\<close>

fun len :: "pyval \<Rightarrow> error + nat" where
  "len (PDict m) = Inr (length m)"
| "len (PList xs) = Inr (length xs)"
| "len (PStr s) = Inr (length (utf8_chars s))"
| "len _ = Inl TypeError"

text \<open>\<^verbatim>\<open>x[0]\<close>\<close>

fun first_item :: "pyval \<Rightarrow> error + pyval" where
  "first_item (PList []) = Inl IndexError"
| "first_item (PList (x # xs)) = Inr x"
| "first_item (PStr s) =
     (case utf8_chars s of [] \<Rightarrow> Inl IndexError | u # us \<Rightarrow> Inr (PStr u))"
| "first_item (PDict m) = Inl (KeyError ''0'')"
| "first_item _ = Inl TypeError"

text \<open>The elements a \<^verbatim>\<open>for\<close> loop over \<open>x\<close> visits.\<close>

fun iterate :: "pyval \<Rightarrow> error + pyval list" where
  "iterate (PList xs) = Inr xs"
| "iterate (PStr s) = Inr (map PStr (utf8_chars s))"
| "iterate (PDict m) = Inr (map (\<lambda>kv. PStr (fst kv)) m)"
| "iterate _ = Inl TypeError"

subsection \<open>Formatting\<close>

fun digits :: "nat \<Rightarrow> string" where
  "digits n =
     (if n < 10 then [''0123456789'' ! n]
      else digits (n div 10) @ [''0123456789'' ! (n mod 10)])"

declare digits.simps [simp del]

definition str_int :: "int \<Rightarrow> string" where
  "str_int n = (if n < 0 then ''-'' else []) @ digits (nat \<bar>n\<bar>)"

definition hex2 :: "char \<Rightarrow> string" where
  "hex2 c =
     [''0123456789abcdef'' ! (of_char c div 16), ''0123456789abcdef'' ! (of_char c mod 16)]"

text \<open>\<^verbatim>\<open>repr\<close> of a string: the quote is double only when the string has a single
  quote and no double one; the backslash, the quote and the ASCII control characters
  are escaped. Python also escapes the characters outside ASCII that it does not
  take for printable, a set that changes with the Unicode version of the
  interpreter; they are left as they are here.\<close>

definition escape :: "char \<Rightarrow> char \<Rightarrow> string" where
  "escape q c =
     (if c = q \<or> c = CHR 0x5C then [CHR 0x5C, c]
      else if c = CHR 0x09 then [CHR 0x5C, CHR ''t'']
      else if c = CHR 0x0A then [CHR 0x5C, CHR ''n'']
      else if c = CHR 0x0D then [CHR 0x5C, CHR ''r'']
      else if (of_char c :: nat) < 32 \<or> c = CHR 0x7F then [CHR 0x5C, CHR ''x''] @ hex2 c
      else [c])"

definition repr_str :: "string \<Rightarrow> string" where
  "repr_str s =
     (let q = (if CHR 0x27 \<in> set s \<and> CHR 0x22 \<notin> set s then CHR 0x22 else CHR 0x27)
      in [q] @ concat (map (escape q) s) @ [q])"

fun join :: "string \<Rightarrow> string list \<Rightarrow> string" where
  "join sep [] = []"
| "join sep [x] = x"
| "join sep (x # y # ys) = x @ sep @ join sep (y # ys)"

fun repr :: "pyval \<Rightarrow> string" where
  "repr PNone = ''None''"
| "repr (PBool b) = (if b then ''True'' else ''False'')"
| "repr (PInt n) = str_int n"
| "repr (PStr s) = repr_str s"
| "repr (PList xs) = ''['' @ join '', '' (map repr xs) @ '']''"
| "repr (PDict m) =
     ''{'' @ join '', '' (map (\<lambda>kv. repr_str (fst kv) @ '': '' @ repr (snd kv)) m) @ ''}''"

text \<open>A replacement field \<^verbatim>\<open>{x}\<close> of an f-string.\<close>

definition py_str :: "pyval \<Rightarrow> string" where
  "py_str v = (case v of PStr s \<Rightarrow> s | _ \<Rightarrow> repr v)"

text \<open>A replacement field \<^verbatim>\<open>{x:,}\<close>: the digits in groups of three from the right.\<close>

fun commas :: "string \<Rightarrow> string" where
  "commas (a # b # c # d # ds) = a # b # c # CHR '','' # commas (d # ds)"
| "commas ds = ds"

definition group_thousands :: "int \<Rightarrow> string" where
  "group_thousands n =
     (if n < 0 then ''-'' else []) @ rev (commas (rev (digits (nat \<bar>n\<bar>))))"

text \<open>The number an object of type \<^verbatim>\<open>int\<close> stands for; \<^verbatim>\<open>bool\<close> is a subclass of
  \<^verbatim>\<open>int\<close>. The format \<^verbatim>\<open>,\<close> applies to these, is refused for a string with
  \<open>ValueError\<close> and for the other values with \<open>TypeError\<close>.\<close>

fun int_value :: "pyval \<Rightarrow> int option" where
  "int_value (PInt n) = Some n"
| "int_value (PBool b) = Some (if b then 1 else 0)"
| "int_value _ = None"

definition format_comma :: "pyval \<Rightarrow> error + string" where
  "format_comma v =
     (case int_value v of
        Some n \<Rightarrow> Inr (group_thousands n)
      | None \<Rightarrow> (case v of PStr s \<Rightarrow> Inl ValueError | _ \<Rightarrow> Inl TypeError))"

section \<open>Performance table renderer (\<^verbatim>\<open>readme_filters.py\<close>)\<close>

text \<open>The bullet U+2022 of the header line.\<close>

definition bullet :: string where
  "bullet = [CHR 0xE2, CHR 0x80, CHR 0xA2]"

text \<open>\<^verbatim>\<open>for bench in benchmarks: table += row(bench)\<close>\<close>

fun add_rows :: "(pyval \<Rightarrow> error + string) \<Rightarrow> pyval list \<Rightarrow> string \<Rightarrow> error + string" where
  "add_rows row [] table = Inr table"
| "add_rows row (bench # rest) table =
     (case row bench of
        Inl e \<Rightarrow> Inl e
      | Inr r \<Rightarrow> add_rows row rest (table @ r))"

definition latency_row :: "pyval \<Rightarrow> error + string" where
  "latency_row bench =
     and_then (getitem bench ''name'') (\<lambda>name.
     and_then (getitem bench ''size'') (\<lambda>size.
     and_then (getitem bench ''latency'') (\<lambda>latency.
     and_then (getitem bench ''throughput'') (\<lambda>throughput.
       Inr (''| '' @ py_str name @ '' | '' @ py_str size @ '' | ''
            @ py_str latency @ '' | '' @ py_str throughput @ '' |'' @ nl)))))"

definition render_latency_table :: "pyval \<Rightarrow> error + string" where
  "render_latency_table benchmarks =
     (let table = ''| Document | Size | Latency | Throughput |'' @ nl
                @ ''| -------- | ---- | ------- | ---------- |'' @ nl
      in and_then (iterate benchmarks) (\<lambda>benches. add_rows latency_row benches table))"

definition ops_sec_throughput_row :: "pyval \<Rightarrow> error + string" where
  "ops_sec_throughput_row bench =
     and_then (getitem bench ''name'') (\<lambda>name.
     and_then (getitem bench ''size'') (\<lambda>size.
     and_then (getitem bench ''ops_sec'') (\<lambda>ops_sec.
     and_then (format_comma ops_sec) (\<lambda>ops.
     and_then (getitem bench ''throughput'') (\<lambda>throughput.
       Inr (''| '' @ py_str name @ '' | '' @ py_str size @ '' | ''
            @ ops @ '' | '' @ py_str throughput @ '' |'' @ nl))))))"

definition ops_sec_row :: "pyval \<Rightarrow> error + string" where
  "ops_sec_row bench =
     and_then (getitem bench ''name'') (\<lambda>name.
     and_then (getitem bench ''size'') (\<lambda>size.
     and_then (getitem bench ''ops_sec'') (\<lambda>ops_sec.
     and_then (format_comma ops_sec) (\<lambda>ops.
       Inr (''| '' @ py_str name @ '' | '' @ py_str size @ '' | '' @ ops @ '' |'' @ nl)))))"

definition render_ops_sec_table :: "pyval \<Rightarrow> error + string" where
  "render_ops_sec_table benchmarks =
     and_then (first_item benchmarks) (\<lambda>first_bench.
     and_then (contains first_bench ''throughput'') (\<lambda>has_throughput.
     and_then (iterate benchmarks) (\<lambda>benches.
       if has_throughput
       then add_rows ops_sec_throughput_row benches
              (''| Document | Size | Ops/sec | Throughput |'' @ nl
               @ ''| -------- | ---- | ------- | ---------- |'' @ nl)
       else add_rows ops_sec_row benches
              (''| Document | Size | Ops/sec |'' @ nl
               @ ''| -------- | ---- | ------- |'' @ nl))))"

definition perf_header :: "pyval \<Rightarrow> pyval \<Rightarrow> pyval \<Rightarrow> string \<Rightarrow> string" where
  "perf_header platform note function runtime =
     py_str platform @ '' '' @ bullet @ '' '' @ py_str note @ '' '' @ bullet
     @ '' `'' @ py_str function @ ''` ('' @ runtime @ '')'' @ nl @ nl"

definition render :: "pyval \<Rightarrow> string \<Rightarrow> error + string" where
  "render perf_data runtime =
     and_then (if \<not> truthy perf_data then Inr True
               else and_then (contains perf_data ''benchmarks'') (\<lambda>b. Inr (\<not> b))) (\<lambda>absent.
       if absent then Inr []
       else
         and_then (get perf_data ''platform'' (PStr ''Unknown'')) (\<lambda>platform.
         and_then (get perf_data ''function'' (PStr ''convert()'')) (\<lambda>function.
         and_then (get perf_data ''note'' (PStr [])) (\<lambda>note.
         and_then (getitem perf_data ''benchmarks'') (\<lambda>benchmarks.
           let header = perf_header platform note function runtime
           in if \<not> truthy benchmarks
              then Inr (header @ nl @ ''(No benchmarks available)'' @ nl)
              else
                and_then (first_item benchmarks) (\<lambda>first_bench.
                and_then (contains first_bench ''latency'') (\<lambda>uses_latency.
                and_then (contains first_bench ''ops_sec'') (\<lambda>uses_ops_sec.
                and_then (if uses_latency then render_latency_table benchmarks
                          else if uses_ops_sec then render_ops_sec_table benchmarks
                          else Inr (nl @ ''(Unknown benchmark format)'' @ nl)) (\<lambda>table.
                  Inr (header @ table))))))))))"

section \<open>The file system\<close>

text \<open>
  What the scripts see of the disk: the working directory, and for each location (the
  names from the root down) whether it is absent, a directory or a regular file with
  its text. The root is always a directory. A path is resolved as the system does it,
  one component after the other: the location reached so far must be a directory,
  \<^verbatim>\<open>..\<close> goes to its parent (the root is its own parent), a name goes below it. So
  two spellings of one location reach the same file. Permissions, links and encoding
  errors are left out. Files are written as on a POSIX system, and read in text mode,
  where \<^verbatim>\<open>read_text\<close> turns every carriage return and every carriage return with
  line feed into a line feed.
\<close>

datatype node = File string | Dir

record disk =
  cwd :: "string list"
  nodes :: "string list \<Rightarrow> node option"

type_synonym fs = disk

definition node_at :: "fs \<Rightarrow> string list \<Rightarrow> node option" where
  "node_at fs loc = (if loc = [] then Some Dir else nodes fs loc)"

fun walk :: "fs \<Rightarrow> string list \<Rightarrow> string list \<Rightarrow> error + string list" where
  "walk fs loc [] = Inr loc"
| "walk fs loc (c # cs) =
     (case node_at fs loc of
        None \<Rightarrow> Inl FileNotFoundError
      | Some (File other) \<Rightarrow> Inl NotADirectoryError
      | Some Dir \<Rightarrow> walk fs (if c = ''..'' then butlast loc else loc @ [c]) cs)"

definition resolve :: "fs \<Rightarrow> path \<Rightarrow> error + string list" where
  "resolve fs p = walk fs (if is_abs p then [] else cwd fs) (parts p)"

text \<open>\<^verbatim>\<open>os.stat\<close>: the node a path leads to.\<close>

definition stat :: "fs \<Rightarrow> path \<Rightarrow> error + node" where
  "stat fs p =
     (case resolve fs p of
        Inl e \<Rightarrow> Inl e
      | Inr loc \<Rightarrow>
          (case node_at fs loc of None \<Rightarrow> Inl FileNotFoundError | Some n \<Rightarrow> Inr n))"

definition lookup :: "fs \<Rightarrow> path \<Rightarrow> node option" where
  "lookup fs p = (case stat fs p of Inl e \<Rightarrow> None | Inr n \<Rightarrow> Some n)"

definition path_exists :: "fs \<Rightarrow> path \<Rightarrow> bool" where
  "path_exists fs p \<longleftrightarrow> lookup fs p \<noteq> None"

definition is_dir :: "fs \<Rightarrow> path \<Rightarrow> bool" where
  "is_dir fs p \<longleftrightarrow> lookup fs p = Some Dir"

fun universal_newlines :: "string \<Rightarrow> string" where
  "universal_newlines [] = []"
| "universal_newlines [c] = [if c = CHR 0x0D then CHR 0x0A else c]"
| "universal_newlines (c # d # cs) =
     (if c = CHR 0x0D \<and> d = CHR 0x0A then CHR 0x0A # universal_newlines cs
      else (if c = CHR 0x0D then CHR 0x0A else c) # universal_newlines (d # cs))"

definition read_text :: "fs \<Rightarrow> path \<Rightarrow> error + string" where
  "read_text fs p =
     (case stat fs p of
        Inl e \<Rightarrow> Inl e
      | Inr Dir \<Rightarrow> Inl IsADirectoryError
      | Inr (File s) \<Rightarrow> Inr (universal_newlines s))"

definition write_text :: "fs \<Rightarrow> path \<Rightarrow> string \<Rightarrow> error + fs" where
  "write_text fs p s =
     (case resolve fs p of
        Inl e \<Rightarrow> Inl e
      | Inr loc \<Rightarrow>
          if node_at fs loc = Some Dir then Inl IsADirectoryError
          else Inr (fs\<lparr>nodes := (nodes fs)(loc \<mapsto> File s)\<rparr>))"

definition os_mkdir :: "fs \<Rightarrow> path \<Rightarrow> error + fs" where
  "os_mkdir fs p =
     (case resolve fs p of
        Inl e \<Rightarrow> Inl e
      | Inr loc \<Rightarrow>
          if node_at fs loc \<noteq> None then Inl FileExistsError
          else Inr (fs\<lparr>nodes := (nodes fs)(loc \<mapsto> Dir)\<rparr>))"

text \<open>\<^verbatim>\<open>p.mkdir(parents=False, exist_ok=True)\<close>\<close>

definition mkdir_exist_ok :: "fs \<Rightarrow> path \<Rightarrow> error + fs" where
  "mkdir_exist_ok fs p =
     (case os_mkdir fs p of
        Inr fs' \<Rightarrow> Inr fs'
      | Inl e \<Rightarrow>
          if e = FileNotFoundError then Inl e
          else if is_dir fs p then Inr fs else Inl e)"

text \<open>\<^verbatim>\<open>p.mkdir(parents=True, exist_ok=True)\<close>\<close>

function mkdir :: "fs \<Rightarrow> path \<Rightarrow> error + fs" where
  "mkdir fs p =
     (case os_mkdir fs p of
        Inr fs' \<Rightarrow> Inr fs'
      | Inl e \<Rightarrow>
          if e = FileNotFoundError
          then (if parts p = [] then Inl e
                else (case mkdir fs (parent p) of
                        Inl e' \<Rightarrow> Inl e'
                      | Inr fs' \<Rightarrow> mkdir_exist_ok fs' p))
          else if is_dir fs p then Inr fs else Inl e)"
  by pat_completeness auto
termination
  by (relation "measure (\<lambda>(fs, p). length (parts p))") (auto simp: parent_def)

declare mkdir.simps [simp del]

section \<open>The template engine and the YAML parser\<close>

text \<open>
  Jinja2 and PyYAML are outside the repository. An environment is any pair of
  functions: \<open>get_template\<close> finds a template by name (the loader reads the
  template directory) or raises, and \<open>render_template\<close> renders a template in a
  context or raises. Both may read the file system: the filters that
  \<^verbatim>\<open>setup_jinja_env\<close> registers read snippets and migration guides from it. The
  constructor \<^verbatim>\<open>Environment(loader=FileSystemLoader(dir), ...)\<close> is a parameter
  from the template directory to environments, and \<^verbatim>\<open>yaml.safe_load\<close> is a
  parameter from the text to a value or an exception.
\<close>

record 't jinja =
  get_template :: "fs \<Rightarrow> string \<Rightarrow> error + 't"
  render_template :: "'t \<Rightarrow> fs \<Rightarrow> (string \<times> pyval) list \<Rightarrow> error + string"

section \<open>README generator (\<^verbatim>\<open>generate_readme.py\<close>)\<close>

text \<open>What the logger receives at level INFO and above.\<close>

datatype event =
    Info_Loaded nat
  | Info_Generated path
  | Info_DryRun path
  | Info_Valid path
  | Warning_NotFound path
  | Warning_OutOfDate path
  | Warning_Guide path error
  | Error_Validation path error
  | Error_Failed string error
  | Error_NotLoaded
  | Error_UnknownLanguage string
  | Info_Available "string list"
  | Info_UpToDate
  | Error_OutOfDate
  | Info_Completed
  | Error_CompletedWithErrors
  | Fatal error

text \<open>The state outside the generator object: the disk and the log.\<close>

record world =
  files :: fs
  logged :: "event list"

definition emit :: "event \<Rightarrow> world \<Rightarrow> world" where
  "emit e w = w\<lparr>logged := logged w @ [e]\<rparr>"

record 't generator =
  project_root :: path
  config :: pyval
  jinja_env :: "'t jinja option"

definition init :: "path \<Rightarrow> 't generator" where
  "init root = \<lparr>project_root = root, config = PDict [], jinja_env = None\<rparr>"

definition scripts_dir :: "'t generator \<Rightarrow> path" where
  "scripts_dir g = joinpath (project_root g) ''scripts''"

definition packages_dir :: "'t generator \<Rightarrow> path" where
  "packages_dir g = joinpath (project_root g) ''packages''"

definition docs_dir :: "'t generator \<Rightarrow> path" where
  "docs_dir g = joinpath (project_root g) ''docs''"

definition snippets_dir :: "'t generator \<Rightarrow> path" where
  "snippets_dir g = joinpath (docs_dir g) ''snippets''"

definition templates_dir :: "'t generator \<Rightarrow> path" where
  "templates_dir g = joinpath (scripts_dir g) ''readme_templates''"

definition load_config ::
  "(string \<Rightarrow> error + pyval) \<Rightarrow> 't generator \<Rightarrow> world
     \<Rightarrow> (error + pyval) \<times> 't generator \<times> world" where
  "load_config safe_load g w =
     (let config_path = joinpath (scripts_dir g) ''readme_config.yaml''
      in if \<not> path_exists (files w) config_path then (Inl FileNotFoundError, g, w)
         else
           (case read_text (files w) config_path of
              Inl e \<Rightarrow> (Inl e, g, w)
            | Inr text \<Rightarrow>
                (case safe_load text of
                   Inl e \<Rightarrow> (Inl (if e = YAMLError then ValueError else e), g, w)
                 | Inr cfg \<Rightarrow>
                     (let g' = g\<lparr>config := cfg\<rparr>
                      in if \<not> truthy cfg then (Inl ValueError, g', w)
                         else
                           (case and_then (get cfg ''languages'' (PDict [])) len of
                              Inl e \<Rightarrow> (Inl e, g', w)
                            | Inr n \<Rightarrow> (Inr cfg, g', emit (Info_Loaded n) w))))))"

definition setup_jinja_env ::
  "(path \<Rightarrow> 't jinja) \<Rightarrow> 't generator \<Rightarrow> world
     \<Rightarrow> (error + 't jinja) \<times> 't generator \<times> world" where
  "setup_jinja_env Environment g w =
     (if \<not> path_exists (files w) (templates_dir g) then (Inl FileNotFoundError, g, w)
      else (let env = Environment (templates_dir g)
            in (Inr env, g\<lparr>jinja_env := Some env\<rparr>, w)))"

definition include_snippet_filter ::
  "'t generator \<Rightarrow> fs \<Rightarrow> string \<Rightarrow> string \<Rightarrow> error + string" where
  "include_snippet_filter g fs pth lang =
     (let given = joinpath (joinpath (snippets_dir g) lang) pth;
          probed = (if suffix_of given = []
                    then (case with_suffix given ''.md'' of
                            Inl e \<Rightarrow> Inl e
                          | Inr md_path \<Rightarrow>
                              Inr (if path_exists fs md_path then md_path else given))
                    else Inr given)
      in case probed of
           Inl e \<Rightarrow> Inl e
         | Inr snippet_path \<Rightarrow>
             if \<not> path_exists fs snippet_path then Inl FileNotFoundError
             else
               (case read_text fs snippet_path of
                  Inl e \<Rightarrow> Inl ValueError
                | Inr content \<Rightarrow>
                    if suffix_of snippet_path = ''.md''
                    then extract_code_block content snippet_path
                    else Inr (wrap_code_block content snippet_path lang)))"

definition guide_path :: "'t generator \<Rightarrow> string \<Rightarrow> pyval \<Rightarrow> path" where
  "guide_path g lang_code version =
     joinpath (joinpath (joinpath (docs_dir g) ''migration-guides'') lang_code)
       (py_str version @ ''.md'')"

definition has_migration_guide :: "'t generator \<Rightarrow> fs \<Rightarrow> string \<Rightarrow> pyval \<Rightarrow> bool" where
  "has_migration_guide g fs lang_code version =
     path_exists fs (guide_path g lang_code version)"

definition inject_migration_guide ::
  "'t generator \<Rightarrow> string \<Rightarrow> pyval \<Rightarrow> world \<Rightarrow> string \<times> world" where
  "inject_migration_guide g lang_code version w =
     (if \<not> path_exists (files w) (guide_path g lang_code version) then ([], w)
      else (case read_text (files w) (guide_path g lang_code version) of
              Inr content \<Rightarrow> (content, w)
            | Inl e \<Rightarrow> ([], emit (Warning_Guide (guide_path g lang_code version) e) w)))"

text \<open>\<^verbatim>\<open>d[k] = v\<close>, and the dictionary display \<^verbatim>\<open>{..., **extra}\<close>.\<close>

fun dict_set :: "string \<Rightarrow> pyval \<Rightarrow> (string \<times> pyval) list \<Rightarrow> (string \<times> pyval) list" where
  "dict_set k v [] = [(k, v)]"
| "dict_set k v (kv # m) = (if fst kv = k then (k, v) # m else kv # dict_set k v m)"

fun dict_merge ::
  "(string \<times> pyval) list \<Rightarrow> (string \<times> pyval) list \<Rightarrow> (string \<times> pyval) list" where
  "dict_merge base [] = base"
| "dict_merge base (kv # extra) = dict_merge (dict_set (fst kv) (snd kv) base) extra"

definition prepare_template_context ::
  "'t generator \<Rightarrow> string \<Rightarrow> pyval \<Rightarrow> world
     \<Rightarrow> (error + (string \<times> pyval) list) \<times> world" where
  "prepare_template_context g lang_code lang_config w =
     (case get (config g) ''version'' (PStr []) of
        Inl e \<Rightarrow> (Inl e, w)
      | Inr current_version \<Rightarrow>
          (case inject_migration_guide g lang_code current_version w of
             (migration_guide, w') \<Rightarrow>
               (and_then (get (config g) ''license'' (PStr ''MIT'')) (\<lambda>license.
                and_then (get (config g) ''discord_url'' (PStr [])) (\<lambda>discord_url.
                and_then (get (config g) ''banner_url'' (PStr [])) (\<lambda>banner_url.
                  case lang_config of
                    PDict extra \<Rightarrow>
                      Inr (dict_merge
                             [(''language'', PStr lang_code),
                              (''version'', current_version),
                              (''license'', license),
                              (''discord_url'', discord_url),
                              (''banner_url'', banner_url),
                              (''migration_guide'', PStr migration_guide)]
                             extra)
                  | _ \<Rightarrow> Inl TypeError))), w')))"

text \<open>
  The environment is asked for a template only when the configured name is a string.
  For another value Jinja2 fails before it looks for a file: a list or a mapping
  cannot be hashed for the template cache (\<open>TypeError\<close>), and \<open>None\<close>, a
  boolean or an integer has no method \<^verbatim>\<open>split\<close> (\<open>AttributeError\<close>).
\<close>

definition generate_readme ::
  "'t generator \<Rightarrow> string \<Rightarrow> pyval \<Rightarrow> path \<Rightarrow> bool \<Rightarrow> world \<Rightarrow> (error + string) \<times> world" where
  "generate_readme g lang_code lang_config output_path dry_run w =
     (case get lang_config ''template'' (PStr (lang_code @ ''.md.jinja'')) of
        Inl e \<Rightarrow> (Inl e, w)
      | Inr template_name \<Rightarrow>
     (case jinja_env g of
        None \<Rightarrow> (Inl AttributeError, w)
      | Some env \<Rightarrow>
     (case (case template_name of
              PStr n \<Rightarrow>
                (case get_template env (files w) n of
                   Inl e \<Rightarrow> Inl (case e of TemplateNotFound m \<Rightarrow> TemplateNotFound n | _ \<Rightarrow> e)
                 | Inr t \<Rightarrow> Inr (n, t))
            | PList xs \<Rightarrow> Inl TypeError
            | PDict m \<Rightarrow> Inl TypeError
            | _ \<Rightarrow> Inl AttributeError) of
        Inl e \<Rightarrow> (Inl e, w)
      | Inr (n, template) \<Rightarrow>
     (case prepare_template_context g lang_code lang_config w of
        (Inl e, w1) \<Rightarrow> (Inl e, w1)
      | (Inr context, w1) \<Rightarrow>
     (case render_template env template (files w1) context of
        Inl e \<Rightarrow> (Inl (RenderFailed n), w1)
      | Inr rendered \<Rightarrow>
          (let content = rstrip rendered @ nl
           in if \<not> dry_run
              then (case mkdir (files w1) (parent output_path) of
                      Inl e \<Rightarrow> (Inl e, w1)
                    | Inr fs1 \<Rightarrow>
                        (case write_text fs1 output_path content of
                           Inl e \<Rightarrow> (Inl e, w1\<lparr>files := fs1\<rparr>)
                         | Inr fs2 \<Rightarrow>
                             (Inr content, emit (Info_Generated output_path) (w1\<lparr>files := fs2\<rparr>))))
              else (Inr content, emit (Info_DryRun output_path) w1)))))))"

definition validate_readme ::
  "'t generator \<Rightarrow> string \<Rightarrow> pyval \<Rightarrow> path \<Rightarrow> world \<Rightarrow> bool \<times> world" where
  "validate_readme g lang_code lang_config readme_path w =
     (if \<not> path_exists (files w) readme_path
      then (False, emit (Warning_NotFound readme_path) w)
      else
        (case generate_readme g lang_code lang_config readme_path True w of
           (Inl e, w1) \<Rightarrow> (False, emit (Error_Validation readme_path e) w1)
         | (Inr generated, w1) \<Rightarrow>
             (case read_text (files w1) readme_path of
                Inl e \<Rightarrow> (False, emit (Error_Validation readme_path e) w1)
              | Inr existing \<Rightarrow>
                  if generated = existing then (True, emit (Info_Valid readme_path) w1)
                  else (False, emit (Warning_OutOfDate readme_path) w1))))"

definition resolve_output_path :: "'t generator \<Rightarrow> string \<Rightarrow> pyval \<Rightarrow> error + path" where
  "resolve_output_path g lang_code lang_config =
     and_then (contains lang_config ''output_path'') (\<lambda>custom.
       if custom
       then and_then (getitem lang_config ''output_path'') (\<lambda>v.
              case v of
                PStr s \<Rightarrow> Inr (joinpath (project_root g) s)
              | _ \<Rightarrow> Inl TypeError)
       else if lang_code = ''go''
       then Inr (joinpath (joinpath (joinpath (packages_dir g) ''go'') ''v2'') ''README.md'')
       else Inr (joinpath (joinpath (packages_dir g) lang_code) ''README.md''))"

text \<open>
  The loop of \<^verbatim>\<open>process_all_languages\<close> over the items of \<open>languages\<close>. The path
  is resolved outside the \<^verbatim>\<open>try\<close>, so an exception there ends the loop; an
  exception of \<open>generate_readme\<close> is caught and logged, and the loop goes on.
\<close>

fun process_languages ::
  "'t generator \<Rightarrow> bool \<Rightarrow> bool \<Rightarrow> (string \<times> pyval) list \<Rightarrow> bool \<Rightarrow> world
     \<Rightarrow> (error + bool) \<times> world" where
  "process_languages g dry_run validate_only [] all_ok w = (Inr all_ok, w)"
| "process_languages g dry_run validate_only (item # rest) all_ok w =
     (case resolve_output_path g (fst item) (snd item) of
        Inl e \<Rightarrow> (Inl e, w)
      | Inr readme_path \<Rightarrow>
          if validate_only
          then (case validate_readme g (fst item) (snd item) readme_path w of
                  (ok, w1) \<Rightarrow>
                    process_languages g dry_run validate_only rest (all_ok \<and> ok) w1)
          else (case generate_readme g (fst item) (snd item) readme_path dry_run w of
                  (Inl e, w1) \<Rightarrow>
                    process_languages g dry_run validate_only rest False
                      (emit (Error_Failed (fst item) e) w1)
                | (Inr content, w1) \<Rightarrow>
                    process_languages g dry_run validate_only rest all_ok w1))"

definition process_all_languages ::
  "'t generator \<Rightarrow> string option \<Rightarrow> bool \<Rightarrow> bool \<Rightarrow> world \<Rightarrow> (error + bool) \<times> world" where
  "process_all_languages g language_filter dry_run validate_only w =
     (if \<not> truthy (config g) then (Inr False, emit Error_NotLoaded w)
      else
        (case get (config g) ''languages'' (PDict []) of
           Inl e \<Rightarrow> (Inl e, w)
         | Inr languages \<Rightarrow>
             (case language_filter of
                None \<Rightarrow>
                  (case items languages of
                     Inl e \<Rightarrow> (Inl e, w)
                   | Inr targets \<Rightarrow> process_languages g dry_run validate_only targets True w)
              | Some lang \<Rightarrow>
                  if lang = []
                  then (case items languages of
                          Inl e \<Rightarrow> (Inl e, w)
                        | Inr targets \<Rightarrow>
                            process_languages g dry_run validate_only targets True w)
                  else
                    (case contains languages lang of
                       Inl e \<Rightarrow> (Inl e, w)
                     | Inr False \<Rightarrow>
                         (case items languages of
                            Inl e \<Rightarrow> (Inl e, emit (Error_UnknownLanguage lang) w)
                          | Inr targets \<Rightarrow>
                              (Inr False,
                               emit (Info_Available (map fst targets))
                                 (emit (Error_UnknownLanguage lang) w)))
                     | Inr True \<Rightarrow>
                         (case getitem languages lang of
                            Inl e \<Rightarrow> (Inl e, w)
                          | Inr lang_config \<Rightarrow>
                              process_languages g dry_run validate_only
                                [(lang, lang_config)] True w)))))"

record args =
  language :: "string option"
  dry_run :: bool
  validate :: bool

definition main ::
  "(string \<Rightarrow> error + pyval) \<Rightarrow> (path \<Rightarrow> 't jinja) \<Rightarrow> 't generator \<Rightarrow> args \<Rightarrow> world
     \<Rightarrow> int \<times> 't generator \<times> world" where
  "main safe_load Environment g a w =
     (case load_config safe_load g w of
        (Inl e, g1, w1) \<Rightarrow> (1, g1, emit (Fatal e) w1)
      | (Inr cfg, g1, w1) \<Rightarrow>
     (case setup_jinja_env Environment g1 w1 of
        (Inl e, g2, w2) \<Rightarrow> (1, g2, emit (Fatal e) w2)
      | (Inr env, g2, w2) \<Rightarrow>
     (case process_all_languages g2 (language a) (dry_run a) (validate a) w2 of
        (Inl e, w3) \<Rightarrow> (1, g2, emit (Fatal e) w3)
      | (Inr success, w3) \<Rightarrow>
          (if success then 0 else 1, g2,
           emit (if validate a
                 then (if success then Info_UpToDate else Error_OutOfDate)
                 else (if success then Info_Completed else Error_CompletedWithErrors)) w3))))"

section \<open>Visitor callback generator (\<^verbatim>\<open>generate_visitor_callbacks.py\<close>)\<close>

text \<open>
  The second script has its own \<^verbatim>\<open>setup_jinja_env\<close> and \<^verbatim>\<open>main\<close>; they carry
  the prefix \<open>visitor\<close> here. Its state is the disk and the list
  \<^verbatim>\<open>generated_files\<close>. A run ends by returning, by \<^verbatim>\<open>sys.exit\<close> with a status, or
  with an exception that nothing catches.
\<close>

datatype outcome = Finished | SystemExit int | Uncaught error

definition required_keys :: "string list" where
  "required_keys = [''version'', ''metadata'', ''types'', ''callbacks'', ''generation'']"

fun check_required :: "string list \<Rightarrow> pyval \<Rightarrow> error + unit" where
  "check_required [] schema = Inr ()"
| "check_required (key # keys) schema =
     (case contains schema key of
        Inl e \<Rightarrow> Inl e
      | Inr present \<Rightarrow> if \<not> present then Inl ValueError else check_required keys schema)"

definition load_schema :: "(string \<Rightarrow> error + pyval) \<Rightarrow> fs \<Rightarrow> path \<Rightarrow> error + pyval" where
  "load_schema safe_load fs schema_path =
     (if \<not> path_exists fs schema_path then Inl FileNotFoundError
      else and_then (read_text fs schema_path) (\<lambda>text.
           and_then (safe_load text) (\<lambda>schema.
           and_then (check_required required_keys schema) (\<lambda>u. Inr schema))))"

definition visitor_setup_jinja_env ::
  "(path \<Rightarrow> 't jinja) \<Rightarrow> fs \<Rightarrow> path \<Rightarrow> error + 't jinja" where
  "visitor_setup_jinja_env Environment fs template_dir =
     (if \<not> path_exists fs template_dir then Inl FileNotFoundError
      else Inr (Environment template_dir))"

definition generate_code ::
  "'t jinja \<Rightarrow> string \<Rightarrow> path \<Rightarrow> (string \<times> pyval) list \<Rightarrow> fs \<Rightarrow> (error + unit) \<times> fs" where
  "generate_code env template_name output_path context fs =
     (case get_template env fs template_name of
        Inl e \<Rightarrow> (Inl e, fs)
      | Inr template \<Rightarrow>
     (case render_template env template fs context of
        Inl e \<Rightarrow> (Inl e, fs)
      | Inr rendered \<Rightarrow>
     (case mkdir fs (parent output_path) of
        Inl e \<Rightarrow> (Inl e, fs)
      | Inr fs1 \<Rightarrow>
     (case write_text fs1 output_path rendered of
        Inl e \<Rightarrow> (Inl e, fs1)
      | Inr fs2 \<Rightarrow> (Inr (), fs2)))))"

text \<open>\<^verbatim>\<open>Path(x)\<close> and \<^verbatim>\<open>root / x\<close> for a value \<open>x\<close> of the schema.\<close>

definition as_str :: "pyval \<Rightarrow> error + string" where
  "as_str v = (case v of PStr s \<Rightarrow> Inr s | _ \<Rightarrow> Inl TypeError)"

text \<open>
  The loop of \<^verbatim>\<open>main\<close> over the items of \<open>targets\<close>: the first target whose
  generation raises ends the run with \<^verbatim>\<open>sys.exit(1)\<close>.
\<close>

fun generate_targets ::
  "'t jinja \<Rightarrow> path \<Rightarrow> (string \<times> pyval) list \<Rightarrow> (string \<times> pyval) list \<Rightarrow> path list \<Rightarrow> fs
     \<Rightarrow> outcome \<times> path list \<times> fs" where
  "generate_targets env root context [] generated_files fs = (Finished, generated_files, fs)"
| "generate_targets env root context (item # rest) generated_files fs =
     (case and_then (getitem (snd item) ''template'') as_str of
        Inl e \<Rightarrow> (Uncaught e, generated_files, fs)
      | Inr template \<Rightarrow>
     (case and_then (getitem (snd item) ''output_file'') as_str of
        Inl e \<Rightarrow> (Uncaught e, generated_files, fs)
      | Inr out \<Rightarrow>
     (case generate_code env (name (parse_path template)) (joinpath root out) context fs of
        (Inl e, fs1) \<Rightarrow> (SystemExit 1, generated_files, fs1)
      | (Inr u, fs1) \<Rightarrow>
          generate_targets env root context rest (generated_files @ [joinpath root out]) fs1)))"

definition visitor_main ::
  "(string \<Rightarrow> error + pyval) \<Rightarrow> (path \<Rightarrow> 't jinja) \<Rightarrow> path \<Rightarrow> fs
     \<Rightarrow> outcome \<times> path list \<times> fs" where
  "visitor_main safe_load Environment root fs =
     (let schema_path = joinpath root ''crates/html-to-markdown-ffi/visitor_callbacks.yaml'';
          template_dir = joinpath root ''crates/html-to-markdown-ffi/templates''
      in
     (case load_schema safe_load fs schema_path of
        Inl e \<Rightarrow> (SystemExit 1, [], fs)
      | Inr schema \<Rightarrow>
     (case visitor_setup_jinja_env Environment fs template_dir of
        Inl e \<Rightarrow> (SystemExit 1, [], fs)
      | Inr env \<Rightarrow>
     (case
        and_then (getitem schema ''version'') (\<lambda>version.
        and_then (getitem schema ''metadata'') (\<lambda>metadata.
        and_then (getitem schema ''types'') (\<lambda>types.
        and_then (getitem schema ''callbacks'') (\<lambda>callbacks.
        and_then (getitem schema ''generation'') (\<lambda>generation.
        and_then (getitem generation ''targets'') (\<lambda>targets.
        and_then (getitem metadata ''total_callbacks'') (\<lambda>total_callbacks.
        and_then (len targets) (\<lambda>n.
        and_then (items targets) (\<lambda>target_items.
          Inr ([(''version'', version), (''metadata'', metadata),
                (''types'', types), (''callbacks'', callbacks)],
               metadata, target_items)))))))))) of
        Inl e \<Rightarrow> (Uncaught e, [], fs)
      | Inr (context, metadata, target_items) \<Rightarrow>
     (case generate_targets env root context target_items [] fs of
        (Finished, generated_files, fs1) \<Rightarrow>
          (case and_then (getitem metadata ''expected_reduction'') values_of of
             Inl e \<Rightarrow> (Uncaught e, generated_files, fs1)
           | Inr reductions \<Rightarrow> (Finished, generated_files, fs1))
      | stopped \<Rightarrow> stopped)))))"

section \<open>Reading the log, and an environment for the examples\<close>

text \<open>
  Each target of a README run leaves one event that tells how it went: in generate
  mode \<open>Info_Generated\<close> or \<open>Info_DryRun\<close> for a success and \<open>Error_Failed\<close> for
  a caught exception; in validate mode \<open>Info_Valid\<close> for an up-to-date file and
  \<open>Warning_NotFound\<close>, \<open>Warning_OutOfDate\<close> or \<open>Error_Validation\<close> otherwise.
\<close>

fun generate_outcome :: "event \<Rightarrow> bool option" where
  "generate_outcome (Info_Generated p) = Some True"
| "generate_outcome (Info_DryRun p) = Some True"
| "generate_outcome (Error_Failed l e) = Some False"
| "generate_outcome _ = None"

fun validate_outcome :: "event \<Rightarrow> (path \<times> bool) option" where
  "validate_outcome (Info_Valid p) = Some (p, True)"
| "validate_outcome (Warning_NotFound p) = Some (p, False)"
| "validate_outcome (Warning_OutOfDate p) = Some (p, False)"
| "validate_outcome (Error_Validation p e) = Some (p, False)"
| "validate_outcome _ = None"

text \<open>
  A small environment for the concrete examples: the templates are a fixed table, and
  a template is a list of literal texts, variables of the context (an undefined
  variable renders as the empty text), snippets included from the disk with the
  filter \<open>include_snippet_filter\<close> of a project root, and a piece whose rendering
  raises.
\<close>

datatype piece = Lit string | Var string | Snippet path string string | Raise

fun render_pieces :: "fs \<Rightarrow> piece list \<Rightarrow> (string \<times> pyval) list \<Rightarrow> error + string" where
  "render_pieces fs [] context = Inr []"
| "render_pieces fs (Lit s # ps) context =
     (case render_pieces fs ps context of Inl e \<Rightarrow> Inl e | Inr r \<Rightarrow> Inr (s @ r))"
| "render_pieces fs (Var v # ps) context =
     (case render_pieces fs ps context of
        Inl e \<Rightarrow> Inl e
      | Inr r \<Rightarrow> Inr ((case map_of context v of None \<Rightarrow> [] | Some x \<Rightarrow> py_str x) @ r))"
| "render_pieces fs (Snippet root pth lang # ps) context =
     (case include_snippet_filter (init root :: unit generator) fs pth lang of
        Inl e \<Rightarrow> Inl e
      | Inr snippet \<Rightarrow>
          (case render_pieces fs ps context of Inl e \<Rightarrow> Inl e | Inr r \<Rightarrow> Inr (snippet @ r)))"
| "render_pieces fs (Raise # ps) context = Inl TemplateError"

definition table_env :: "(string \<times> piece list) list \<Rightarrow> piece list jinja" where
  "table_env table =
     \<lparr>get_template = (\<lambda>fs n. case map_of table n of
                                   None \<Rightarrow> Inl (TemplateNotFound n)
                                 | Some t \<Rightarrow> Inr t),
      render_template = (\<lambda>t fs context. render_pieces fs t context)\<rparr>"

definition fixed_environment :: "(string \<times> piece list) list \<Rightarrow> path \<Rightarrow> piece list jinja" where
  "fixed_environment table dir = table_env table"

text \<open>A parser for the examples: whatever the text, it gives the same value or raises
  the same exception.\<close>

definition fixed_parser :: "error + pyval \<Rightarrow> string \<Rightarrow> error + pyval" where
  "fixed_parser result text = result"

text \<open>Disks for the examples: the working directory is the root, and every file is
  listed with the directories above it.\<close>

definition disk_of :: "(string list \<times> node) list \<Rightarrow> fs" where
  "disk_of entries = \<lparr>cwd = [], nodes = map_of entries\<rparr>"

definition no_files :: fs where
  "no_files = disk_of []"

definition empty_world :: world where
  "empty_world = \<lparr>files = no_files, logged = []\<rparr>"

text \<open>
  A README project with two targets: \<^verbatim>\<open>broken\<close> names a template that does not
  exist, \<^verbatim>\<open>python\<close> uses the template \<^verbatim>\<open># {{ language }}: {{ tagline }}\<close>.
\<close>

definition two_languages :: "(string \<times> pyval) list" where
  "two_languages =
     [(''broken'', PDict [(''template'', PStr ''missing.md.jinja'')]),
      (''python'', PDict [(''tagline'', PStr ''fast'')])]"

definition two_generator :: "piece list generator" where
  "two_generator =
     \<lparr>project_root = Path True [''repo''],
      config = PDict [(''version'', PStr ''1.0''), (''languages'', PDict two_languages)],
      jinja_env = Some (table_env
        [(''python.md.jinja'', [Lit ''# '', Var ''language'', Lit '': '', Var ''tagline''])])\<rparr>"

definition python_readme :: path where
  "python_readme = Path True [''repo'', ''packages'', ''python'', ''README.md'']"

definition stale_world :: world where
  "stale_world =
     \<lparr>files = disk_of
         [([''repo''], Dir),
          ([''repo'', ''packages''], Dir),
          ([''repo'', ''packages'', ''python''], Dir),
          ([''repo'', ''packages'', ''python'', ''README.md''], File ''# python: slow'')],
      logged = []\<rparr>"

text \<open>
  A README project whose one target writes its output to the path of its own
  migration guide, with the template \<^verbatim>\<open>{{ migration_guide }}Guide\<close>.
\<close>

definition guide_generator :: "piece list generator" where
  "guide_generator =
     \<lparr>project_root = Path True [''repo''],
      config = PDict
        [(''version'', PStr ''1.0''),
         (''languages'', PDict
            [(''python'', PDict
                [(''output_path'', PStr ''docs/migration-guides/python/1.0.md'')])])],
      jinja_env = Some (table_env
        [(''python.md.jinja'', [Var ''migration_guide'', Lit ''Guide''])])\<rparr>"

text \<open>A README project whose one target renders a configured text that holds a
  carriage return, with the template \<^verbatim>\<open>{{ tagline }}\<close>.\<close>

definition cr_generator :: "piece list generator" where
  "cr_generator =
     \<lparr>project_root = Path True [''repo''],
      config = PDict
        [(''languages'', PDict
            [(''python'', PDict [(''tagline'', PStr [CHR ''a'', CHR 0x0D, CHR ''b''])])])],
      jinja_env = Some (table_env [(''python.md.jinja'', [Var ''tagline''])])\<rparr>"

text \<open>
  A visitor-callback project with two targets: the template of \<^verbatim>\<open>rust\<close> does not
  exist, that of \<^verbatim>\<open>go\<close> does.
\<close>

definition visitor_schema :: pyval where
  "visitor_schema =
     PDict
       [(''version'', PStr ''1''),
        (''metadata'', PDict [(''total_callbacks'', PInt 2), (''expected_reduction'', PDict [])]),
        (''types'', PDict []),
        (''callbacks'', PList []),
        (''generation'', PDict
           [(''targets'', PDict
              [(''rust'', PDict [(''template'', PStr ''templates/rust.j2''),
                                 (''output_file'', PStr ''out/visitor.rs'')]),
               (''go'', PDict [(''template'', PStr ''templates/go.j2''),
                               (''output_file'', PStr ''out/visitor.go'')])])])]"

definition visitor_files :: fs where
  "visitor_files =
     disk_of
       [([''repo''], Dir),
        ([''repo'', ''crates''], Dir),
        ([''repo'', ''crates'', ''html-to-markdown-ffi''], Dir),
        ([''repo'', ''crates'', ''html-to-markdown-ffi'', ''visitor_callbacks.yaml''],
           File ''version: 1''),
        ([''repo'', ''crates'', ''html-to-markdown-ffi'', ''templates''], Dir)]"

definition visitor_templates :: "(string \<times> piece list) list" where
  "visitor_templates = [(''go.j2'', [Lit ''package visitor''])]"

text \<open>A README project on disk: the configuration file and the template directory.\<close>

definition readme_files :: fs where
  "readme_files =
     disk_of
       [([''repo''], Dir),
        ([''repo'', ''scripts''], Dir),
        ([''repo'', ''scripts'', ''readme_config.yaml''], File ''version: 1.0''),
        ([''repo'', ''scripts'', ''readme_templates''], Dir)]"

definition readme_world :: world where
  "readme_world = \<lparr>files = readme_files, logged = []\<rparr>"

definition default_args :: args where
  "default_args = \<lparr>language = None, dry_run = False, validate = False\<rparr>"

definition python_args :: args where
  "python_args = \<lparr>language = Some ''python'', dry_run = False, validate = False\<rparr>"

text \<open>A README project that has its configuration file but no template directory.\<close>

definition config_only_world :: world where
  "config_only_world =
     \<lparr>files = disk_of
         [([''repo''], Dir),
          ([''repo'', ''scripts''], Dir),
          ([''repo'', ''scripts'', ''readme_config.yaml''], File ''version: 1.0'')],
      logged = []\<rparr>"

text \<open>The README of the \<^verbatim>\<open>python\<close> target as generated, but with the line ending
  carriage return and line feed.\<close>

definition crlf_world :: world where
  "crlf_world =
     \<lparr>files = disk_of
         [([''repo''], Dir),
          ([''repo'', ''packages''], Dir),
          ([''repo'', ''packages'', ''python''], Dir),
          ([''repo'', ''packages'', ''python'', ''README.md''],
             File (''# python: fast'' @ [CHR 0x0D, CHR 0x0A]))],
      logged = []\<rparr>"

text \<open>A README project whose one target has a template that raises when rendered.\<close>

definition raising_generator :: "piece list generator" where
  "raising_generator =
     \<lparr>project_root = Path True [''repo''],
      config = PDict [(''languages'', PDict [(''ruby'', PDict [])])],
      jinja_env = Some (table_env [(''ruby.md.jinja'', [Lit ''# Ruby'', Raise])])\<rparr>"

text \<open>
  A README project whose one target includes a snippet from the disk, with the
  template \<^verbatim>\<open># {{ language }}\<close>, a line feed and
  \<^verbatim>\<open>{{ "hello.py" | include_snippet("python") }}\<close>.
\<close>

definition snippet_generator :: "piece list generator" where
  "snippet_generator =
     \<lparr>project_root = Path True [''repo''],
      config = PDict [(''version'', PStr ''1.0''), (''languages'', PDict [(''python'', PDict [])])],
      jinja_env = Some (table_env
        [(''python.md.jinja'',
          [Lit ''# '', Var ''language'', Lit nl,
           Snippet (Path True [''repo'']) ''hello.py'' ''python''])])\<rparr>"

definition snippet_world :: world where
  \<open>snippet_world =
     \<lparr>files = disk_of
         [([''repo''], Dir),
          ([''repo'', ''docs''], Dir),
          ([''repo'', ''docs'', ''snippets''], Dir),
          ([''repo'', ''docs'', ''snippets'', ''python''], Dir),
          ([''repo'', ''docs'', ''snippets'', ''python'', ''hello.py''],
             File (''print("hi")'' @ nl))],
      logged = []\<rparr>\<close>

text \<open>
  A README project whose one target writes its output over the snippet that its
  template includes, with the template \<^verbatim>\<open>Intro\<close>, a space and
  \<^verbatim>\<open>{{ "hello.py" | include_snippet("python") }}\<close>.
\<close>

definition alias_generator :: "piece list generator" where
  "alias_generator =
     \<lparr>project_root = Path True [''repo''],
      config = PDict
        [(''languages'', PDict
            [(''python'', PDict [(''output_path'', PStr ''docs/snippets/python/hello.py'')])])],
      jinja_env = Some (table_env
        [(''python.md.jinja'',
          [Lit ''Intro '', Snippet (Path True [''repo'']) ''hello.py'' ''python''])])\<rparr>"
section \<open>Properties of the code block handler\<close>

subsection \<open>Whitespace\<close>

lemma nl_space: "is_space (CHR 0x0A)"
  by (simp add: is_space_def)

lemma unicode_spaces_shape:
  "u \<in> set unicode_spaces \<Longrightarrow>
     length u = 2 \<and> hd u = CHR 0xC2 \<or> length u = 3 \<and> hd u \<noteq> CHR 0xC2"
  by (auto simp: unicode_spaces_def)

lemma unicode_spaces_prefix_free:
  assumes "u \<in> set unicode_spaces" and "v \<in> set unicode_spaces" and "prefix u v"
  shows "u = v"
proof (cases "length u = length v")
  case True
  with assms(3) show ?thesis by (auto simp: prefix_def)
next
  case False
  from assms(3) have le: "length u \<le> length v" by (rule prefix_length_le)
  from unicode_spaces_shape [OF assms(1)] unicode_spaces_shape [OF assms(2)] False le
  have s: "length u = 2" "hd u = CHR 0xC2" "hd v \<noteq> CHR 0xC2" by auto
  then have "u \<noteq> []" by auto
  with assms(3) have "hd u = hd v" by (auto simp: prefix_def)
  with s show ?thesis by simp
qed

lemma unicode_spaces_bytes:
  "u \<in> set unicode_spaces \<Longrightarrow> c \<in> set u \<Longrightarrow> 128 \<le> (of_char c :: nat)"
  by (auto simp: unicode_spaces_def)

lemma unicode_spaces_nonempty: "u \<in> set unicode_spaces \<Longrightarrow> u \<noteq> []"
  by (auto simp: unicode_spaces_def)

lemma whitespace_Nil [simp]: "whitespace [] = 0"
  by (simp add: whitespace_def space_width_def)

lemma whitespace_space: "is_space c \<Longrightarrow> whitespace (c # cs) = 1"
  by (simp add: whitespace_def space_width_def)

lemma whitespace_cases:
  assumes "0 < whitespace s"
  obtains c cs where "s = c # cs" "is_space c" "whitespace s = 1"
  | u where "u \<in> set unicode_spaces" "prefix u s" "whitespace s = length u"
      "find (\<lambda>u. prefix u s) unicode_spaces = Some u" "\<not> is_space (hd s)"
proof (cases s)
  case Nil
  with assms show ?thesis by simp
next
  case (Cons c cs)
  show ?thesis
  proof (cases "is_space c")
    case True
    with Cons that(1) show ?thesis by (simp add: whitespace_space)
  next
    case False
    with assms Cons obtain u where f: "find (\<lambda>u. prefix u s) unicode_spaces = Some u"
      by (auto simp: whitespace_def space_width_def split: option.splits)
    then have "u \<in> set unicode_spaces" "prefix u s"
      by (auto simp: find_Some_iff)
    moreover have "whitespace s = length u"
      using f False Cons by (simp add: whitespace_def space_width_def)
    ultimately show ?thesis using that(2) f False Cons by simp
  qed
qed

lemma whitespace_le: "whitespace s \<le> length s"
proof (cases "0 < whitespace s")
  case True
  then show ?thesis
    by (cases rule: whitespace_cases) (auto simp: prefix_def)
next
  case False
  then show ?thesis by simp
qed

lemma find_prefix_append:
  assumes "find (\<lambda>u. prefix u s) unicode_spaces = Some u"
  shows "find (\<lambda>u. prefix u (s @ t)) unicode_spaces = Some u"
proof -
  from assms obtain i where i: "i < length unicode_spaces" "prefix (unicode_spaces ! i) s"
    "u = unicode_spaces ! i" "\<forall>j<i. \<not> prefix (unicode_spaces ! j) s"
    by (auto simp: find_Some_iff)
  have "\<not> prefix (unicode_spaces ! j) (s @ t)" if "j < i" for j
  proof
    assume p: "prefix (unicode_spaces ! j) (s @ t)"
    from i(2) have "prefix (unicode_spaces ! i) (s @ t)" by (simp add: prefix_prefix)
    with p have "prefix (unicode_spaces ! j) (unicode_spaces ! i)
        \<or> prefix (unicode_spaces ! i) (unicode_spaces ! j)"
      by (metis prefix_same_cases)
    moreover have "unicode_spaces ! j \<in> set unicode_spaces" "unicode_spaces ! i \<in> set unicode_spaces"
      using that i(1) by simp_all
    ultimately have "unicode_spaces ! j = unicode_spaces ! i"
      using unicode_spaces_prefix_free by metis
    with i(2,4) that show False by metis
  qed
  with i show ?thesis
    by (auto simp: find_Some_iff prefix_prefix intro!: exI [of _ i])
qed

lemma whitespace_append:
  assumes "0 < whitespace s"
  shows "whitespace (s @ t) = whitespace s"
  using assms
proof (cases rule: whitespace_cases)
  case (1 c cs)
  then show ?thesis by (simp add: whitespace_space)
next
  case (2 u)
  from 2(2,1) have "s \<noteq> []" using unicode_spaces_nonempty by (auto simp: prefix_def)
  then obtain c cs where s: "s = c # cs" by (cases s) auto
  with 2(5) have "\<not> is_space c" by simp
  with s find_prefix_append [OF 2(4), of t] 2(3) show ?thesis
    by (simp add: whitespace_def space_width_def)
qed

lemma whitespace_ascii:
  assumes "(of_char c :: nat) < 128" and "\<not> is_space c"
  shows "whitespace (c # cs) = 0"
proof (rule ccontr)
  assume "whitespace (c # cs) \<noteq> 0"
  then have "0 < whitespace (c # cs)" by simp
  then show False
  proof (cases rule: whitespace_cases)
    case (1 c' cs')
    with assms show ?thesis by simp
  next
    case (2 u)
    then have "u \<noteq> []" using unicode_spaces_nonempty by blast
    with 2(2) have "c \<in> set u" by (cases u) (auto simp: prefix_def)
    with 2(1) assms(1) show ?thesis using unicode_spaces_bytes by fastforce
  qed
qed

lemma whitespace_first: "0 < whitespace (c # cs) \<Longrightarrow> is_space c \<or> 128 \<le> (of_char c :: nat)"
  using whitespace_ascii [of c cs] by fastforce

lemma strip_length: "length (strip table s) \<le> length s"
proof (induction table s rule: strip.induct)
  case (1 table)
  then show ?case by simp
next
  case (2 table c cs)
  then show ?case by (auto simp: le_SucI intro: order_trans)
qed

lemma lstrip_Nil [simp]: "lstrip [] = []"
  by (simp add: lstrip_def)

lemma lstrip_Cons:
  "lstrip (c # cs) =
     (if whitespace (c # cs) = 0 then c # cs else lstrip (drop (whitespace (c # cs) - 1) cs))"
  by (simp add: lstrip_def whitespace_def)

lemma lstrip_step: "0 < whitespace s \<Longrightarrow> lstrip s = lstrip (drop (whitespace s) s)"
  by (cases s) (auto simp: lstrip_Cons drop_Cons')

lemma lstrip_id: "whitespace s = 0 \<Longrightarrow> lstrip s = s"
  by (cases s) (auto simp: lstrip_Cons)

lemma lstrip_fixed: "lstrip s = s \<Longrightarrow> whitespace s = 0"
proof (rule ccontr)
  assume a: "lstrip s = s" and "whitespace s \<noteq> 0"
  then have p: "0 < whitespace s" by simp
  then have "s \<noteq> []" by auto
  have "length (lstrip (drop (whitespace s) s)) \<le> length (drop (whitespace s) s)"
    unfolding lstrip_def by (rule strip_length)
  also have "\<dots> < length s" using p \<open>s \<noteq> []\<close> by simp
  finally show False using lstrip_step [OF p] a by simp
qed

lemma blank_step:
  assumes "lstrip ws = []" and "ws \<noteq> []"
  shows "0 < whitespace ws" and "lstrip (drop (whitespace ws) ws) = []"
proof -
  show p: "0 < whitespace ws"
  proof (rule ccontr)
    assume "\<not> 0 < whitespace ws"
    then have "lstrip ws = ws" by (simp add: lstrip_id)
    with assms show False by simp
  qed
  from lstrip_step [OF p] assms(1) show "lstrip (drop (whitespace ws) ws) = []" by simp
qed

lemma blank_append_drop:
  assumes "0 < whitespace ws"
  shows "\<exists>c cs. ws @ t = c # cs \<and> c = hd ws \<and> whitespace (c # cs) = whitespace ws
      \<and> drop (whitespace (c # cs) - 1) cs = drop (whitespace ws) ws @ t"
proof -
  from assms obtain c cs' where ws: "ws = c # cs'" by (cases ws) auto
  have w: "whitespace (ws @ t) = whitespace ws" using assms by (rule whitespace_append)
  have le: "whitespace ws \<le> length ws" by (rule whitespace_le)
  have "drop (whitespace ws - 1) (cs' @ t) = drop (whitespace ws) (ws @ t)"
    using assms ws by (simp add: drop_Cons')
  also have "\<dots> = drop (whitespace ws) ws @ t" using le by simp
  finally show ?thesis using ws w by simp
qed


lemma whitespace_take:
  assumes "0 < whitespace s"
  shows "whitespace (take (whitespace s) s) = whitespace s"
  using assms
proof (cases rule: whitespace_cases)
  case (1 c cs)
  then show ?thesis by (simp add: whitespace_space)
next
  case (2 u)
  then have t: "take (whitespace s) s = u" by (auto simp: prefix_def)
  have ne: "u \<noteq> []" using 2(1) by (rule unicode_spaces_nonempty)
  then obtain c cs where u: "u = c # cs" by (cases u) auto
  have "128 \<le> (of_char c :: nat)" using unicode_spaces_bytes [OF 2(1)] u by simp
  then have ns: "\<not> is_space c" by (auto simp: is_space_def)
  obtain i where i: "i < length unicode_spaces" "unicode_spaces ! i = u"
    using 2(1) by (auto simp: in_set_conv_nth)
  have "\<exists>v. find (\<lambda>v. prefix v u) unicode_spaces = Some v"
    using 2(1) by (cases "find (\<lambda>v. prefix v u) unicode_spaces") (auto simp: find_None_iff)
  then obtain v where v: "find (\<lambda>v. prefix v u) unicode_spaces = Some v" by blast
  then have "v \<in> set unicode_spaces" "prefix v u" by (auto simp: find_Some_iff)
  with 2(1) have "v = u" using unicode_spaces_prefix_free by blast
  with v u ns have "whitespace u = length u"
    by (simp add: whitespace_def space_width_def)
  with t 2(3) show ?thesis by simp
qed

lemma lstrip_char:
  assumes "0 < whitespace s"
  shows "lstrip (take (whitespace s) s @ b) = lstrip b"
proof -
  let ?u = "take (whitespace s) s"
  have w: "whitespace ?u = whitespace s" using assms by (rule whitespace_take)
  with assms have "whitespace (?u @ b) = whitespace s" by (simp add: whitespace_append)
  moreover have "length ?u = whitespace s" using whitespace_le [of s] by simp
  ultimately have "drop (whitespace (?u @ b)) (?u @ b) = b" by simp
  moreover have "0 < whitespace (?u @ b)" using assms w by (simp add: whitespace_append)
  ultimately show ?thesis using lstrip_step [of "?u @ b"] by simp
qed

subsection \<open>Skipping text that holds no fence marker\<close>

lemma fence_tail: "fence @ s = ''``'' @ ''`'' @ s"
  by (simp add: fence_def)

lemma fence_not_prefix:
  assumes "\<not> sublist fence ((c # xs) @ ''``'')"
  shows "\<not> prefix fence (c # xs @ fence @ s)"
proof
  assume "prefix fence (c # xs @ fence @ s)"
  then have "prefix fence (((c # xs) @ ''``'') @ (''`'' @ s))"
    unfolding fence_tail by simp
  moreover have "length fence \<le> length ((c # xs) @ ''``'')"
    by (simp add: fence_def)
  ultimately have "prefix fence ((c # xs) @ ''``'')"
    by (metis prefix_length_prefix prefixI)
  then have "sublist fence ((c # xs) @ ''``'')"
    by (rule prefix_imp_sublist)
  with assms show False by simp
qed

lemma no_fence_tl:
  "\<not> sublist fence ((c # xs) @ ''``'') \<Longrightarrow> \<not> sublist fence (xs @ ''``'')"
  by (metis append_Cons sublist_Cons_right)

lemma re_search_skip:
  "\<not> sublist fence (pre @ ''``'') \<Longrightarrow> re_search (pre @ fence @ s) = re_search (fence @ s)"
proof (induction pre)
  case Nil
  then show ?case by simp
next
  case (Cons c pre)
  from Cons.prems have "\<not> prefix fence (c # pre @ fence @ s)"
    by (rule fence_not_prefix)
  moreover from Cons.prems have "\<not> sublist fence (pre @ ''``'')"
    by (rule no_fence_tl)
  ultimately show ?case using Cons.IH by simp
qed

lemma find_fence_here: "find_fence (fence @ s) = Some []"
  by (simp add: fence_def)

lemma find_fence_inner:
  "\<not> sublist fence (inner @ ''``'') \<Longrightarrow> find_fence (inner @ fence @ post) = Some inner"
proof (induction inner)
  case Nil
  then show ?case by (simp add: find_fence_here)
next
  case (Cons c inner)
  from Cons.prems have "\<not> prefix fence (c # inner @ fence @ post)"
    by (rule fence_not_prefix)
  moreover from Cons.prems have "\<not> sublist fence (inner @ ''``'')"
    by (rule no_fence_tl)
  ultimately show ?case using Cons.IH by simp
qed


lemma prefix_before_fence:
  assumes "prefix t (inner @ fence @ post)" and "CHR 0x60 \<notin> set t"
  shows "prefix t inner"
proof -
  from assms(1) consider "prefix t inner" | us where "t = inner @ us" "prefix us (fence @ post)"
    by (auto simp: prefix_append)
  then show ?thesis
  proof cases
    case 1
    then show ?thesis .
  next
    case 2
    show ?thesis
    proof (cases us)
      case Nil
      with 2 show ?thesis by simp
    next
      case (Cons u us')
      with 2 have "u = CHR 0x60" by (simp add: fence_def)
      with 2 Cons assms(2) show ?thesis by simp
    qed
  qed
qed


lemma whitespace_before_fence:
  assumes "whitespace r = 0"
  shows "whitespace (r @ fence @ post) = 0"
proof (rule ccontr)
  assume "whitespace (r @ fence @ post) \<noteq> 0"
  then have "0 < whitespace (r @ fence @ post)" by simp
  then show False
  proof (cases rule: whitespace_cases)
    case (1 c cs)
    show ?thesis
    proof (cases r)
      case Nil
      with 1 show ?thesis by (auto simp: fence_def is_space_def)
    next
      case (Cons x xs)
      with 1 have "is_space x" by simp
      with Cons assms show ?thesis by (simp add: whitespace_space)
    qed
  next
    case (2 u)
    have "CHR 0x60 \<notin> set u" using unicode_spaces_bytes [OF 2(1)] by fastforce
    with 2(2) have p: "prefix u r" by (rule prefix_before_fence)
    have "u \<noteq> []" using 2(1) by (rule unicode_spaces_nonempty)
    with p obtain x xs where r: "r = x # xs" by (cases r) auto
    with 2(5) have "\<not> is_space x" by simp
    moreover have "find (\<lambda>u. prefix u r) unicode_spaces \<noteq> None"
      using p 2(1) by (auto simp: find_None_iff)
    moreover have "\<And>v. find (\<lambda>u. prefix u r) unicode_spaces = Some v \<Longrightarrow> v \<noteq> []"
      using unicode_spaces_nonempty by (auto simp: find_Some_iff)
    ultimately have "whitespace r \<noteq> 0"
      using r by (auto simp: whitespace_def space_width_def split: option.splits)
    with assms show ?thesis by simp
  qed
qed

subsection \<open>The pieces of the pattern\<close>

lemma body_step:
  "0 < whitespace (c # cs) \<Longrightarrow> body (drop (whitespace (c # cs) - 1) cs) = Some x \<Longrightarrow>
   body (c # cs) = Some x"
  by simp

lemma body_no_space: "whitespace s = 0 \<Longrightarrow> body s = None"
proof (cases s)
  case Nil
  then show ?thesis by simp
next
  case (Cons c cs)
  assume w: "whitespace s = 0"
  with Cons have "c \<noteq> CHR 0x0A" using whitespace_space [OF nl_space, of cs] by auto
  with w Cons show ?thesis by simp
qed

lemma header_no_space: "whitespace s = 0 \<Longrightarrow> header s = title_body s"
  by (cases s) simp_all

lemma title_body_no_title: "title s = None \<Longrightarrow> title_body s = body s"
  by (simp add: title_body_def split: option.splits)

lemma title_no_prefix: "\<not> prefix (''title='' @ [CHR 0x22]) s \<Longrightarrow> title s = None"
  by (simp add: title_def)

lemma title_attribute:
  assumes "CHR 0x22 \<notin> set q"
  shows "title (''title='' @ [CHR 0x22] @ q @ [CHR 0x22] @ r) = Some r"
proof -
  have "dropWhile (\<lambda>c. c \<noteq> CHR 0x22) (q @ CHR 0x22 # r) = CHR 0x22 # r"
    using assms by (induction q) auto
  then show ?thesis by (simp add: title_def)
qed

lemma body_blank:
  "lstrip ws = [] \<Longrightarrow> body r = Some x \<Longrightarrow> body (ws @ r) = Some x"
proof (induction ws rule: length_induct)
  case (1 ws)
  show ?case
  proof (cases "ws = []")
    case True
    with 1 show ?thesis by simp
  next
    case False
    from blank_step [OF 1(2) False]
    have p: "0 < whitespace ws" and b: "lstrip (drop (whitespace ws) ws) = []" .
    from blank_append_drop [OF p, of r] obtain c cs where
      e: "ws @ r = c # cs" "whitespace (c # cs) = whitespace ws"
      "drop (whitespace (c # cs) - 1) cs = drop (whitespace ws) ws @ r" by blast
    have "length (drop (whitespace ws) ws) < length ws" using p False by simp
    with 1(1) b 1(3) have "body (drop (whitespace ws) ws @ r) = Some x" by blast
    with e p show ?thesis by (simp del: body.simps add: body_step)
  qed
qed

lemma header_step:
  "0 < whitespace (c # cs) \<Longrightarrow> header (drop (whitespace (c # cs) - 1) cs) = Some x \<Longrightarrow>
   header (c # cs) = Some x"
  by simp

lemma header_blank:
  "lstrip ws = [] \<Longrightarrow> header r = Some x \<Longrightarrow> header (ws @ r) = Some x"
proof (induction ws rule: length_induct)
  case (1 ws)
  show ?case
  proof (cases "ws = []")
    case True
    with 1 show ?thesis by simp
  next
    case False
    from blank_step [OF 1(2) False]
    have p: "0 < whitespace ws" and b: "lstrip (drop (whitespace ws) ws) = []" .
    from blank_append_drop [OF p, of r] obtain c cs where
      e: "ws @ r = c # cs" "whitespace (c # cs) = whitespace ws"
      "drop (whitespace (c # cs) - 1) cs = drop (whitespace ws) ws @ r" by blast
    have "length (drop (whitespace ws) ws) < length ws" using p False by simp
    with 1(1) b 1(3) have "header (drop (whitespace ws) ws @ r) = Some x" by blast
    with e p show ?thesis by (simp del: header.simps add: header_step)
  qed
qed

lemma body_lead:
  "lstrip lead = [] \<Longrightarrow> CHR 0x0A \<notin> set lead \<Longrightarrow> body t = None \<Longrightarrow>
   body (lead @ t) = None"
proof (induction lead rule: length_induct)
  case (1 lead)
  show ?case
  proof (cases "lead = []")
    case True
    with 1 show ?thesis by simp
  next
    case False
    from blank_step [OF 1(2) False]
    have p: "0 < whitespace lead" and b: "lstrip (drop (whitespace lead) lead) = []" .
    from blank_append_drop [OF p, of t] obtain c cs where
      e: "lead @ t = c # cs" "c = hd lead" "whitespace (c # cs) = whitespace lead"
      "drop (whitespace (c # cs) - 1) cs = drop (whitespace lead) lead @ t" by blast
    have "length (drop (whitespace lead) lead) < length lead" using p False by simp
    moreover have "CHR 0x0A \<notin> set (drop (whitespace lead) lead)"
      using 1(3) by (auto dest: in_set_dropD)
    ultimately have "body (drop (whitespace lead) lead @ t) = None"
      using 1(1) b 1(4) by blast
    moreover have "c \<noteq> CHR 0x0A" using e(2) False 1(3) hd_in_set by fastforce
    ultimately show ?thesis using e p by simp
  qed
qed

lemma header_lead:
  "lstrip lead = [] \<Longrightarrow> CHR 0x0A \<notin> set lead \<Longrightarrow> body t = None \<Longrightarrow>
   header t = None \<Longrightarrow> header (lead @ t) = None"
proof (induction lead rule: length_induct)
  case (1 lead)
  show ?case
  proof (cases "lead = []")
    case True
    with 1 show ?thesis by simp
  next
    case False
    from blank_step [OF 1(2) False]
    have p: "0 < whitespace lead" and b: "lstrip (drop (whitespace lead) lead) = []" .
    from blank_append_drop [OF p, of t] obtain c cs where
      e: "lead @ t = c # cs" "c = hd lead" "whitespace (c # cs) = whitespace lead"
      "drop (whitespace (c # cs) - 1) cs = drop (whitespace lead) lead @ t" by blast
    have "length (drop (whitespace lead) lead) < length lead" using p False by simp
    moreover have "CHR 0x0A \<notin> set (drop (whitespace lead) lead)"
      using 1(3) by (auto dest: in_set_dropD)
    ultimately have h: "header (drop (whitespace lead) lead @ t) = None"
      using 1(1) b 1(4,5) by blast
    have "0 < whitespace (c # cs)" using e(3) p by simp
    then have "is_space c \<or> 128 \<le> (of_char c :: nat)" by (rule whitespace_first)
    then have "c \<noteq> CHR ''t''" by (auto simp: is_space_def)
    then have "title (c # cs) = None" by (simp add: title_def)
    then have "title_body (c # cs) = body (c # cs)" by (rule title_body_no_title)
    also have "\<dots> = None"
      using body_lead [OF 1(2,3,4)] e(1) by simp
    finally show ?thesis using h e p by (simp del: body.simps)
  qed
qed

subsection \<open>The shape of a text in which the search succeeds\<close>

lemma find_fence_shape: "find_fence s = Some c \<Longrightarrow> \<exists>d. s = c @ fence @ d"
proof (induction s arbitrary: c)
  case Nil
  then show ?case by simp
next
  case (Cons x s)
  show ?case
  proof (cases "prefix fence (x # s)")
    case True
    with Cons.prems have "c = []" by simp
    with True show ?thesis by (auto simp: prefix_def)
  next
    case False
    with Cons.prems obtain c' where "find_fence s = Some c'" "c = x # c'"
      by auto
    with Cons.IH show ?thesis by auto
  qed
qed

lemma body_shape:
  "body s = Some c \<Longrightarrow> \<exists>b d. s = b @ nl @ c @ fence @ d \<and> lstrip b = []"
proof (induction s rule: length_induct)
  case (1 s)
  from 1(2) obtain x xs where s: "s = x # xs" by (cases s) auto
  show ?case
  proof (cases "0 < whitespace s \<and> body (drop (whitespace s) s) \<noteq> None")
    case True
    then have p: "0 < whitespace s" by simp
    have d: "drop (whitespace s - 1) xs = drop (whitespace s) s"
      using p s by (simp add: drop_Cons')
    with True 1(2) s have "body (drop (whitespace s) s) = Some c" by auto
    moreover have "length (drop (whitespace s) s) < length s" using p s by simp
    ultimately obtain b d where
      e: "drop (whitespace s) s = b @ nl @ c @ fence @ d" and b: "lstrip b = []"
      using 1(1) by blast
    have "s = take (whitespace s) s @ drop (whitespace s) s" by simp
    then have "s = (take (whitespace s) s @ b) @ nl @ c @ fence @ d"
      unfolding e by simp
    moreover have "lstrip (take (whitespace s) s @ b) = []"
      using lstrip_char [OF p] b by simp
    ultimately show ?thesis by blast
  next
    case False
    have d: "drop (whitespace s - 1) xs = drop (whitespace s) s" if "0 < whitespace s"
      using that s by (simp add: drop_Cons')
    from False 1(2) s d have "x = CHR 0x0A" "find_fence xs = Some c"
      by (auto split: if_splits option.splits)
    then obtain d where "xs = c @ fence @ d" using find_fence_shape by blast
    with \<open>x = CHR 0x0A\<close> s have "s = [] @ nl @ c @ fence @ d" by (simp add: nl_def)
    then show ?thesis by (metis lstrip_Nil)
  qed
qed

lemma title_shape:
  assumes "title s = Some r"
  shows "\<exists>q. s = ''title='' @ [CHR 0x22] @ q @ [CHR 0x22] @ r \<and> CHR 0x22 \<notin> set q"
proof -
  let ?P = "\<lambda>c. c \<noteq> CHR 0x22"
  from assms have p: "prefix (''title='' @ [CHR 0x22]) s"
    by (auto simp: title_def split: if_splits)
  then obtain t where s: "s = (''title='' @ [CHR 0x22]) @ t" by (auto simp: prefix_def)
  then have d: "drop 7 s = t" by simp
  from assms p d obtain x where x: "dropWhile ?P t = x # r"
    by (auto simp: title_def split: if_splits list.splits)
  then have "x = CHR 0x22" using hd_dropWhile [of ?P t] by force
  with x have "t = takeWhile ?P t @ [CHR 0x22] @ r"
    using takeWhile_dropWhile_id [of ?P t] by simp
  moreover have "CHR 0x22 \<notin> set (takeWhile ?P t)" by (auto dest: set_takeWhileD)
  ultimately show ?thesis using s by (metis append.assoc)
qed

lemma title_body_shape: "title_body s = Some c \<Longrightarrow> \<exists>b d. s = b @ nl @ c @ fence @ d"
proof -
  assume a: "title_body s = Some c"
  then consider r where "title s = Some r" "body r = Some c" | "body s = Some c"
    by (auto simp: title_body_def split: option.splits)
  then show ?thesis
  proof cases
    case 1
    then obtain q b d where "s = ''title='' @ [CHR 0x22] @ q @ [CHR 0x22] @ r"
      "r = b @ nl @ c @ fence @ d"
      using title_shape body_shape by blast
    then have "s = (''title='' @ [CHR 0x22] @ q @ [CHR 0x22] @ b) @ nl @ c @ fence @ d" by simp
    then show ?thesis by blast
  next
    case 2
    then show ?thesis using body_shape by blast
  qed
qed

lemma header_shape: "header s = Some c \<Longrightarrow> \<exists>b d. s = b @ nl @ c @ fence @ d"
proof (induction s rule: length_induct)
  case (1 s)
  show ?case
  proof (cases s)
    case Nil
    with 1(2) have "title_body [] = Some c" by simp
    with Nil show ?thesis using title_body_shape by blast
  next
    case (Cons x xs)
    show ?thesis
    proof (cases "0 < whitespace s \<and> header (drop (whitespace s) s) \<noteq> None")
      case True
      then have p: "0 < whitespace s" by simp
      have d: "drop (whitespace s - 1) xs = drop (whitespace s) s"
        using p Cons by (simp add: drop_Cons')
      with True 1(2) Cons have "header (drop (whitespace s) s) = Some c" by auto
      moreover have "length (drop (whitespace s) s) < length s" using p Cons by simp
      ultimately obtain b d where
        e: "drop (whitespace s) s = b @ nl @ c @ fence @ d"
        using 1(1) by blast
      have "s = take (whitespace s) s @ drop (whitespace s) s" by simp
      then have "s = (take (whitespace s) s @ b) @ nl @ c @ fence @ d"
        unfolding e by simp
      then show ?thesis by blast
    next
      case False
      have d: "drop (whitespace s - 1) xs = drop (whitespace s) s" if "0 < whitespace s"
        using that Cons by (simp add: drop_Cons')
      from False 1(2) Cons d have "title_body s = Some c"
        by (auto split: if_splits option.splits)
      then show ?thesis by (rule title_body_shape)
    qed
  qed
qed

lemma lang_group_shape: "lang_group acc s = Some (l, c) \<Longrightarrow> \<exists>b d. s = b @ nl @ c @ fence @ d"
proof (induction s arbitrary: acc)
  case Nil
  then have "header [] = Some c" by (auto simp del: header.simps split: if_splits)
  then show ?case by (rule header_shape)
next
  case (Cons x s)
  show ?case
  proof (cases "is_word x \<and> lang_group (acc @ [x]) s \<noteq> None")
    case True
    with Cons.prems have "lang_group (acc @ [x]) s = Some (l, c)" by auto
    then obtain b d where "s = b @ nl @ c @ fence @ d" using Cons.IH by blast
    then have "x # s = (x # b) @ nl @ c @ fence @ d" by simp
    then show ?thesis by blast
  next
    case False
    with Cons.prems have "header (x # s) = Some c"
      by (auto simp del: header.simps split: if_splits option.splits)
    then show ?thesis by (rule header_shape)
  qed
qed

lemma open_fence_shape: "open_fence s = Some (g1, c) \<Longrightarrow> \<exists>b d. s = b @ nl @ c @ fence @ d"
  using lang_group_shape header_shape
  by (fastforce simp: open_fence_def split: option.splits)

lemma re_search_shape:
  "re_search s = Some (g1, c) \<Longrightarrow> \<exists>a b d. s = a @ fence @ b @ nl @ c @ fence @ d"
proof (induction s)
  case Nil
  then show ?case by simp
next
  case (Cons x s)
  show ?case
  proof (cases "prefix fence (x # s) \<and> open_fence (drop 3 (x # s)) \<noteq> None")
    case True
    with Cons.prems have o: "open_fence (drop 3 (x # s)) = Some (g1, c)" by auto
    from True obtain r where e: "x # s = fence @ r"
      by (auto simp: prefix_def)
    have "drop 3 (fence @ r) = r" by (simp add: fence_def)
    then have "drop 3 (x # s) = r" by (simp only: e)
    with o obtain b d where "r = b @ nl @ c @ fence @ d"
      using open_fence_shape by metis
    with e have "x # s = [] @ fence @ b @ nl @ c @ fence @ d" by simp
    then show ?thesis by blast
  next
    case False
    with Cons.prems have "re_search s = Some (g1, c)"
      by (auto split: if_splits option.splits)
    then obtain a b d where "s = a @ fence @ b @ nl @ c @ fence @ d"
      using Cons.IH by blast
    then have "x # s = (x # a) @ fence @ b @ nl @ c @ fence @ d" by simp
    then show ?thesis by blast
  qed
qed

subsection \<open>The text after the tag of an opening fence\<close>

lemma kept_text_unread:
  assumes lead: "lstrip lead = []" "CHR 0x0A \<notin> set lead"
    and rest: "lstrip rest = rest"
  shows "body (lead @ rest @ fence @ post) = None"
proof -
  have "whitespace rest = 0" using rest by (rule lstrip_fixed)
  then have "whitespace (rest @ fence @ post) = 0" by (rule whitespace_before_fence)
  then have "body (rest @ fence @ post) = None" by (rule body_no_space)
  with lead show ?thesis by (rule body_lead)
qed

lemma body_kept:
  assumes ws: "lstrip ws = []"
    and lead: "lstrip lead = []" "CHR 0x0A \<notin> set lead"
    and rest: "lstrip rest = rest"
    and nofence: "\<not> sublist fence ((lead @ rest) @ ''``'')"
  shows "body (ws @ nl @ (lead @ rest) @ fence @ post) = Some (lead @ rest)"
proof -
  let ?t = "lead @ rest @ fence @ post"
  have b: "body ?t = None" using lead rest by (rule kept_text_unread)
  have "find_fence ((lead @ rest) @ fence @ post) = Some (lead @ rest)"
    using nofence by (rule find_fence_inner)
  then have "body (CHR 0x0A # ?t) = Some (lead @ rest)"
    using b whitespace_space [OF nl_space, of ?t] by simp
  then have "body (ws @ CHR 0x0A # ?t) = Some (lead @ rest)"
    by (rule body_blank [OF ws])
  then show ?thesis by (simp add: nl_def)
qed

lemma header_kept:
  assumes ws: "lstrip ws = []"
    and lead: "lstrip lead = []" "CHR 0x0A \<notin> set lead"
    and rest: "lstrip rest = rest"
    and notitle: "\<not> (\<exists>q b r. rest @ fence @ post
          = ''title='' @ [CHR 0x22] @ q @ [CHR 0x22] @ b @ nl @ r
        \<and> CHR 0x22 \<notin> set q \<and> lstrip b = [] \<and> sublist fence r)"
    and nofence: "\<not> sublist fence ((lead @ rest) @ ''``'')"
  shows "header (ws @ nl @ (lead @ rest) @ fence @ post) = Some (lead @ rest)"
proof -
  let ?r = "rest @ fence @ post"
  let ?t = "lead @ ?r"
  have w: "whitespace ?r = 0"
    using lstrip_fixed [OF rest] by (rule whitespace_before_fence)
  then have br: "body ?r = None" by (rule body_no_space)
  have "(case title ?r of Some r0 \<Rightarrow> body r0 | None \<Rightarrow> None) = None"
  proof (cases "title ?r")
    case None
    then show ?thesis by simp
  next
    case (Some r0)
    have "body r0 = None"
    proof (cases "body r0")
      case None
      then show ?thesis .
    next
      case (Some x)
      from title_shape [OF \<open>title ?r = Some r0\<close>] obtain q where
        q: "?r = ''title='' @ [CHR 0x22] @ q @ [CHR 0x22] @ r0" "CHR 0x22 \<notin> set q" by blast
      from body_shape [OF Some] obtain b d where
        b: "r0 = b @ nl @ x @ fence @ d" "lstrip b = []" by blast
      have "sublist fence (x @ fence @ d)" by (simp add: sublist_append)
      with q b notitle show ?thesis by blast
    qed
    with Some show ?thesis by simp
  qed
  then have "title_body ?r = body ?r" by (simp add: title_body_def)
  with br w have hr: "header ?r = None" by (simp add: header_no_space)
  have bt: "body ?t = None" using lead br by (rule body_lead)
  have ht: "header ?t = None" using lead br hr by (rule header_lead)
  have "find_fence ((lead @ rest) @ fence @ post) = Some (lead @ rest)"
    using nofence by (rule find_fence_inner)
  then have "body (CHR 0x0A # ?t) = Some (lead @ rest)"
    using bt whitespace_space [OF nl_space, of ?t] by simp
  moreover have "title (CHR 0x0A # ?t) = None" by (simp add: title_def)
  ultimately have "title_body (CHR 0x0A # ?t) = Some (lead @ rest)"
    by (simp add: title_body_no_title del: body.simps)
  then have "header (CHR 0x0A # ?t) = Some (lead @ rest)"
    using ht whitespace_space [OF nl_space, of ?t] by (simp del: body.simps)
  then have "header (ws @ CHR 0x0A # ?t) = Some (lead @ rest)"
    by (rule header_blank [OF ws])
  then show ?thesis by (simp add: nl_def)
qed

lemma header_attribute:
  assumes ws1: "lstrip ws1 = []" and ws2: "lstrip ws2 = []"
    and q: "CHR 0x22 \<notin> set q"
    and lead: "lstrip lead = []" "CHR 0x0A \<notin> set lead"
    and rest: "lstrip rest = rest"
    and nofence: "\<not> sublist fence ((lead @ rest) @ ''``'')"
  shows "header (ws1 @ (''title='' @ [CHR 0x22] @ q @ [CHR 0x22]) @ ws2 @ nl
                 @ (lead @ rest) @ fence @ post) = Some (lead @ rest)"
proof -
  let ?b = "ws2 @ nl @ (lead @ rest) @ fence @ post"
  let ?a = "''title='' @ [CHR 0x22] @ q @ [CHR 0x22] @ ?b"
  have b: "body ?b = Some (lead @ rest)"
    using ws2 lead rest nofence by (rule body_kept)
  have "title ?a = Some ?b" using q by (rule title_attribute)
  with b have "title_body ?a = Some (lead @ rest)" by (simp add: title_body_def)
  moreover have "whitespace ?a = 0" by (simp add: whitespace_ascii is_space_def)
  ultimately have "header ?a = Some (lead @ rest)" by (simp add: header_no_space)
  then have "header (ws1 @ ?a) = Some (lead @ rest)"
    by (rule header_blank [OF ws1])
  then show ?thesis by simp
qed

lemma lstrip_blank_append:
  "lstrip a = [] \<Longrightarrow> lstrip (a @ b) = lstrip b"
proof (induction a rule: length_induct)
  case (1 a)
  show ?case
  proof (cases "a = []")
    case True
    then show ?thesis by simp
  next
    case False
    from blank_step [OF 1(2) False]
    have p: "0 < whitespace a" and b: "lstrip (drop (whitespace a) a) = []" .
    have w: "whitespace (a @ b) = whitespace a" using p by (rule whitespace_append)
    have "lstrip (a @ b) = lstrip (drop (whitespace a) (a @ b))"
      using lstrip_step [of "a @ b"] p w by simp
    also have "\<dots> = lstrip (drop (whitespace a) a @ b)"
      using whitespace_le [of a] by simp
    also have "\<dots> = lstrip b"
      using 1(1) b p False by simp
    finally show ?thesis .
  qed
qed

lemma blank_not_word:
  assumes "lstrip ws = []" and "ws \<noteq> []"
  shows "\<not> is_word (hd ws)"
proof -
  from assms obtain c cs where ws: "ws = c # cs" by (cases ws) auto
  from blank_step(1) [OF assms] ws have "0 < whitespace (c # cs)" by simp
  then have "is_space c \<or> 128 \<le> (of_char c :: nat)" by (rule whitespace_first)
  then have "\<not> is_word c" by (auto simp: is_space_def is_word_def)
  with ws show ?thesis by simp
qed

lemma lang_group_none:
  assumes "\<And>u s'. s = u @ s' \<Longrightarrow> list_all is_word u \<Longrightarrow> acc @ u \<noteq> [] \<Longrightarrow> header s' = None"
  shows "lang_group acc s = None"
  using assms
proof (induction s arbitrary: acc)
  case Nil
  then show ?case by (cases "acc = []") simp_all
next
  case (Cons c s)
  have a: "lang_group (acc @ [c]) s = None" if "is_word c"
  proof (rule Cons.IH)
    fix u s'
    assume "s = u @ s'" "list_all is_word u" "(acc @ [c]) @ u \<noteq> []"
    with that have "c # s = (c # u) @ s'" "list_all is_word (c # u)" "acc @ (c # u) \<noteq> []"
      by simp_all
    then show "header s' = None" by (rule Cons.prems)
  qed
  have b: "header (c # s) = None" if "acc \<noteq> []"
    using Cons.prems [of "[]" "c # s"] that by simp
  from a b show ?case by (simp del: header.simps)
qed

lemma lang_group_tag:
  assumes "header s = Some code" and "list_all is_word tag" and "acc @ tag \<noteq> []"
    and "\<And>u s'. s = u @ s' \<Longrightarrow> u \<noteq> [] \<Longrightarrow> list_all is_word u \<Longrightarrow> header s' = None"
  shows "lang_group acc (tag @ s) = Some (acc @ tag, code)"
  using assms(2,3)
proof (induction tag arbitrary: acc)
  case Nil
  then have acc: "acc \<noteq> []" by simp
  show ?case
  proof (cases s)
    case Nil
    with assms(1) acc show ?thesis by simp
  next
    case (Cons c cs)
    have "lang_group (acc @ [c]) cs = None" if w: "is_word c"
    proof (rule lang_group_none)
      fix u s'
      assume "cs = u @ s'" "list_all is_word u"
      with w Cons have "s = (c # u) @ s'" "c # u \<noteq> []" "list_all is_word (c # u)"
        by simp_all
      then show "header s' = None" by (rule assms(4))
    qed
    with assms(1) acc Cons show ?thesis by (simp del: header.simps)
  qed
next
  case (Cons c tag)
  then have "lang_group (acc @ [c]) (tag @ s) = Some ((acc @ [c]) @ tag, code)"
    by (intro Cons.IH) auto
  with Cons.prems show ?case by simp
qed


lemma open_fence_block:
  assumes "list_all is_word tag" and "header s = Some code"
    and "\<And>u s'. s = u @ s' \<Longrightarrow> u \<noteq> [] \<Longrightarrow> list_all is_word u \<Longrightarrow> header s' = None"
  shows "open_fence (tag @ s) = Some (if tag = [] then None else Some tag, code)"
proof (cases "tag = []")
  case True
  have "lang_group [] s = None"
  proof (rule lang_group_none)
    fix u s'
    assume "s = u @ s'" "list_all is_word u" "[] @ u \<noteq> []"
    then show "header s' = None" using assms(3) by simp
  qed
  with True assms(2) show ?thesis by (simp add: open_fence_def)
next
  case False
  with assms have "lang_group [] (tag @ s) = Some ([] @ tag, code)"
    by (intro lang_group_tag) auto
  with False show ?thesis by (simp add: open_fence_def)
qed

lemma no_restart_nonword:
  assumes "s = [] \<or> \<not> is_word (hd s)"
    and "s = u @ s'" and "u \<noteq> []" and "list_all is_word u"
  shows "header s' = None"
proof -
  from assms(2,3) have "s \<noteq> []" "hd s = hd u" by auto
  moreover from assms(3,4) have "is_word (hd u)" by (cases u) auto
  ultimately show ?thesis using assms(1) by simp
qed

lemma header_plain: "(of_char c :: nat) < 128 \<Longrightarrow> \<not> is_space c \<Longrightarrow>
    \<not> prefix (''title='' @ [CHR 0x22]) (c # cs) \<Longrightarrow> header (c # cs) = None"
proof -
  assume a: "(of_char c :: nat) < 128" "\<not> is_space c"
    and t: "\<not> prefix (''title='' @ [CHR 0x22]) (c # cs)"
  from a have w: "whitespace (c # cs) = 0" by (rule whitespace_ascii)
  then have "header (c # cs) = title_body (c # cs)" by (rule header_no_space)
  also have "\<dots> = body (c # cs)" using t by (intro title_body_no_title title_no_prefix)
  also have "\<dots> = None" using w by (rule body_no_space)
  finally show ?thesis .
qed

lemma no_restart_title:
  assumes "''title='' @ r = u @ s'" and "u \<noteq> []" and "list_all is_word u"
  shows "header s' = None"
proof -
  have nw: "\<not> is_word (CHR ''='')" by (simp add: is_word_def)
  from assms(2) obtain c1 u1 where u: "u = c1 # u1" by (cases u) auto
  with assms(1) have e1: "''itle='' @ r = u1 @ s'" by auto
  show ?thesis
  proof (cases u1)
    case Nil
    with e1 show ?thesis
      by (auto simp del: header.simps simp add: header_plain is_space_def)
  next
    case (Cons c2 u2)
    with e1 have e2: "''tle='' @ r = u2 @ s'" by auto
    show ?thesis
    proof (cases u2)
      case Nil
      with e2 show ?thesis
      by (auto simp del: header.simps simp add: header_plain is_space_def)
    next
      case (Cons c3 u3)
      with e2 have e3: "''le='' @ r = u3 @ s'" by auto
      show ?thesis
      proof (cases u3)
        case Nil
        with e3 show ?thesis
      by (auto simp del: header.simps simp add: header_plain is_space_def)
      next
        case (Cons c4 u4)
        with e3 have e4: "''e='' @ r = u4 @ s'" by auto
        show ?thesis
        proof (cases u4)
          case Nil
          with e4 show ?thesis
      by (auto simp del: header.simps simp add: header_plain is_space_def)
        next
          case (Cons c5 u5)
          with e4 have e5: "''='' @ r = u5 @ s'" by auto
          show ?thesis
          proof (cases u5)
            case Nil
            with e5 show ?thesis
      by (auto simp del: header.simps simp add: header_plain is_space_def)
          next
            case (Cons c6 u6)
            with e5 have "c6 = CHR ''=''" by auto
            with assms(3) u \<open>u1 = c2 # u2\<close> \<open>u2 = c3 # u3\<close> \<open>u3 = c4 # u4\<close>
              \<open>u4 = c5 # u5\<close> Cons nw
            show ?thesis by simp
          qed
        qed
      qed
    qed
  qed
qed

lemma re_search_fence: "open_fence s = Some m \<Longrightarrow> re_search (fence @ s) = Some m"
  by (simp add: fence_def)

lemma re_search_none: "\<not> sublist fence s \<Longrightarrow> re_search s = None"
proof (induction s)
  case Nil
  then show ?case by simp
next
  case (Cons c s)
  then have "\<not> prefix fence (c # s)" using prefix_imp_sublist by blast
  moreover from Cons.prems have "\<not> sublist fence s" by (metis sublist_Cons_right)
  ultimately show ?case using Cons.IH by simp
qed

lemma open_fence_line:
  assumes tag: "list_all is_word tag"
    and ws1: "lstrip ws1 = []" and ws2: "lstrip ws2 = []"
    and attr: "attr = [] \<and>
        \<not> (\<exists>q b r. rest @ fence @ post
              = ''title='' @ [CHR 0x22] @ q @ [CHR 0x22] @ b @ nl @ r
            \<and> CHR 0x22 \<notin> set q \<and> lstrip b = [] \<and> sublist fence r)
      \<or> attr = ''title='' @ [CHR 0x22] @ quoted @ [CHR 0x22] \<and> CHR 0x22 \<notin> set quoted"
    and lead: "lstrip lead = []" "CHR 0x0A \<notin> set lead"
    and rest: "lstrip rest = rest"
    and nofence: "\<not> sublist fence ((lead @ rest) @ ''``'')"
  shows "open_fence (tag @ ws1 @ attr @ ws2 @ nl @ (lead @ rest) @ fence @ post)
           = Some (if tag = [] then None else Some tag, lead @ rest)"
proof -
  let ?s = "ws1 @ attr @ ws2 @ nl @ (lead @ rest) @ fence @ post"
  have nlw: "\<not> is_word (CHR 0x0A)" by (simp add: is_word_def)
  from attr have h: "header ?s = Some (lead @ rest)"
  proof
    assume a: "attr = [] \<and>
        \<not> (\<exists>q b r. rest @ fence @ post
              = ''title='' @ [CHR 0x22] @ q @ [CHR 0x22] @ b @ nl @ r
            \<and> CHR 0x22 \<notin> set q \<and> lstrip b = [] \<and> sublist fence r)"
    have "lstrip (ws1 @ ws2) = []" using ws1 ws2 by (simp add: lstrip_blank_append)
    then have "header ((ws1 @ ws2) @ nl @ (lead @ rest) @ fence @ post) = Some (lead @ rest)"
      using lead rest a nofence by (intro header_kept) auto
    with a show ?thesis by simp
  next
    assume a: "attr = ''title='' @ [CHR 0x22] @ quoted @ [CHR 0x22] \<and> CHR 0x22 \<notin> set quoted"
    then have "header (ws1 @ (''title='' @ [CHR 0x22] @ quoted @ [CHR 0x22]) @ ws2 @ nl
                 @ (lead @ rest) @ fence @ post) = Some (lead @ rest)"
      using ws1 ws2 lead rest nofence by (intro header_attribute) auto
    with a show ?thesis by simp
  qed
  have r: "header s' = None" if "?s = u @ s'" "u \<noteq> []" "list_all is_word u" for u s'
  proof (cases "ws1 = []")
    case False
    then have "\<not> is_word (hd ?s)" using blank_not_word [OF ws1] by simp
    then show ?thesis using that by (intro no_restart_nonword [of ?s u s']) auto
  next
    case True
    from attr show ?thesis
    proof
      assume a: "attr = [] \<and>
        \<not> (\<exists>q b r. rest @ fence @ post
              = ''title='' @ [CHR 0x22] @ q @ [CHR 0x22] @ b @ nl @ r
            \<and> CHR 0x22 \<notin> set q \<and> lstrip b = [] \<and> sublist fence r)"
      have "\<not> is_word (hd ?s)"
      proof (cases "ws2 = []")
        case True
        with \<open>ws1 = []\<close> a nlw show ?thesis by (simp add: nl_def)
      next
        case False
        with \<open>ws1 = []\<close> a blank_not_word [OF ws2] show ?thesis by simp
      qed
      then show ?thesis using that by (intro no_restart_nonword [of ?s u s']) auto
    next
      assume a: "attr = ''title='' @ [CHR 0x22] @ quoted @ [CHR 0x22] \<and> CHR 0x22 \<notin> set quoted"
      with True that(1) have "''title='' @ ([CHR 0x22] @ quoted @ [CHR 0x22] @ ws2 @ nl
          @ (lead @ rest) @ fence @ post) = u @ s'" by simp
      then show ?thesis using that(2,3) by (rule no_restart_title)
    qed
  qed
  from tag h r show ?thesis by (rule open_fence_block)
qed

subsection \<open>Wrapping\<close>

lemma lstrip_fence: "lstrip (fence @ s) = fence @ s"
proof -
  have "whitespace (fence @ s) = 0"
    by (simp add: fence_def whitespace_ascii is_space_def)
  then show ?thesis by (rule lstrip_id)
qed

lemma wrap_fenced:
  "startswith (lstrip content) fence \<Longrightarrow> wrap_code_block content p l = content"
  by (simp add: wrap_code_block_def)

lemma wrap_unfenced:
  "\<not> startswith (lstrip content) fence \<Longrightarrow> \<exists>t. wrap_code_block content p l = fence @ t"
  by (simp add: wrap_code_block_def Let_def)

subsection \<open>Claims about extraction and wrapping\<close>

text \<open>
  Claim C4, at its own example. The table \<open>LANGUAGE_MAP\<close> is keyed by extension
  (\<^verbatim>\<open>.py\<close>) and \<open>wrap_code_block\<close> looks the language code (\<^verbatim>\<open>python\<close>) up in
  it, so the table misses and the tag is the file's extension: the snippet file
  \<^verbatim>\<open>example.py\<close> with content \<^verbatim>\<open>print("hi")\<close> and language code \<^verbatim>\<open>python\<close> is
  wrapped with the tag \<^verbatim>\<open>py\<close>, not \<^verbatim>\<open>python\<close>.
\<close>

theorem wrap_example_py_tag:
  \<open>wrap_code_block ''print("hi")'' (Path False [''example.py'']) ''python'' =
     ''```py'' @ nl @ ''print("hi")'' @ nl @ ''```'' @ nl\<close>
  by code_simp

text \<open>
  Claim C5 as stated fails. Extraction trims the block's inner text: blank lines
  after the opening fence line and all trailing whitespace are dropped; a first inner
  line of the form \<^verbatim>\<open>title="..."\<close> is taken for the fence's attribute and dropped; and
  a block whose language tag has a character outside \<^verbatim>\<open>\w\<close> (here \<^verbatim>\<open>c++\<close>) is not
  found at all.
\<close>

theorem extract_inner_text_counterexample:
  \<open>extract_code_block
      (''```python'' @ nl @ nl @ ''x = 1'' @ nl @ nl @ nl @ ''```'' @ nl)
      (Path False [''snippet.md''])
     = Inr (''```python'' @ nl @ ''x = 1'' @ nl @ ''```'' @ nl)
   \<and> extract_code_block
      (''```python'' @ nl @ nl @ ''x = 1'' @ nl @ nl @ nl @ ''```'' @ nl)
      (Path False [''snippet.md''])
     \<noteq> Inr (''```python'' @ nl @ (nl @ ''x = 1'' @ nl @ nl @ nl) @ ''```'' @ nl)
   \<and> extract_code_block
      (''```python'' @ nl @ ''title="a"'' @ nl @ ''x = 1'' @ nl @ ''```'' @ nl)
      (Path False [''snippet.md''])
     = Inr (''```python'' @ nl @ ''x = 1'' @ nl @ ''```'' @ nl)
   \<and> extract_code_block
      (''```c++'' @ nl @ ''int x;'' @ nl @ ''```'' @ nl)
      (Path False [''snippet.md''])
     = Inl ValueError\<close>
  by code_simp

text \<open>
  Claim C5, amended. Let a document consist of a text \<open>pre\<close> in which no fence
  marker starts; the fence marker; a tag of ASCII letters, digits and underscores
  (possibly none); whitespace \<open>ws1\<close> (possibly none); optionally an attribute
  \<^verbatim>\<open>title="..."\<close> with no quote inside; whitespace \<open>ws2\<close> (possibly none, blank lines
  included); a line feed; the kept text, which is whitespace \<open>lead\<close> without a line
  feed followed by a text \<open>rest\<close> that does not start with whitespace, and in which no
  fence marker starts; the closing fence marker; and any text \<open>post\<close>. When the
  fence has no attribute, the text from \<open>rest\<close> on must not itself read as one: it is
  not \<^verbatim>\<open>title="..."\<close> followed by whitespace, a line feed and a later fence marker.
  Then extraction returns the kept text with its trailing whitespace removed, between
  the line \<^verbatim>\<open>```tag\<close> (\<^verbatim>\<open>```text\<close> when there is no tag) and the line \<^verbatim>\<open>```\<close>.
  A document that has no fence marker followed by a line feed and a later fence
  marker makes extraction fail with \<open>ValueError\<close>.
\<close>

theorem extract_single_block:
  \<open>(list_all is_word tag \<and> lstrip ws1 = [] \<and> lstrip ws2 = [] \<and>
    (attr = [] \<and>
       \<not> (\<exists>q b r. rest @ fence @ post = ''title="'' @ q @ ''"'' @ b @ nl @ r
              \<and> CHR 0x22 \<notin> set q \<and> lstrip b = [] \<and> sublist fence r)
     \<or> attr = ''title="'' @ quoted @ ''"'' \<and> CHR 0x22 \<notin> set quoted) \<and>
    lstrip lead = [] \<and> CHR 0x0A \<notin> set lead \<and> lstrip rest = rest \<and>
    \<not> sublist fence (pre @ ''``'') \<and>
    \<not> sublist fence ((lead @ rest) @ ''``'') \<longrightarrow>
    extract_code_block
        (pre @ fence @ tag @ ws1 @ attr @ ws2 @ nl @ (lead @ rest) @ fence @ post) p =
      Inr (fence @ (if tag = [] then ''text'' else tag) @ nl
           @ rstrip (lead @ rest) @ nl @ fence @ nl)) \<and>
   (\<not> (\<exists>a b c d. doc = a @ fence @ b @ nl @ c @ fence @ d) \<longrightarrow>
    extract_code_block doc p = Inl ValueError)\<close>
proof (intro conjI impI)
  assume a: \<open>list_all is_word tag \<and> lstrip ws1 = [] \<and> lstrip ws2 = [] \<and>
    (attr = [] \<and>
       \<not> (\<exists>q b r. rest @ fence @ post = ''title="'' @ q @ ''"'' @ b @ nl @ r
              \<and> CHR 0x22 \<notin> set q \<and> lstrip b = [] \<and> sublist fence r)
     \<or> attr = ''title="'' @ quoted @ ''"'' \<and> CHR 0x22 \<notin> set quoted) \<and>
    lstrip lead = [] \<and> CHR 0x0A \<notin> set lead \<and> lstrip rest = rest \<and>
    \<not> sublist fence (pre @ ''``'') \<and>
    \<not> sublist fence ((lead @ rest) @ ''``'')\<close>
  let ?s = "tag @ ws1 @ attr @ ws2 @ nl @ (lead @ rest) @ fence @ post"
  from a have at: \<open>attr = [] \<and>
        \<not> (\<exists>q b r. rest @ fence @ post
              = ''title='' @ [CHR 0x22] @ q @ [CHR 0x22] @ b @ nl @ r
            \<and> CHR 0x22 \<notin> set q \<and> lstrip b = [] \<and> sublist fence r)
      \<or> attr = ''title='' @ [CHR 0x22] @ quoted @ [CHR 0x22] \<and> CHR 0x22 \<notin> set quoted\<close>
    by simp
  have "open_fence ?s = Some (if tag = [] then None else Some tag, lead @ rest)"
    using a at by (intro open_fence_line) blast+
  then have "re_search (fence @ ?s) = Some (if tag = [] then None else Some tag, lead @ rest)"
    by (rule re_search_fence)
  moreover have "re_search (pre @ fence @ ?s) = re_search (fence @ ?s)"
    using a by (intro re_search_skip) blast
  ultimately show "extract_code_block
        (pre @ fence @ tag @ ws1 @ attr @ ws2 @ nl @ (lead @ rest) @ fence @ post) p =
      Inr (fence @ (if tag = [] then ''text'' else tag) @ nl
           @ rstrip (lead @ rest) @ nl @ fence @ nl)"
    by (simp add: extract_code_block_def)
next
  assume a: "\<not> (\<exists>a b c d. doc = a @ fence @ b @ nl @ c @ fence @ d)"
  have "re_search doc = None"
  proof (cases "re_search doc")
    case None
    then show ?thesis .
  next
    case (Some m)
    then obtain g1 c where "re_search doc = Some (g1, c)" by (cases m) simp
    then have "\<exists>a b d. doc = a @ fence @ b @ nl @ c @ fence @ d" by (rule re_search_shape)
    with a show ?thesis by blast
  qed
  then show "extract_code_block doc p = Inl ValueError"
    by (simp add: extract_code_block_def)
qed

text \<open>
  The amended claim at a document whose fence line is \<^verbatim>\<open>```python\<close>, a no-break
  space, \<^verbatim>\<open>title="a.py"\<close> and a space, with an indented inner text that ends in a
  blank line; at a document with an untagged fence and a blank line before the text;
  and at a document with an opening fence that is never closed.
\<close>

theorem extract_single_block_witness:
  \<open>(list_all is_word ''python'' \<and> lstrip [CHR 0xC2, CHR 0xA0] = [] \<and> lstrip '' '' = [] \<and>
    ''title="a.py"'' = ''title="'' @ ''a.py'' @ ''"'' \<and> CHR 0x22 \<notin> set ''a.py'' \<and>
    lstrip ''  '' = [] \<and> CHR 0x0A \<notin> set ''  '' \<and>
    lstrip (''x = 1'' @ nl @ nl) = ''x = 1'' @ nl @ nl \<and>
    \<not> sublist fence ((''Intro'' @ nl) @ ''``'') \<and>
    \<not> sublist fence ((''  '' @ ''x = 1'' @ nl @ nl) @ ''``'')) \<and>
   extract_code_block
     ((''Intro'' @ nl) @ fence @ ''python'' @ [CHR 0xC2, CHR 0xA0] @ ''title="a.py"'' @ '' '' @ nl
        @ (''  '' @ ''x = 1'' @ nl @ nl) @ fence @ (nl @ ''tail''))
     (Path False [''snippet.md''])
     = Inr (fence @ ''python'' @ nl @ ''  x = 1'' @ nl @ fence @ nl) \<and>
   \<not> (\<exists>q b r. (''x = 1'' @ nl) @ fence @ [] = ''title="'' @ q @ ''"'' @ b @ nl @ r
          \<and> CHR 0x22 \<notin> set q \<and> lstrip b = [] \<and> sublist fence r) \<and>
   extract_code_block (fence @ nl @ nl @ (''x = 1'' @ nl) @ fence) (Path False [''snippet.md''])
     = Inr (fence @ ''text'' @ nl @ ''x = 1'' @ nl @ fence @ nl) \<and>
   \<not> (\<exists>a b c d. ''```python x = 1'' = a @ fence @ b @ nl @ c @ fence @ d) \<and>
   extract_code_block ''```python x = 1'' (Path False [''snippet.md'']) = Inl ValueError\<close>
proof -
  have b1: "lstrip [CHR 0xC2, CHR 0xA0] = []" "lstrip '' '' = []" "lstrip ''  '' = []"
    "lstrip (''x = 1'' @ nl @ nl) = ''x = 1'' @ nl @ nl"
    "lstrip [] = []" "lstrip nl = []" "lstrip (''x = 1'' @ nl) = ''x = 1'' @ nl"
    by code_simp+
  have s1: "\<not> sublist fence ((''Intro'' @ nl) @ ''``'')"
    "\<not> sublist fence ((''  '' @ ''x = 1'' @ nl @ nl) @ ''``'')"
    "\<not> sublist fence ([] @ ''``'')"
    "\<not> sublist fence (([] @ ''x = 1'' @ nl) @ ''``'')"
    by (simp_all add: fence_def nl_def sublist_Cons_right)
  have h1: \<open>list_all is_word ''python'' \<and> lstrip [CHR 0xC2, CHR 0xA0] = [] \<and> lstrip '' '' = [] \<and>
    (''title="a.py"'' = [] \<and>
       \<not> (\<exists>q b r. (''x = 1'' @ nl @ nl) @ fence @ (nl @ ''tail'')
                = ''title="'' @ q @ ''"'' @ b @ nl @ r
              \<and> CHR 0x22 \<notin> set q \<and> lstrip b = [] \<and> sublist fence r)
     \<or> ''title="a.py"'' = ''title="'' @ ''a.py'' @ ''"'' \<and> CHR 0x22 \<notin> set ''a.py'') \<and>
    lstrip ''  '' = [] \<and> CHR 0x0A \<notin> set ''  '' \<and>
    lstrip (''x = 1'' @ nl @ nl) = ''x = 1'' @ nl @ nl \<and>
    \<not> sublist fence ((''Intro'' @ nl) @ ''``'') \<and>
    \<not> sublist fence ((''  '' @ ''x = 1'' @ nl @ nl) @ ''``'')\<close>
    using b1 s1 by (simp add: is_word_def)
  have n2: \<open>\<not> (\<exists>q b r. (''x = 1'' @ nl) @ fence @ [] = ''title="'' @ q @ ''"'' @ b @ nl @ r
          \<and> CHR 0x22 \<notin> set q \<and> lstrip b = [] \<and> sublist fence r)\<close>
    by simp
  have h2: \<open>list_all is_word [] \<and> lstrip [] = [] \<and> lstrip nl = [] \<and>
    ([] = [] \<and>
       \<not> (\<exists>q b r. (''x = 1'' @ nl) @ fence @ [] = ''title="'' @ q @ ''"'' @ b @ nl @ r
              \<and> CHR 0x22 \<notin> set q \<and> lstrip b = [] \<and> sublist fence r)
     \<or> [] = ''title="'' @ [] @ ''"'' \<and> CHR 0x22 \<notin> set []) \<and>
    lstrip [] = [] \<and> CHR 0x0A \<notin> set [] \<and>
    lstrip (''x = 1'' @ nl) = ''x = 1'' @ nl \<and>
    \<not> sublist fence ([] @ ''``'') \<and>
    \<not> sublist fence (([] @ ''x = 1'' @ nl) @ ''``'')\<close>
    using b1 s1 n2 by simp
  have h3: "\<not> (\<exists>a b c d. ''```python x = 1'' = a @ fence @ b @ nl @ c @ fence @ d)"
  proof
    assume "\<exists>a b c d. ''```python x = 1'' = a @ fence @ b @ nl @ c @ fence @ d"
    then obtain a b c d where "''```python x = 1'' = a @ fence @ b @ nl @ c @ fence @ d"
      by blast
    then have "CHR 0x0A \<in> set ''```python x = 1''"
      by (simp add: nl_def)
    then show False by simp
  qed
  have r1: "rstrip (''  '' @ ''x = 1'' @ nl @ nl) = ''  x = 1''"
    "rstrip ([] @ ''x = 1'' @ nl) = ''x = 1''"
    by code_simp+
  note t1 = extract_single_block [where tag = "''python''" and ?ws1.0 = "[CHR 0xC2, CHR 0xA0]"
      and ?ws2.0 = "'' ''" and attr = "''title=\"a.py\"''" and quoted = "''a.py''"
      and lead = "''  ''" and rest = "''x = 1'' @ nl @ nl" and pre = "''Intro'' @ nl"
      and post = "nl @ ''tail''" and p = "Path False [''snippet.md'']"
      and doc = "''```python x = 1''", THEN conjunct1]
  note t2 = extract_single_block [where tag = "[]" and ?ws1.0 = "[]"
      and ?ws2.0 = nl and attr = "[]" and quoted = "[]"
      and lead = "[]" and rest = "''x = 1'' @ nl" and pre = "[]"
      and post = "[]" and p = "Path False [''snippet.md'']"
      and doc = "''```python x = 1''", THEN conjunct1]
  note t3 = extract_single_block [where doc = "''```python x = 1''"
      and p = "Path False [''snippet.md'']", THEN conjunct2]
  have f1: "extract_code_block
     ((''Intro'' @ nl) @ fence @ ''python'' @ [CHR 0xC2, CHR 0xA0] @ ''title=\"a.py\"'' @ '' '' @ nl
        @ (''  '' @ ''x = 1'' @ nl @ nl) @ fence @ (nl @ ''tail''))
     (Path False [''snippet.md''])
     = Inr (fence @ ''python'' @ nl @ ''  x = 1'' @ nl @ fence @ nl)"
    using mp [OF t1 h1] unfolding r1 by simp
  have f2: "extract_code_block (fence @ nl @ nl @ (''x = 1'' @ nl) @ fence)
      (Path False [''snippet.md''])
     = Inr (fence @ ''text'' @ nl @ ''x = 1'' @ nl @ fence @ nl)"
    using mp [OF t2 h2] unfolding r1 by simp
  have f3: "extract_code_block ''```python x = 1'' (Path False [''snippet.md'']) = Inl ValueError"
    by (rule mp [OF t3 h3])
  from h1 have g1: \<open>list_all is_word ''python'' \<and> lstrip [CHR 0xC2, CHR 0xA0] = [] \<and> lstrip '' '' = [] \<and>
    ''title="a.py"'' = ''title="'' @ ''a.py'' @ ''"'' \<and> CHR 0x22 \<notin> set ''a.py'' \<and>
    lstrip ''  '' = [] \<and> CHR 0x0A \<notin> set ''  '' \<and>
    lstrip (''x = 1'' @ nl @ nl) = ''x = 1'' @ nl @ nl \<and>
    \<not> sublist fence ((''Intro'' @ nl) @ ''``'') \<and>
    \<not> sublist fence ((''  '' @ ''x = 1'' @ nl @ nl) @ ''``'')\<close>
    by simp
  show ?thesis
    by (rule conjI [OF g1 conjI [OF f1 conjI [OF n2 conjI [OF f2 conjI [OF h3 f3]]]]])
qed

text \<open>
  Claim C9. When the content, after its leading whitespace, starts with the fence
  marker, \<open>wrap_code_block\<close> returns the content as it is; and wrapping the result
  of a wrap again, with any path and language code, returns that result.
\<close>

theorem wrap_fenced_noop_idempotent:
  "(startswith (lstrip content) fence \<longrightarrow> wrap_code_block content p l = content) \<and>
   wrap_code_block (wrap_code_block content p l) p' l' = wrap_code_block content p l"
proof (cases "startswith (lstrip content) fence")
  case True
  then show ?thesis by (simp add: wrap_fenced)
next
  case False
  then obtain t where t: "wrap_code_block content p l = fence @ t"
    using wrap_unfenced by blast
  have "startswith (lstrip (fence @ t)) fence"
    by (simp add: lstrip_fence startswith_def)
  then show ?thesis using False t by (simp add: wrap_fenced)
qed

text \<open>
  Claim C9 at an indented fenced snippet: the hypothesis holds and the snippet comes
  back unchanged, once and twice.
\<close>

theorem wrap_fenced_noop_idempotent_witness:
  "startswith (lstrip ('' '' @ nl @ ''```go'' @ nl @ ''x := 1'' @ nl @ ''```'' @ nl)) fence \<and>
   wrap_code_block ('' '' @ nl @ ''```go'' @ nl @ ''x := 1'' @ nl @ ''```'' @ nl)
     (Path False [''example.go'']) ''go''
     = '' '' @ nl @ ''```go'' @ nl @ ''x := 1'' @ nl @ ''```'' @ nl \<and>
   wrap_code_block
     (wrap_code_block ('' '' @ nl @ ''```go'' @ nl @ ''x := 1'' @ nl @ ''```'' @ nl)
        (Path False [''example.go'']) ''go'')
     (Path False [''example.go'']) ''go''
     = wrap_code_block ('' '' @ nl @ ''```go'' @ nl @ ''x := 1'' @ nl @ ''```'' @ nl)
        (Path False [''example.go'']) ''go''"
proof -
  have h: "startswith (lstrip ('' '' @ nl @ ''```go'' @ nl @ ''x := 1'' @ nl @ ''```'' @ nl)) fence"
    by code_simp
  from h wrap_fenced_noop_idempotent
      [of "'' '' @ nl @ ''```go'' @ nl @ ''x := 1'' @ nl @ ''```'' @ nl"
        "Path False [''example.go'']" "''go''" "Path False [''example.go'']" "''go''"]
  show ?thesis by blast
qed


section \<open>Properties of the performance table renderer\<close>

subsection \<open>Sequencing and the rows of a table\<close>

lemma and_then_Inr [simp]: "and_then (Inr x) f = f x"
  by (simp add: and_then_def)

lemma and_then_Inl [simp]: "and_then (Inl e) f = Inl e"
  by (simp add: and_then_def)

lemma add_rows_all:
  "\<forall>b\<in>set bs. row b = Inr (f b) \<Longrightarrow> add_rows row bs table = Inr (table @ concat (map f bs))"
  by (induction bs arbitrary: table) auto

lemma render_absent: "\<not> truthy perf_data \<Longrightarrow> render perf_data runtime = Inr []"
  by (simp add: render_def)

lemma render_no_key:
  "''benchmarks'' \<notin> set (map fst m) \<Longrightarrow> render (PDict m) runtime = Inr []"
  by (simp add: render_def)

lemma map_of_key: "map_of m k = Some v \<Longrightarrow> k \<in> set (map fst m)"
  by (metis map_of_eq_None_iff option.distinct(1) set_map)

lemma map_of_nonempty: "map_of m k = Some v \<Longrightarrow> m \<noteq> []"
  by auto


lemma getitem_dict: "getitem d k = Inr v \<Longrightarrow> \<exists>m. d = PDict m \<and> map_of m k = Some v"
  by (cases d) (auto split: option.splits)

lemma render_present:
  assumes "get perf_data ''platform'' (PStr ''Unknown'') = Inr platform"
    and "get perf_data ''function'' (PStr ''convert()'') = Inr function"
    and "get perf_data ''note'' (PStr []) = Inr note"
    and "getitem perf_data ''benchmarks'' = Inr benchmarks"
  shows "render perf_data runtime =
     (if \<not> truthy benchmarks
      then Inr (perf_header platform note function runtime @ nl @ ''(No benchmarks available)'' @ nl)
      else
        and_then (first_item benchmarks) (\<lambda>first_bench.
        and_then (contains first_bench ''latency'') (\<lambda>uses_latency.
        and_then (contains first_bench ''ops_sec'') (\<lambda>uses_ops_sec.
        and_then (if uses_latency then render_latency_table benchmarks
                  else if uses_ops_sec then render_ops_sec_table benchmarks
                  else Inr (nl @ ''(Unknown benchmark format)'' @ nl)) (\<lambda>table.
          Inr (perf_header platform note function runtime @ table))))))"
proof -
  from assms(4) obtain m where m: "perf_data = PDict m" "map_of m ''benchmarks'' = Some benchmarks"
    using getitem_dict by blast
  from m(2) have "''benchmarks'' \<in> set (map fst m)" "m \<noteq> []"
    by (auto dest: map_of_key)
  with assms show ?thesis
    unfolding render_def by (simp add: m(1) Let_def)
qed

lemma latency_row_ok:
  "getitem b ''name'' = Inr n \<Longrightarrow> getitem b ''size'' = Inr s \<Longrightarrow>
   getitem b ''latency'' = Inr l \<Longrightarrow> getitem b ''throughput'' = Inr t \<Longrightarrow>
   latency_row b = Inr (''| '' @ py_str n @ '' | '' @ py_str s @ '' | ''
            @ py_str l @ '' | '' @ py_str t @ '' |'' @ nl)"
  by (simp add: latency_row_def)

lemma ops_sec_row_ok:
  "getitem b ''name'' = Inr n \<Longrightarrow> getitem b ''size'' = Inr s \<Longrightarrow>
   getitem b ''ops_sec'' = Inr v \<Longrightarrow> int_value v = Some k \<Longrightarrow>
   ops_sec_row b = Inr (''| '' @ py_str n @ '' | '' @ py_str s @ '' | ''
            @ group_thousands k @ '' |'' @ nl)"
  by (simp add: ops_sec_row_def format_comma_def)

lemma contains_getitem: "getitem b k = Inr v \<Longrightarrow> contains b k = Inr True"
  by (cases b) (auto split: option.splits dest: map_of_key)

subsection \<open>Grouping digits by thousands\<close>

lemma digit_char: "d < 10 \<Longrightarrow> ''0123456789'' ! d \<noteq> CHR '',''"
proof -
  assume "d < 10"
  then have "d \<in> {0, 1, 2, 3, 4, 5, 6, 7, 8, 9}" by auto
  then show ?thesis by auto
qed

lemma digits_no_comma: "CHR '','' \<notin> set (digits n)"
proof (induction n rule: digits.induct)
  case (1 n)
  show ?case
  proof (cases "n < 10")
    case True
    then show ?thesis using digit_char [of n] by (subst digits.simps) simp
  next
    case False
    have "n mod 10 < 10" by simp
    then have "''0123456789'' ! (n mod 10) \<noteq> CHR '',''" by (rule digit_char)
    with False "1.IH" show ?thesis by (subst digits.simps) simp
  qed
qed

lemma commas_filter:
  "CHR '','' \<notin> set ds \<Longrightarrow> filter (\<lambda>c. c \<noteq> CHR '','') (commas ds) = ds"
  by (induction ds rule: commas.induct) auto

lemma short_positions:
  "length ds < 4 \<Longrightarrow> CHR '','' \<notin> set ds \<Longrightarrow> i < length ds \<Longrightarrow>
   (ds ! i = CHR '','') = (i mod 4 = 3)"
proof -
  assume a: "length ds < 4" "CHR '','' \<notin> set ds" "i < length ds"
  then have "ds ! i \<in> set ds" by simp
  with a(2) have "ds ! i \<noteq> CHR '',''" by metis
  moreover from a have "i mod 4 \<noteq> 3" by simp
  ultimately show ?thesis by simp
qed

lemma commas_short: "length ds < 4 \<Longrightarrow> commas ds = ds"
  by (cases ds rule: commas.cases) auto

lemma commas_positions:
  "CHR '','' \<notin> set ds \<Longrightarrow> i < length (commas ds) \<Longrightarrow>
   (commas ds ! i = CHR '','') = (i mod 4 = 3)"
proof (induction "length ds" arbitrary: ds i rule: less_induct)
  case less
  show ?case
  proof (cases "length ds < 4")
    case True
    with less.prems show ?thesis by (simp add: commas_short short_positions)
  next
    case False
    then obtain a b c d es where ds: "ds = a # b # c # d # es"
      by (cases ds rule: commas.cases) auto
    show ?thesis
    proof (cases "i < 4")
      case True
      then have "i \<in> {0, 1, 2, 3}" by auto
      with less.prems ds show ?thesis by auto
    next
      case False
      then obtain j where j: "i = j + 4" by (metis add.commute le_Suc_ex not_less)
      with less.prems ds have "j < length (commas (d # es))" by simp
      moreover from less.prems ds have "CHR '','' \<notin> set (d # es)" by simp
      moreover have "length (d # es) < length ds" by (simp add: ds)
      ultimately have "(commas (d # es) ! j = CHR '','') = (j mod 4 = 3)"
        using less.hyps by blast
      then show ?thesis by (simp add: j ds)
    qed
  qed
qed

lemma group_thousands_sign:
  "group_thousands k = (if k < 0 then ''-'' else []) @ group_thousands \<bar>k\<bar>"
  by (simp add: group_thousands_def)

lemma group_thousands_digits:
  "filter (\<lambda>c. c \<noteq> CHR '','') (group_thousands \<bar>k\<bar>) = digits (nat \<bar>k\<bar>)"
proof -
  have "CHR '','' \<notin> set (rev (digits (nat \<bar>k\<bar>)))" using digits_no_comma by simp
  then have "filter (\<lambda>c. c \<noteq> CHR '','') (commas (rev (digits (nat \<bar>k\<bar>)))) = rev (digits (nat \<bar>k\<bar>))"
    by (rule commas_filter)
  then have "filter (\<lambda>c. c \<noteq> CHR '','') (rev (commas (rev (digits (nat \<bar>k\<bar>))))) = rev (rev (digits (nat \<bar>k\<bar>)))"
    by (simp only: rev_filter [symmetric])
  then show ?thesis by (simp add: group_thousands_def)
qed

lemma group_thousands_positions:
  "i < length (group_thousands \<bar>k\<bar>) \<Longrightarrow>
   (rev (group_thousands \<bar>k\<bar>) ! i = CHR '','') = (i mod 4 = 3)"
proof -
  assume "i < length (group_thousands \<bar>k\<bar>)"
  then have "i < length (commas (rev (digits (nat \<bar>k\<bar>))))" by (simp add: group_thousands_def)
  moreover have "CHR '','' \<notin> set (rev (digits (nat \<bar>k\<bar>)))" using digits_no_comma by simp
  ultimately have "(commas (rev (digits (nat \<bar>k\<bar>))) ! i = CHR '','') = (i mod 4 = 3)"
    by (rule commas_positions[rotated])
  then show ?thesis by (simp add: group_thousands_def)
qed

subsection \<open>Claims about the renderer\<close>

text \<open>
  Claim C3 as stated fails for an empty benchmarks list: the data
  \<^verbatim>\<open>{"benchmarks": []}\<close> renders to the header line followed by the line
  \<^verbatim>\<open>(No benchmarks available)\<close>, not to the empty string.
\<close>

theorem render_empty_benchmarks_counterexample:
  "render (PDict [(''benchmarks'', PList [])]) ''Python'' =
     Inr (''Unknown '' @ bullet @ ''  '' @ bullet @ '' `convert()` (Python)'' @ nl @ nl
          @ nl @ ''(No benchmarks available)'' @ nl)
   \<and> render (PDict [(''benchmarks'', PList [])]) ''Python'' \<noteq> Inr []"
  by (simp add: render_def perf_header_def py_str_def)

text \<open>
  Claim C3, amended. The renderer returns the empty string, without raising, when
  the data is empty (or otherwise false as a condition) and when it is a mapping
  without the key \<^verbatim>\<open>benchmarks\<close>. When the key is there and holds an empty list,
  it returns, again without raising, the header line, an empty line and the
  placeholder line \<^verbatim>\<open>(No benchmarks available)\<close>.
\<close>

theorem render_without_benchmarks:
  "(\<not> truthy perf_data \<longrightarrow> render perf_data runtime = Inr []) \<and>
   (''benchmarks'' \<notin> set (map fst m) \<longrightarrow> render (PDict m) runtime = Inr []) \<and>
   (get perf_data ''platform'' (PStr ''Unknown'') = Inr platform \<and>
    get perf_data ''function'' (PStr ''convert()'') = Inr function \<and>
    get perf_data ''note'' (PStr []) = Inr note \<and>
    getitem perf_data ''benchmarks'' = Inr (PList []) \<longrightarrow>
    render perf_data runtime =
      Inr (perf_header platform note function runtime @ nl @ ''(No benchmarks available)'' @ nl))"
  by (auto simp: render_absent render_no_key render_present)

text \<open>The amended claim at the empty mapping, at a mapping with a platform only, and
  at a mapping with a platform and an empty benchmarks list.\<close>

theorem render_without_benchmarks_witness:
  "\<not> truthy (PDict []) \<and> render (PDict []) ''Python'' = Inr [] \<and>
   ''benchmarks'' \<notin> set (map fst [(''platform'', PStr ''M1'')]) \<and>
   render (PDict [(''platform'', PStr ''M1'')]) ''Python'' = Inr [] \<and>
   getitem (PDict [(''platform'', PStr ''M1''), (''benchmarks'', PList [])]) ''benchmarks''
     = Inr (PList []) \<and>
   render (PDict [(''platform'', PStr ''M1''), (''benchmarks'', PList [])]) ''Python'' =
     Inr (perf_header (PStr ''M1'') (PStr []) (PStr ''convert()'') ''Python''
          @ nl @ ''(No benchmarks available)'' @ nl)"
proof -
  have h1: "\<not> truthy (PDict [])" by simp
  have h2: "''benchmarks'' \<notin> set (map fst [(''platform'', PStr ''M1'')])" by simp
  let ?d = "PDict [(''platform'', PStr ''M1''), (''benchmarks'', PList [])]"
  have h3: "get ?d ''platform'' (PStr ''Unknown'') = Inr (PStr ''M1'') \<and>
    get ?d ''function'' (PStr ''convert()'') = Inr (PStr ''convert()'') \<and>
    get ?d ''note'' (PStr []) = Inr (PStr []) \<and>
    getitem ?d ''benchmarks'' = Inr (PList [])" by simp
  from h1 render_without_benchmarks [of "PDict []" "''Python''"]
  have r1: "render (PDict []) ''Python'' = Inr []" by blast
  from h2 render_without_benchmarks [of _ "''Python''" "[(''platform'', PStr ''M1'')]"]
  have r2: "render (PDict [(''platform'', PStr ''M1'')]) ''Python'' = Inr []" by blast
  from h3 render_without_benchmarks
    [of ?d "''Python''" _ "PStr ''M1''" "PStr ''convert()''" "PStr []"]
  have r3: "render ?d ''Python'' =
     Inr (perf_header (PStr ''M1'') (PStr []) (PStr ''convert()'') ''Python''
          @ nl @ ''(No benchmarks available)'' @ nl)" by blast
  from h1 h2 h3 r1 r2 r3 show ?thesis by blast
qed

text \<open>
  Claim C6 as stated fails: the renderer reads every field of every record without a
  default and formats \<^verbatim>\<open>ops_sec\<close> with the \<^verbatim>\<open>,\<close> option. A first record with
  \<^verbatim>\<open>latency\<close> but no name raises \<open>KeyError\<close>; so does a later record without
  \<^verbatim>\<open>latency\<close> in a collection whose first record has it; a first record with
  \<^verbatim>\<open>ops_sec\<close>, no \<^verbatim>\<open>throughput\<close> and a string for the value raises
  \<open>ValueError\<close>; and a first record with \<^verbatim>\<open>ops_sec\<close>, no \<^verbatim>\<open>throughput\<close> but a
  \<^verbatim>\<open>latency\<close> is taken for a latency record and raises \<open>KeyError\<close>.
\<close>

theorem render_incomplete_records_counterexample:
  "render (PDict [(''benchmarks'', PList [PDict [(''latency'', PStr ''2ms'')]])]) ''Python''
     = Inl (KeyError ''name'') \<and>
   render (PDict [(''benchmarks'', PList
       [PDict [(''name'', PStr ''Small''), (''size'', PStr ''1KB''),
               (''latency'', PStr ''2ms''), (''throughput'', PStr ''5MB/s'')],
        PDict [(''name'', PStr ''Large''), (''size'', PStr ''9MB''), (''ops_sec'', PInt 5)]])])
       ''Python''
     = Inl (KeyError ''latency'') \<and>
   render (PDict [(''benchmarks'', PList
       [PDict [(''name'', PStr ''Small''), (''size'', PStr ''1KB''),
               (''ops_sec'', PStr ''1200'')]])]) ''PHP''
     = Inl ValueError \<and>
   render (PDict [(''benchmarks'', PList
       [PDict [(''name'', PStr ''Small''), (''size'', PStr ''1KB''),
               (''latency'', PStr ''2ms''), (''ops_sec'', PInt 1200)]])]) ''PHP''
     = Inl (KeyError ''throughput'')"
  by (simp add: render_def render_latency_table_def render_ops_sec_table_def latency_row_def
      ops_sec_row_def and_then_def format_comma_def)

text \<open>
  Claim C6, amended. Let the data be a mapping whose \<^verbatim>\<open>benchmarks\<close> entry is a non-empty
  list, and let the header line be built from its platform, note and function (or
  their defaults). If every record has the fields name, size, latency and throughput,
  the result is the header line, the row \<^verbatim>\<open>| Document | Size | Latency | Throughput |\<close>,
  the separator row and one row per record. If the first record has neither
  \<^verbatim>\<open>latency\<close> nor \<^verbatim>\<open>throughput\<close> and every record has name, size and an integer
  \<^verbatim>\<open>ops_sec\<close> (a boolean counts as 1 or 0), the result is the header line, the row \<^verbatim>\<open>| Document | Size | Ops/sec |\<close>,
  the separator row and one row per record with the integer grouped by
  \<open>group_thousands\<close>. If the first record has neither \<^verbatim>\<open>latency\<close> nor
  \<^verbatim>\<open>ops_sec\<close>, the result is the header line and the placeholder line
  \<^verbatim>\<open>(Unknown benchmark format)\<close>; nothing is raised. The lemmas
  \<open>group_thousands_sign\<close>, \<open>group_thousands_digits\<close> and
  \<open>group_thousands_positions\<close> say what the grouping is: the sign, then the decimal
  digits with a comma exactly at every fourth place counted from the right.
\<close>

theorem render_table_shape:
  assumes "get perf_data ''platform'' (PStr ''Unknown'') = Inr platform"
    and "get perf_data ''function'' (PStr ''convert()'') = Inr function"
    and "get perf_data ''note'' (PStr []) = Inr note"
    and "getitem perf_data ''benchmarks'' = Inr (PList (first_bench # rest))"
  shows
    "((\<forall>b\<in>set (first_bench # rest).
         getitem b ''name'' = Inr (nm b) \<and> getitem b ''size'' = Inr (sz b) \<and>
         getitem b ''latency'' = Inr (lat b) \<and> getitem b ''throughput'' = Inr (thr b)) \<longrightarrow>
      render perf_data runtime =
        Inr (perf_header platform note function runtime
             @ ''| Document | Size | Latency | Throughput |'' @ nl
             @ ''| -------- | ---- | ------- | ---------- |'' @ nl
             @ concat (map (\<lambda>b. ''| '' @ py_str (nm b) @ '' | '' @ py_str (sz b) @ '' | ''
                                 @ py_str (lat b) @ '' | '' @ py_str (thr b) @ '' |'' @ nl)
                         (first_bench # rest)))) \<and>
     (contains first_bench ''latency'' = Inr False \<and>
      contains first_bench ''throughput'' = Inr False \<and>
      (\<forall>b\<in>set (first_bench # rest).
         getitem b ''name'' = Inr (nm b) \<and> getitem b ''size'' = Inr (sz b) \<and>
         getitem b ''ops_sec'' = Inr (ov b) \<and> int_value (ov b) = Some (ops b)) \<longrightarrow>
      render perf_data runtime =
        Inr (perf_header platform note function runtime
             @ ''| Document | Size | Ops/sec |'' @ nl
             @ ''| -------- | ---- | ------- |'' @ nl
             @ concat (map (\<lambda>b. ''| '' @ py_str (nm b) @ '' | '' @ py_str (sz b) @ '' | ''
                                 @ group_thousands (ops b) @ '' |'' @ nl)
                         (first_bench # rest)))) \<and>
     (contains first_bench ''latency'' = Inr False \<and>
      contains first_bench ''ops_sec'' = Inr False \<longrightarrow>
      render perf_data runtime =
        Inr (perf_header platform note function runtime
             @ nl @ ''(Unknown benchmark format)'' @ nl))"
proof (intro conjI impI)
  assume a: "\<forall>b\<in>set (first_bench # rest).
         getitem b ''name'' = Inr (nm b) \<and> getitem b ''size'' = Inr (sz b) \<and>
         getitem b ''latency'' = Inr (lat b) \<and> getitem b ''throughput'' = Inr (thr b)"
  let ?f = "\<lambda>b. ''| '' @ py_str (nm b) @ '' | '' @ py_str (sz b) @ '' | ''
                                 @ py_str (lat b) @ '' | '' @ py_str (thr b) @ '' |'' @ nl"
  from a have "\<forall>b\<in>set (first_bench # rest). latency_row b = Inr (?f b)"
    by (simp add: latency_row_ok)
  then have rows: "\<And>table. add_rows latency_row (first_bench # rest) table
       = Inr (table @ concat (map ?f (first_bench # rest)))"
    by (rule add_rows_all)
  from a have c: "contains first_bench ''latency'' = Inr True"
    by (auto intro: contains_getitem)
  obtain u where u: "contains first_bench ''ops_sec'' = Inr u"
    using a by (cases first_bench) auto
  show "render perf_data runtime =
        Inr (perf_header platform note function runtime
             @ ''| Document | Size | Latency | Throughput |'' @ nl
             @ ''| -------- | ---- | ------- | ---------- |'' @ nl
             @ concat (map ?f (first_bench # rest)))"
    unfolding render_present [OF assms] render_latency_table_def
    using c u rows by (simp del: add_rows.simps)
next
  assume a: "contains first_bench ''latency'' = Inr False \<and>
      contains first_bench ''throughput'' = Inr False \<and>
      (\<forall>b\<in>set (first_bench # rest).
         getitem b ''name'' = Inr (nm b) \<and> getitem b ''size'' = Inr (sz b) \<and>
         getitem b ''ops_sec'' = Inr (ov b) \<and> int_value (ov b) = Some (ops b))"
  let ?f = "\<lambda>b. ''| '' @ py_str (nm b) @ '' | '' @ py_str (sz b) @ '' | ''
                                 @ group_thousands (ops b) @ '' |'' @ nl"
  from a have "\<forall>b\<in>set (first_bench # rest). ops_sec_row b = Inr (?f b)"
    by (simp add: ops_sec_row_ok)
  then have rows: "\<And>table. add_rows ops_sec_row (first_bench # rest) table
       = Inr (table @ concat (map ?f (first_bench # rest)))"
    by (rule add_rows_all)
  from a have c: "contains first_bench ''ops_sec'' = Inr True"
    by (auto intro: contains_getitem)
  show "render perf_data runtime =
        Inr (perf_header platform note function runtime
             @ ''| Document | Size | Ops/sec |'' @ nl
             @ ''| -------- | ---- | ------- |'' @ nl
             @ concat (map ?f (first_bench # rest)))"
    unfolding render_present [OF assms] render_ops_sec_table_def
    using a c rows by (simp del: add_rows.simps)
next
  assume "contains first_bench ''latency'' = Inr False \<and>
      contains first_bench ''ops_sec'' = Inr False"
  then show "render perf_data runtime =
        Inr (perf_header platform note function runtime
             @ nl @ ''(Unknown benchmark format)'' @ nl)"
    unfolding render_present [OF assms] by simp
qed

text \<open>
  The amended claim at three collections: two latency records, two \<^verbatim>\<open>ops_sec\<close> records
  (1234567 is rendered as \<^verbatim>\<open>1,234,567\<close> and -999 as \<^verbatim>\<open>-999\<close>), and a record with
  neither field.
\<close>

theorem render_table_shape_witness:
  "render (PDict [(''platform'', PStr ''M1''), (''benchmarks'', PList
       [PDict [(''name'', PStr ''Small''), (''size'', PStr ''1KB''),
               (''latency'', PStr ''2ms''), (''throughput'', PStr ''5MB/s'')],
        PDict [(''name'', PStr ''Large''), (''size'', PInt 7),
               (''latency'', PStr ''9ms''), (''throughput'', PStr ''4MB/s'')]])]) ''Python''
     = Inr (''M1 '' @ bullet @ ''  '' @ bullet @ '' `convert()` (Python)'' @ nl @ nl
            @ ''| Document | Size | Latency | Throughput |'' @ nl
            @ ''| -------- | ---- | ------- | ---------- |'' @ nl
            @ ''| Small | 1KB | 2ms | 5MB/s |'' @ nl
            @ ''| Large | 7 | 9ms | 4MB/s |'' @ nl) \<and>
   render (PDict [(''note'', PStr ''n''), (''benchmarks'', PList
       [PDict [(''name'', PStr ''Small''), (''size'', PStr ''1KB''), (''ops_sec'', PInt 1234567)],
        PDict [(''name'', PStr ''Large''), (''size'', PStr ''9MB''), (''ops_sec'', PInt (- 999))]])])
       ''PHP''
     = Inr (''Unknown '' @ bullet @ '' n '' @ bullet @ '' `convert()` (PHP)'' @ nl @ nl
            @ ''| Document | Size | Ops/sec |'' @ nl
            @ ''| -------- | ---- | ------- |'' @ nl
            @ ''| Small | 1KB | 1,234,567 |'' @ nl
            @ ''| Large | 9MB | -999 |'' @ nl) \<and>
   render (PDict [(''benchmarks'', PList [PDict [(''name'', PStr ''Small'')]])]) ''Go''
     = Inr (''Unknown '' @ bullet @ ''  '' @ bullet @ '' `convert()` (Go)'' @ nl @ nl
            @ nl @ ''(Unknown benchmark format)'' @ nl)"
proof -
  let ?fld = "\<lambda>k b. (case getitem b k of Inr v \<Rightarrow> v | Inl e \<Rightarrow> PNone)"
  let ?ops = "\<lambda>b. (case int_value (?fld ''ops_sec'' b) of Some k \<Rightarrow> k | None \<Rightarrow> 0)"
  let ?l1 = "PDict [(''name'', PStr ''Small''), (''size'', PStr ''1KB''),
               (''latency'', PStr ''2ms''), (''throughput'', PStr ''5MB/s'')]"
  let ?l2 = "PDict [(''name'', PStr ''Large''), (''size'', PInt 7),
               (''latency'', PStr ''9ms''), (''throughput'', PStr ''4MB/s'')]"
  let ?o1 = "PDict [(''name'', PStr ''Small''), (''size'', PStr ''1KB''), (''ops_sec'', PInt 1234567)]"
  let ?o2 = "PDict [(''name'', PStr ''Large''), (''size'', PStr ''9MB''), (''ops_sec'', PInt (- 999))]"
  let ?u1 = "PDict [(''name'', PStr ''Small'')]"
  let ?d1 = "PDict [(''platform'', PStr ''M1''), (''benchmarks'', PList [?l1, ?l2])]"
  let ?d2 = "PDict [(''note'', PStr ''n''), (''benchmarks'', PList [?o1, ?o2])]"
  let ?d3 = "PDict [(''benchmarks'', PList [?u1])]"
  have g1: "render ?d1 ''Python'' = Inr (perf_header (PStr ''M1'') (PStr []) (PStr ''convert()'') ''Python''
             @ ''| Document | Size | Latency | Throughput |'' @ nl
             @ ''| -------- | ---- | ------- | ---------- |'' @ nl
             @ concat (map (\<lambda>b. ''| '' @ py_str (?fld ''name'' b) @ '' | '' @ py_str (?fld ''size'' b) @ '' | ''
                                 @ py_str (?fld ''latency'' b) @ '' | '' @ py_str (?fld ''throughput'' b) @ '' |'' @ nl)
                         [?l1, ?l2]))"
    using render_table_shape [of ?d1 "PStr ''M1''" "PStr ''convert()''" "PStr []" ?l1 "[?l2]"
        "?fld ''name''" "?fld ''size''" "?fld ''latency''" "?fld ''throughput''" "''Python''" "?fld ''ops_sec''" ?ops]
    by simp
  have g2: "render ?d2 ''PHP'' = Inr (perf_header (PStr ''Unknown'') (PStr ''n'') (PStr ''convert()'') ''PHP''
             @ ''| Document | Size | Ops/sec |'' @ nl
             @ ''| -------- | ---- | ------- |'' @ nl
             @ concat (map (\<lambda>b. ''| '' @ py_str (?fld ''name'' b) @ '' | '' @ py_str (?fld ''size'' b) @ '' | ''
                                 @ group_thousands (?ops b) @ '' |'' @ nl)
                         [?o1, ?o2]))"
    using render_table_shape [of ?d2 "PStr ''Unknown''" "PStr ''convert()''" "PStr ''n''" ?o1 "[?o2]"
        "?fld ''name''" "?fld ''size''" "?fld ''latency''" "?fld ''throughput''" "''PHP''" "?fld ''ops_sec''" ?ops]
    by simp
  have g3: "render ?d3 ''Go'' = Inr (perf_header (PStr ''Unknown'') (PStr []) (PStr ''convert()'') ''Go''
             @ nl @ ''(Unknown benchmark format)'' @ nl)"
    using render_table_shape [of ?d3 "PStr ''Unknown''" "PStr ''convert()''" "PStr []" ?u1 "[]"
        "?fld ''name''" "?fld ''size''" "?fld ''latency''" "?fld ''throughput''" "''Go''" "?fld ''ops_sec''" ?ops]
    by simp
  have n1: "group_thousands 1234567 = ''1,234,567''"
    by (simp add: group_thousands_def digits.simps)
  have n2: "group_thousands (- 999) = ''-999''"
    by (simp add: group_thousands_def digits.simps)
  have s7: "str_int 7 = ''7''"
    by (simp add: str_int_def digits.simps)
  show ?thesis
    unfolding g1 g2 g3
    by (simp add: perf_header_def py_str_def n1 n2 s7)
qed

section \<open>Properties of the README generator\<close>

subsection \<open>Output paths\<close>

text \<open>
  Claim C10. When the language configuration has an entry \<^verbatim>\<open>output_path\<close> (a
  string), the resolved path is the project root joined with it, whatever the language
  code, \<^verbatim>\<open>go\<close> included. Without that entry the language code \<^verbatim>\<open>go\<close> gives
  \<^verbatim>\<open>packages/go/v2/README.md\<close> and any other code \<^verbatim>\<open>packages/{code}/README.md\<close>.
\<close>

theorem resolve_output_path_precedence:
  "(map_of m ''output_path'' = Some (PStr s) \<longrightarrow>
      resolve_output_path g lang_code (PDict m) = Inr (joinpath (project_root g) s)) \<and>
   (''output_path'' \<notin> set (map fst m) \<longrightarrow>
      resolve_output_path g ''go'' (PDict m) =
        Inr (joinpath (joinpath (joinpath (packages_dir g) ''go'') ''v2'') ''README.md'')) \<and>
   (''output_path'' \<notin> set (map fst m) \<and> lang_code \<noteq> ''go'' \<longrightarrow>
      resolve_output_path g lang_code (PDict m) =
        Inr (joinpath (joinpath (packages_dir g) lang_code) ''README.md''))"
proof (intro conjI impI)
  assume a: "map_of m ''output_path'' = Some (PStr s)"
  then have "''output_path'' \<in> set (map fst m)" by (rule map_of_key)
  with a show "resolve_output_path g lang_code (PDict m) = Inr (joinpath (project_root g) s)"
    by (simp add: resolve_output_path_def)
next
  assume "''output_path'' \<notin> set (map fst m)"
  then show "resolve_output_path g ''go'' (PDict m) =
        Inr (joinpath (joinpath (joinpath (packages_dir g) ''go'') ''v2'') ''README.md'')"
    by (simp add: resolve_output_path_def)
next
  assume "''output_path'' \<notin> set (map fst m) \<and> lang_code \<noteq> ''go''"
  then show "resolve_output_path g lang_code (PDict m) =
        Inr (joinpath (joinpath (packages_dir g) lang_code) ''README.md'')"
    by (simp add: resolve_output_path_def)
qed

text \<open>Claim C10 at a \<^verbatim>\<open>go\<close> target with an override, a \<^verbatim>\<open>go\<close> target without one,
  and a \<^verbatim>\<open>python\<close> target without one.\<close>

theorem resolve_output_path_precedence_witness:
  "map_of [(''template'', PStr ''go.md.jinja''), (''output_path'', PStr ''docs/go/README.md'')]
     ''output_path'' = Some (PStr ''docs/go/README.md'') \<and>
   resolve_output_path (init (Path True [''repo'']) :: unit generator) ''go''
     (PDict [(''template'', PStr ''go.md.jinja''), (''output_path'', PStr ''docs/go/README.md'')])
     = Inr (Path True [''repo'', ''docs'', ''go'', ''README.md'']) \<and>
   ''output_path'' \<notin> set (map fst [(''template'', PStr ''x.md.jinja'')]) \<and>
   resolve_output_path (init (Path True [''repo'']) :: unit generator) ''go''
     (PDict [(''template'', PStr ''x.md.jinja'')])
     = Inr (Path True [''repo'', ''packages'', ''go'', ''v2'', ''README.md'']) \<and>
   ''python'' \<noteq> ''go'' \<and>
   resolve_output_path (init (Path True [''repo'']) :: unit generator) ''python''
     (PDict [(''template'', PStr ''x.md.jinja'')])
     = Inr (Path True [''repo'', ''packages'', ''python'', ''README.md''])"
proof -
  let ?g = "init (Path True [''repo'']) :: unit generator"
  have j: "joinpath (project_root ?g) ''docs/go/README.md'' = Path True [''repo'', ''docs'', ''go'', ''README.md'']"
    "joinpath (joinpath (joinpath (packages_dir ?g) ''go'') ''v2'') ''README.md''
       = Path True [''repo'', ''packages'', ''go'', ''v2'', ''README.md'']"
    "joinpath (joinpath (packages_dir ?g) ''python'') ''README.md''
       = Path True [''repo'', ''packages'', ''python'', ''README.md'']"
    by (simp_all add: init_def packages_dir_def joinpath_def parse_path_def startswith_def)
  from resolve_output_path_precedence
    [of "[(''template'', PStr ''go.md.jinja''), (''output_path'', PStr ''docs/go/README.md'')]"
      "''docs/go/README.md''" ?g "''go''"]
    resolve_output_path_precedence [of "[(''template'', PStr ''x.md.jinja'')]" _ ?g "''python''"]
  show ?thesis unfolding j by simp
qed

subsection \<open>What a run leaves in the log and on the disk\<close>

lemma files_emit [simp]: "files (emit e w) = files w"
  by (simp add: emit_def)

lemma logged_emit [simp]: "logged (emit e w) = logged w @ [e]"
  by (simp add: emit_def)

lemma map_filter_none:
  "\<forall>e\<in>set evs. f e = None \<Longrightarrow> List.map_filter f evs = []"
  by (induction evs) (auto simp: List.map_filter_simps)

lemma map_filter_app:
  "List.map_filter f (xs @ ys) = List.map_filter f xs @ List.map_filter f ys"
  by (simp add: List.map_filter_def)

lemma inject_files: "inject_migration_guide g l v w = (s, w') \<Longrightarrow> files w' = files w"
  by (auto simp: inject_migration_guide_def split: if_splits sum.splits)

lemma inject_logged:
  "inject_migration_guide g l v w = (s, w') \<Longrightarrow>
   \<exists>evs. logged w' = logged w @ evs \<and>
     (\<forall>e\<in>set evs. generate_outcome e = None \<and> validate_outcome e = None)"
  by (auto simp: inject_migration_guide_def split: if_splits sum.splits)

lemma prepare_files: "prepare_template_context g l c w = (r, w') \<Longrightarrow> files w' = files w"
  by (auto simp: prepare_template_context_def split: sum.splits prod.splits dest: inject_files)

lemma prepare_logged:
  "prepare_template_context g l c w = (r, w') \<Longrightarrow>
   \<exists>evs. logged w' = logged w @ evs \<and>
     (\<forall>e\<in>set evs. generate_outcome e = None \<and> validate_outcome e = None)"
  by (auto simp: prepare_template_context_def split: sum.splits prod.splits dest: inject_logged)

lemma generate_dry_files:
  "generate_readme g l c p True w = (r, w') \<Longrightarrow> files w' = files w"
  by (auto simp: generate_readme_def Let_def
      split: sum.splits option.splits prod.splits dest: prepare_files)

lemma generate_logged:
  "generate_readme g l c p d w = (r, w') \<Longrightarrow>
   \<exists>evs. logged w' = logged w @ evs \<and>
     (\<forall>e\<in>set evs. validate_outcome e = None) \<and>
     List.map_filter generate_outcome evs = (case r of Inr s \<Rightarrow> [True] | Inl e \<Rightarrow> [])"
proof -
  assume a: "generate_readme g l c p d w = (r, w')"
  show ?thesis
  proof (cases "\<exists>ctx w1. prepare_template_context g l c w = (ctx, w1) \<and>
      (w' = w1 \<or> (\<exists>fs1. w' = w1\<lparr>files := fs1\<rparr>)) \<and> (\<exists>e. r = Inl e)")
    case True
    then obtain ctx w1 e where p: "prepare_template_context g l c w = (ctx, w1)"
      and w: "logged w' = logged w1" and r: "r = Inl e" by auto
    from prepare_logged [OF p] w r show ?thesis by (auto simp: map_filter_none)
  next
    case False
    with a consider "w' = w" "\<exists>e. r = Inl e"
      | ctx w1 content where "prepare_template_context g l c w = (Inr ctx, w1)"
          "r = Inr content" "logged w' = logged w1 @ [Info_DryRun p] \<or> logged w' = logged w1 @ [Info_Generated p]"
      by (auto simp: generate_readme_def Let_def
          split: sum.splits option.splits prod.splits if_splits pyval.splits)
    then show ?thesis
    proof cases
      case 1
      then show ?thesis by (auto simp: List.map_filter_simps)
    next
      case 2
      from prepare_logged [OF 2(1)] obtain evs where
        "logged w1 = logged w @ evs"
        "\<forall>e\<in>set evs. generate_outcome e = None \<and> validate_outcome e = None" by blast
      moreover from this have "List.map_filter generate_outcome evs = []"
        by (simp add: map_filter_none)
      ultimately show ?thesis using 2(2,3)
        by (auto simp: List.map_filter_simps map_filter_app)
    qed
  qed
qed


lemma validate_files:
  "validate_readme g l c p w = (ok, w') \<Longrightarrow> files w' = files w"
  by (auto simp: validate_readme_def split: if_splits sum.splits prod.splits
      dest: generate_dry_files)

lemma validate_logged:
  "validate_readme g l c p w = (ok, w') \<Longrightarrow>
   \<exists>evs. logged w' = logged w @ evs \<and> List.map_filter validate_outcome evs = [(p, ok)]"
proof -
  assume a: "validate_readme g l c p w = (ok, w')"
  show ?thesis
  proof (cases "path_exists (files w) p")
    case False
    with a show ?thesis by (auto simp: validate_readme_def List.map_filter_simps)
  next
    case True
    obtain r w1 where g: "generate_readme g l c p True w = (r, w1)"
      by (cases "generate_readme g l c p True w") auto
    from generate_logged [OF g] obtain evs where evs: "logged w1 = logged w @ evs"
      "\<forall>e\<in>set evs. validate_outcome e = None" by blast
    then have n: "List.map_filter validate_outcome evs = []" by (simp add: map_filter_none)
    from a True g obtain v where "logged w' = logged w1 @ [v]" "validate_outcome v = Some (p, ok)"
      by (auto simp: validate_readme_def split: sum.splits if_splits)
    with evs n have "logged w' = logged w @ (evs @ [v])"
      "List.map_filter validate_outcome (evs @ [v]) = [(p, ok)]"
      by (simp_all add: map_filter_app List.map_filter_simps)
    then show ?thesis by blast
  qed
qed

lemma validate_missing:
  "\<not> path_exists (files w) p \<Longrightarrow> fst (validate_readme g l c p w) = False"
  by (simp add: validate_readme_def)

lemma validate_mismatch:
  "generate_readme g l c p True w = (Inr generated, w1) \<Longrightarrow>
   read_text (files w1) p = Inr existing \<Longrightarrow> generated \<noteq> existing \<Longrightarrow>
   fst (validate_readme g l c p w) = False"
  by (simp add: validate_readme_def)

lemma process_validate:
  assumes "\<forall>item\<in>set targets. resolve_output_path g (fst item) (snd item) = Inr (rp item)"
    and "process_languages g d True targets all_ok w = (r, w2)"
  shows "files w2 = files w \<and>
    (\<exists>evs. logged w2 = logged w @ evs \<and>
       map fst (List.map_filter validate_outcome evs) = map rp targets \<and>
       r = Inr (all_ok \<and> list_all snd (List.map_filter validate_outcome evs)))"
  using assms
proof (induction targets arbitrary: all_ok w)
  case Nil
  then show ?case by (auto simp: List.map_filter_simps)
next
  case (Cons item rest)
  from Cons.prems(1) have rp: "resolve_output_path g (fst item) (snd item) = Inr (rp item)"
    by simp
  obtain ok w1 where v: "validate_readme g (fst item) (snd item) (rp item) w = (ok, w1)"
    by (cases "validate_readme g (fst item) (snd item) (rp item) w") auto
  from Cons.prems(2) rp v
  have rest: "process_languages g d True rest (all_ok \<and> ok) w1 = (r, w2)" by simp
  from Cons.prems(1) have "\<forall>i\<in>set rest. resolve_output_path g (fst i) (snd i) = Inr (rp i)"
    by simp
  from Cons.IH [OF this rest] obtain evs2 where
    f2: "files w2 = files w1" and l2: "logged w2 = logged w1 @ evs2"
    and m2: "map fst (List.map_filter validate_outcome evs2) = map rp rest"
    and r2: "r = Inr ((all_ok \<and> ok) \<and> list_all snd (List.map_filter validate_outcome evs2))"
    by blast
  from validate_logged [OF v] obtain evs1 where
    l1: "logged w1 = logged w @ evs1"
    and m1: "List.map_filter validate_outcome evs1 = [(rp item, ok)]" by blast
  have "logged w2 = logged w @ (evs1 @ evs2)" using l1 l2 by simp
  moreover have "map fst (List.map_filter validate_outcome (evs1 @ evs2)) = map rp (item # rest)"
    using m1 m2 by (simp add: map_filter_app)
  moreover have "r = Inr (all_ok \<and> list_all snd (List.map_filter validate_outcome (evs1 @ evs2)))"
    using r2 m1 by (simp add: map_filter_app)
  moreover have "files w2 = files w" using f2 validate_files [OF v] by simp
  ultimately show ?case by blast
qed

lemma process_generate:
  assumes "\<forall>item\<in>set targets. resolve_output_path g (fst item) (snd item) = Inr (rp item)"
    and "process_languages g d False targets all_ok w = (r, w2)"
  shows "\<exists>evs. logged w2 = logged w @ evs \<and>
       length (List.map_filter generate_outcome evs) = length targets \<and>
       r = Inr (all_ok \<and> list_all (\<lambda>ok. ok) (List.map_filter generate_outcome evs))"
  using assms
proof (induction targets arbitrary: all_ok w)
  case Nil
  then show ?case by (auto simp: List.map_filter_simps)
next
  case (Cons item rest)
  from Cons.prems(1) have rp: "resolve_output_path g (fst item) (snd item) = Inr (rp item)"
    by simp
  obtain res w1 where gen: "generate_readme g (fst item) (snd item) (rp item) d w = (res, w1)"
    by (cases "generate_readme g (fst item) (snd item) (rp item) d w") auto
  from generate_logged [OF gen] obtain evs1 where
    l1: "logged w1 = logged w @ evs1"
    and m1: "List.map_filter generate_outcome evs1 = (case res of Inr s \<Rightarrow> [True] | Inl e \<Rightarrow> [])"
    by blast
  from Cons.prems(1) have wf: "\<forall>i\<in>set rest. resolve_output_path g (fst i) (snd i) = Inr (rp i)"
    by simp
  show ?case
  proof (cases res)
    case (Inl e)
    with Cons.prems(2) rp gen
    have rest: "process_languages g d False rest False (emit (Error_Failed (fst item) e) w1) = (r, w2)"
      by simp
    from Cons.IH [OF wf rest] obtain evs2 where
      l2: "logged w2 = logged (emit (Error_Failed (fst item) e) w1) @ evs2"
      and n2: "length (List.map_filter generate_outcome evs2) = length rest"
      and r2: "r = Inr (False \<and> list_all (\<lambda>ok. ok) (List.map_filter generate_outcome evs2))"
      by blast
    let ?evs = "evs1 @ [Error_Failed (fst item) e] @ evs2"
    have "logged w2 = logged w @ ?evs" using l1 l2 by simp
    moreover have "List.map_filter generate_outcome ?evs
        = False # List.map_filter generate_outcome evs2"
      using m1 Inl by (simp add: map_filter_app List.map_filter_simps)
    ultimately show ?thesis using n2 r2 by (intro exI [of _ ?evs]) simp
  next
    case (Inr content)
    with Cons.prems(2) rp gen
    have rest: "process_languages g d False rest all_ok w1 = (r, w2)" by simp
    from Cons.IH [OF wf rest] obtain evs2 where
      l2: "logged w2 = logged w1 @ evs2"
      and n2: "length (List.map_filter generate_outcome evs2) = length rest"
      and r2: "r = Inr (all_ok \<and> list_all (\<lambda>ok. ok) (List.map_filter generate_outcome evs2))"
      by blast
    let ?evs = "evs1 @ evs2"
    have "logged w2 = logged w @ ?evs" using l1 l2 by simp
    moreover have "List.map_filter generate_outcome ?evs
        = True # List.map_filter generate_outcome evs2"
      using m1 Inr by (simp add: map_filter_app)
    ultimately show ?thesis using n2 r2 by (intro exI [of _ ?evs]) simp
  qed
qed

lemma process_generate_caught:
  "resolve_output_path g (fst item) (snd item) = Inr q \<Longrightarrow>
   generate_readme g (fst item) (snd item) q d w = (Inl e, w1) \<Longrightarrow>
   process_languages g d False (item # rest) all_ok w =
     process_languages g d False rest False (emit (Error_Failed (fst item) e) w1)"
  by simp

lemma process_all_unfiltered:
  "truthy (config g) \<Longrightarrow> get (config g) ''languages'' (PDict []) = Inr (PDict targets) \<Longrightarrow>
   process_all_languages g None d v w = process_languages g d v targets True w"
  by (simp add: process_all_languages_def)

lemma generate_template_not_found:
  "jinja_env g = Some env \<Longrightarrow>
   get c ''template'' (PStr (l @ ''.md.jinja'')) = Inr (PStr n) \<Longrightarrow>
   get_template env (files w) n = Inl (TemplateNotFound m) \<Longrightarrow>
   generate_readme g l c p d w = (Inl (TemplateNotFound n), w)"
  by (simp add: generate_readme_def)

lemma generate_render_error:
  "jinja_env g = Some env \<Longrightarrow>
   get c ''template'' (PStr (l @ ''.md.jinja'')) = Inr (PStr n) \<Longrightarrow>
   get_template env (files w) n = Inr t \<Longrightarrow>
   prepare_template_context g l c w = (Inr context, w1) \<Longrightarrow>
   render_template env t (files w1) context = Inl e \<Longrightarrow>
   generate_readme g l c p d w = (Inl (RenderFailed n), w1)"
  by (simp add: generate_readme_def)

lemma generate_targets_stop:
  "getitem (snd item) ''template'' = Inr (PStr t) \<Longrightarrow>
   getitem (snd item) ''output_file'' = Inr (PStr out) \<Longrightarrow>
   generate_code env (name (parse_path t)) (joinpath root out) context fs = (Inl e, fs1) \<Longrightarrow>
   generate_targets env root context (item # rest) generated fs = (SystemExit 1, generated, fs1)"
  by (simp add: as_str_def)

lemma pair_of_fst: "fst x = a \<Longrightarrow> x = (a, snd x)"
  by (cases x) simp

subsection \<open>Errors of one target\<close>

text \<open>
  Claim C1 as stated fails for the visitor-callback generator: the handler around
  \<open>generate_code\<close> calls \<^verbatim>\<open>sys.exit(1)\<close>. With two targets of which the first
  names a missing template, the run ends with status 1 after the first: nothing is
  recorded in \<^verbatim>\<open>generated_files\<close> and the output of the second target, which would
  generate without error, is never written.
\<close>

theorem visitor_stops_at_first_error_counterexample:
  "fst (visitor_main (fixed_parser (Inr visitor_schema)) (fixed_environment visitor_templates)
          (Path True [''repo'']) visitor_files) = SystemExit 1 \<and>
   fst (snd (visitor_main (fixed_parser (Inr visitor_schema)) (fixed_environment visitor_templates)
          (Path True [''repo'']) visitor_files)) = [] \<and>
   lookup (snd (snd (visitor_main (fixed_parser (Inr visitor_schema))
          (fixed_environment visitor_templates) (Path True [''repo'']) visitor_files)))
       (Path True [''repo'', ''out'', ''visitor.go'']) = None \<and>
   fst (generate_code (table_env visitor_templates) ''go.j2''
          (Path True [''repo'', ''out'', ''visitor.go'']) [] visitor_files) = Inr ()"
  by code_simp

text \<open>
  Claim C1, amended. In the README generator a template that is not found and a
  rendering that raises surface as exceptions of \<open>generate_readme\<close>; in generate
  mode the loop catches the exception of a target, logs it against that target and goes
  on with the remaining targets from the state the failed target left, with the result
  set to false; over targets whose output path resolves, the run never raises, leaves
  one outcome per target in the log, and its result is the conjunction of these
  outcomes (and of the flag it started with). In the visitor-callback generator the
  first target whose generation raises ends the run with exit status 1; the remaining
  targets are not processed. Without a language filter \<open>process_all_languages\<close> is
  the loop \<open>process_languages\<close> over the items of \<^verbatim>\<open>languages\<close>, started with the
  result true.
\<close>

theorem target_errors_are_caught:
  "(jinja_env g = Some env \<and>
    get c ''template'' (PStr (l @ ''.md.jinja'')) = Inr (PStr n) \<and>
    get_template env (files w) n = Inl (TemplateNotFound m) \<longrightarrow>
      generate_readme g l c p d w = (Inl (TemplateNotFound n), w)) \<and>
   (jinja_env g = Some env \<and>
    get c ''template'' (PStr (l @ ''.md.jinja'')) = Inr (PStr n) \<and>
    get_template env (files w) n = Inr t \<and>
    prepare_template_context g l c w = (Inr ctxt, w1) \<and>
    render_template env t (files w1) ctxt = Inl e \<longrightarrow>
      generate_readme g l c p d w = (Inl (RenderFailed n), w1)) \<and>
   (resolve_output_path g (fst item) (snd item) = Inr q \<and>
    generate_readme g (fst item) (snd item) q d w = (Inl e', w') \<longrightarrow>
      process_languages g d False (item # rest) all_ok w =
        process_languages g d False rest False (emit (Error_Failed (fst item) e') w')) \<and>
   ((\<forall>item\<in>set targets. resolve_output_path g (fst item) (snd item) = Inr (rp item)) \<and>
    process_languages g d False targets all_ok w = (r, w2) \<longrightarrow>
      (\<exists>evs. logged w2 = logged w @ evs \<and>
         length (List.map_filter generate_outcome evs) = length targets \<and>
         r = Inr (all_ok \<and> list_all (\<lambda>ok. ok) (List.map_filter generate_outcome evs)))) \<and>
   (getitem (snd vitem) ''template'' = Inr (PStr vt) \<and>
    getitem (snd vitem) ''output_file'' = Inr (PStr out) \<and>
    generate_code venv (name (parse_path vt)) (joinpath root out) vcontext fs = (Inl ve, fs1) \<longrightarrow>
      generate_targets venv root vcontext (vitem # vrest) generated fs
        = (SystemExit 1, generated, fs1)) \<and>
   (truthy (config g) \<and> get (config g) ''languages'' (PDict []) = Inr (PDict targets) \<longrightarrow>
      process_all_languages g None d False w = process_languages g d False targets True w)"
proof -
  have c1: "jinja_env g = Some env \<and>
    get c ''template'' (PStr (l @ ''.md.jinja'')) = Inr (PStr n) \<and>
    get_template env (files w) n = Inl (TemplateNotFound m) \<longrightarrow>
      generate_readme g l c p d w = (Inl (TemplateNotFound n), w)"
    using generate_template_not_found by blast
  have c2: "jinja_env g = Some env \<and>
    get c ''template'' (PStr (l @ ''.md.jinja'')) = Inr (PStr n) \<and>
    get_template env (files w) n = Inr t \<and>
    prepare_template_context g l c w = (Inr ctxt, w1) \<and>
    render_template env t (files w1) ctxt = Inl e \<longrightarrow>
      generate_readme g l c p d w = (Inl (RenderFailed n), w1)"
    by (intro impI, elim conjE) (rule generate_render_error)
  have c3: "resolve_output_path g (fst item) (snd item) = Inr q \<and>
    generate_readme g (fst item) (snd item) q d w = (Inl e', w') \<longrightarrow>
      process_languages g d False (item # rest) all_ok w =
        process_languages g d False rest False (emit (Error_Failed (fst item) e') w')"
    using process_generate_caught by blast
  have c4: "(\<forall>item\<in>set targets. resolve_output_path g (fst item) (snd item) = Inr (rp item)) \<and>
    process_languages g d False targets all_ok w = (r, w2) \<longrightarrow>
      (\<exists>evs. logged w2 = logged w @ evs \<and>
         length (List.map_filter generate_outcome evs) = length targets \<and>
         r = Inr (all_ok \<and> list_all (\<lambda>ok. ok) (List.map_filter generate_outcome evs)))"
  proof
    assume "(\<forall>item\<in>set targets. resolve_output_path g (fst item) (snd item) = Inr (rp item)) \<and>
      process_languages g d False targets all_ok w = (r, w2)"
    then have "\<forall>item\<in>set targets. resolve_output_path g (fst item) (snd item) = Inr (rp item)"
      and "process_languages g d False targets all_ok w = (r, w2)" by simp_all
    then show "\<exists>evs. logged w2 = logged w @ evs \<and>
         length (List.map_filter generate_outcome evs) = length targets \<and>
         r = Inr (all_ok \<and> list_all (\<lambda>ok. ok) (List.map_filter generate_outcome evs))"
      by (rule process_generate)
  qed
  have c5: "getitem (snd vitem) ''template'' = Inr (PStr vt) \<and>
    getitem (snd vitem) ''output_file'' = Inr (PStr out) \<and>
    generate_code venv (name (parse_path vt)) (joinpath root out) vcontext fs = (Inl ve, fs1) \<longrightarrow>
      generate_targets venv root vcontext (vitem # vrest) generated fs
        = (SystemExit 1, generated, fs1)"
    using generate_targets_stop by blast
  have c6: "truthy (config g) \<and> get (config g) ''languages'' (PDict []) = Inr (PDict targets) \<longrightarrow>
      process_all_languages g None d False w = process_languages g d False targets True w"
    by (simp add: process_all_unfiltered)
  show ?thesis
    by (rule conjI [OF c1 conjI [OF c2 conjI [OF c3 conjI [OF c4 conjI [OF c5 c6]]]]])
qed

text \<open>
  Claim C1 (amended) at the README project with a broken and a valid target: the
  broken one fails with \<open>TemplateNotFound\<close>, the valid one is still written, and
  the run reports false; at a README target whose template raises when rendered; and
  at the visitor project, where the first target stops the run.
\<close>

theorem target_errors_are_caught_witness:
  "fst (generate_readme two_generator ''broken'' (PDict [(''template'', PStr ''missing.md.jinja'')])
          (Path True [''repo'', ''packages'', ''broken'', ''README.md'']) False empty_world)
     = Inl (TemplateNotFound ''missing.md.jinja'') \<and>
   fst (generate_readme raising_generator ''ruby'' (PDict [])
          (Path True [''repo'', ''packages'', ''ruby'', ''README.md'']) False empty_world)
     = Inl (RenderFailed ''ruby.md.jinja'') \<and>
   process_languages two_generator False False two_languages True empty_world
     = process_languages two_generator False False
         [(''python'', PDict [(''tagline'', PStr ''fast'')])] False
         (emit (Error_Failed ''broken'' (TemplateNotFound ''missing.md.jinja'')) empty_world) \<and>
   fst (process_all_languages two_generator None False False empty_world) = Inr False \<and>
   logged (snd (process_all_languages two_generator None False False empty_world))
     = [Error_Failed ''broken'' (TemplateNotFound ''missing.md.jinja''),
        Info_Generated python_readme] \<and>
   read_text (files (snd (process_all_languages two_generator None False False
                             empty_world))) python_readme
     = Inr (''# python: fast'' @ nl) \<and>
   fst (generate_targets (table_env visitor_templates) (Path True [''repo'']) []
          [(''rust'', PDict [(''template'', PStr ''templates/rust.j2''),
                             (''output_file'', PStr ''out/visitor.rs'')]),
           (''go'', PDict [(''template'', PStr ''templates/go.j2''),
                           (''output_file'', PStr ''out/visitor.go'')])] [] visitor_files)
     = SystemExit 1"
proof -
  let ?b = "PDict [(''template'', PStr ''missing.md.jinja'')]"
  let ?bp = "Path True [''repo'', ''packages'', ''broken'', ''README.md'']"
  let ?py = "(''python'', PDict [(''tagline'', PStr ''fast'')])"
  let ?env = "table_env
        [(''python.md.jinja'', [Lit ''# '', Var ''language'', Lit '': '', Var ''tagline''])]"
  let ?renv = "table_env [(''ruby.md.jinja'', [Lit ''# Ruby'', Raise])]"
  let ?rctx = "[(''language'', PStr ''ruby''), (''version'', PStr []), (''license'', PStr ''MIT''),
      (''discord_url'', PStr []), (''banner_url'', PStr []), (''migration_guide'', PStr [])]"
  let ?rbp = "Path True [''repo'', ''packages'', ''ruby'', ''README.md'']"
  let ?p = "process_languages two_generator False False two_languages True empty_world"
  let ?rp = "\<lambda>item. case resolve_output_path two_generator (fst item) (snd item) of
                       Inr q \<Rightarrow> q | Inl e \<Rightarrow> python_readme"
  let ?rust = "(''rust'', PDict [(''template'', PStr ''templates/rust.j2''),
                             (''output_file'', PStr ''out/visitor.rs'')])"
  let ?go = "(''go'', PDict [(''template'', PStr ''templates/go.j2''),
                           (''output_file'', PStr ''out/visitor.go'')])"
  let ?gc = "generate_code (table_env visitor_templates) (name (parse_path ''templates/rust.j2''))
      (joinpath (Path True [''repo'']) ''out/visitor.rs'') [] visitor_files"
  have h1: "jinja_env two_generator = Some ?env \<and>
    get ?b ''template'' (PStr (''broken'' @ ''.md.jinja'')) = Inr (PStr ''missing.md.jinja'') \<and>
    get_template ?env (files empty_world) ''missing.md.jinja''
      = Inl (TemplateNotFound ''missing.md.jinja'')"
    by (simp add: two_generator_def table_env_def)
  have h2: "jinja_env raising_generator = Some ?renv \<and>
    get (PDict []) ''template'' (PStr (''ruby'' @ ''.md.jinja'')) = Inr (PStr ''ruby.md.jinja'') \<and>
    get_template ?renv (files empty_world) ''ruby.md.jinja'' = Inr [Lit ''# Ruby'', Raise] \<and>
    prepare_template_context raising_generator ''ruby'' (PDict []) empty_world
      = (Inr ?rctx, empty_world) \<and>
    render_template ?renv [Lit ''# Ruby'', Raise] (files empty_world) ?rctx = Inl TemplateError"
    by (simp add: raising_generator_def table_env_def prepare_template_context_def
        inject_migration_guide_def path_exists_def lookup_def stat_def resolve_def node_at_def
        guide_path_def docs_dir_def joinpath_def parse_path_def startswith_def py_str_def
        empty_world_def no_files_def disk_of_def)
  have h3: "resolve_output_path two_generator (fst (''broken'', ?b)) (snd (''broken'', ?b)) = Inr ?bp"
    by code_simp
  have tl: "two_languages = [(''broken'', ?b), ?py]" by (simp add: two_languages_def)
  have wf: "\<forall>item\<in>set two_languages.
     resolve_output_path two_generator (fst item) (snd item) = Inr (?rp item)" by code_simp
  have lg: "logged (snd ?p) = [Error_Failed ''broken'' (TemplateNotFound ''missing.md.jinja''),
        Info_Generated python_readme]" by code_simp
  have rd: "read_text (files (snd ?p)) python_readme = Inr (''# python: fast'' @ nl)"
    by code_simp
  have l0: "logged empty_world = []" by (simp add: empty_world_def)
  have h6: "truthy (config two_generator) \<and>
    get (config two_generator) ''languages'' (PDict []) = Inr (PDict two_languages)"
    by (simp add: two_generator_def two_languages_def)
  have v1: "getitem (snd ?rust) ''template'' = Inr (PStr ''templates/rust.j2'') \<and>
    getitem (snd ?rust) ''output_file'' = Inr (PStr ''out/visitor.rs'')" by simp
  have v2: "fst ?gc = Inl (TemplateNotFound ''rust.j2'')" by code_simp
  note t = target_errors_are_caught
    [where g = two_generator and env = ?env and c = ?b and l = "''broken''"
      and n = "''missing.md.jinja''" and w = empty_world and m = "''missing.md.jinja''"
      and p = ?bp and d = False and item = "(''broken'', ?b)" and q = ?bp
      and e' = "TemplateNotFound ''missing.md.jinja''" and w' = empty_world and rest = "[?py]"
      and targets = two_languages and rp = ?rp and all_ok = True
      and r = "fst ?p" and ?w2.0 = "snd ?p" and vitem = ?rust and vt = "''templates/rust.j2''"
      and out = "''out/visitor.rs''" and venv = "table_env visitor_templates"
      and root = "Path True [''repo'']" and vcontext = "[]" and fs = visitor_files
      and ve = "TemplateNotFound ''rust.j2''" and ?fs1.0 = "snd ?gc"
      and vrest = "[?go]" and generated = "[]"]
  note u = target_errors_are_caught
    [where g = raising_generator and env = ?renv and c = "PDict []" and l = "''ruby''"
      and n = "''ruby.md.jinja''" and w = empty_world and t = "[Lit ''# Ruby'', Raise]"
      and ctxt = ?rctx and ?w1.0 = empty_world and e = TemplateError
      and p = ?rbp and d = False]
  have f1: "generate_readme two_generator ''broken'' ?b ?bp False empty_world
      = (Inl (TemplateNotFound ''missing.md.jinja''), empty_world)"
    by (rule mp [OF t [THEN conjunct1] h1])
  have f2: "generate_readme raising_generator ''ruby'' (PDict []) ?rbp False empty_world
      = (Inl (RenderFailed ''ruby.md.jinja''), empty_world)"
    by (rule mp [OF u [THEN conjunct2, THEN conjunct1] h2])
  from h3 f1 have g3: "resolve_output_path two_generator (fst (''broken'', ?b)) (snd (''broken'', ?b))
        = Inr ?bp \<and>
      generate_readme two_generator (fst (''broken'', ?b)) (snd (''broken'', ?b)) ?bp False
        empty_world = (Inl (TemplateNotFound ''missing.md.jinja''), empty_world)"
    by simp
  have f3: "process_languages two_generator False False ((''broken'', ?b) # [?py])
        True empty_world
      = process_languages two_generator False False [?py] False
          (emit (Error_Failed (fst (''broken'', ?b)) (TemplateNotFound ''missing.md.jinja''))
             empty_world)"
    by (rule mp [OF t [THEN conjunct2, THEN conjunct2, THEN conjunct1] g3])
  from t wf have "\<exists>evs. logged (snd ?p) = logged empty_world @ evs \<and>
         length (List.map_filter generate_outcome evs) = length two_languages \<and>
         fst ?p = Inr (True \<and> list_all (\<lambda>ok. ok) (List.map_filter generate_outcome evs))"
    by simp
  then have f4: "fst ?p = Inr False" using lg l0 by (auto simp: List.map_filter_simps)
  from v1 pair_of_fst [OF v2]
  have g5: "getitem (snd ?rust) ''template'' = Inr (PStr ''templates/rust.j2'') \<and>
    getitem (snd ?rust) ''output_file'' = Inr (PStr ''out/visitor.rs'') \<and>
    ?gc = (Inl (TemplateNotFound ''rust.j2''), snd ?gc)" by blast
  have f5: "generate_targets (table_env visitor_templates) (Path True [''repo'']) []
      [?rust, ?go] [] visitor_files = (SystemExit 1, [], snd ?gc)"
    by (rule mp [OF t [THEN conjunct2, THEN conjunct2, THEN conjunct2, THEN conjunct2,
          THEN conjunct1] g5])
  have f6: "process_all_languages two_generator None False False empty_world = ?p"
    by (rule mp [OF t [THEN conjunct2, THEN conjunct2, THEN conjunct2, THEN conjunct2,
          THEN conjunct2] h6])
  from f3 have f3': "?p = process_languages two_generator False False [?py] False
          (emit (Error_Failed ''broken'' (TemplateNotFound ''missing.md.jinja'')) empty_world)"
    by (simp add: tl)
  from f1 f2 f3' f4 f5 lg rd show ?thesis unfolding f6 by simp
qed

subsection \<open>Validate mode\<close>

lemma process_validate_files:
  "process_languages g d True targets all_ok w = (r, w2) \<Longrightarrow> files w2 = files w"
proof (induction targets arbitrary: all_ok w)
  case Nil
  then show ?case by simp
next
  case (Cons item rest)
  show ?case
  proof (cases "resolve_output_path g (fst item) (snd item)")
    case (Inl e)
    with Cons.prems show ?thesis by simp
  next
    case (Inr q)
    obtain ok w1 where v: "validate_readme g (fst item) (snd item) q w = (ok, w1)"
      by (cases "validate_readme g (fst item) (snd item) q w") auto
    with Cons.prems Inr have "process_languages g d True rest (all_ok \<and> ok) w1 = (r, w2)"
      by simp
    then have "files w2 = files w1" by (rule Cons.IH)
    with validate_files [OF v] show ?thesis by simp
  qed
qed

lemma process_all_validate_files:
  "process_all_languages g flt d True w = (r, w') \<Longrightarrow> files w' = files w"
proof -
  assume a: "process_all_languages g flt d True w = (r, w')"
  show ?thesis
  proof (cases "truthy (config g)")
    case False
    with a show ?thesis by (auto simp: process_all_languages_def)
  next
    case True
    show ?thesis
    proof (cases "get (config g) ''languages'' (PDict [])")
      case (Inl e)
      with a True show ?thesis by (simp add: process_all_languages_def)
    next
      case (Inr languages)
      show ?thesis
      proof (cases "flt = None \<or> flt = Some []")
        case all: True
        show ?thesis
        proof (cases "items languages")
          case (Inl e)
          with a True Inr all show ?thesis by (auto simp: process_all_languages_def)
        next
          case ts: (Inr targets)
          with a True Inr all have "process_languages g d True targets True w = (r, w')"
            by (auto simp: process_all_languages_def)
          then show ?thesis by (rule process_validate_files)
        qed
      next
        case False
        then obtain lang where lang: "flt = Some lang" "lang \<noteq> []" by auto
        show ?thesis
        proof (cases "contains languages lang")
          case (Inl e)
          with a True Inr lang show ?thesis by (simp add: process_all_languages_def)
        next
          case c: (Inr b)
          show ?thesis
          proof (cases b)
            case False
            with a True Inr lang c show ?thesis
              by (cases "items languages") (auto simp: process_all_languages_def)
          next
            case tt: True
            show ?thesis
            proof (cases "getitem languages lang")
              case (Inl e)
              with a True Inr lang c tt show ?thesis by (simp add: process_all_languages_def)
            next
              case cf: (Inr lang_config)
              with a True Inr lang c tt
              have "process_languages g d True [(lang, lang_config)] True w = (r, w')"
                by (simp add: process_all_languages_def)
              then show ?thesis by (rule process_validate_files)
            qed
          qed
        qed
      qed
    qed
  qed
qed

text \<open>
  Claim C8 as stated fails at one point: the comparison is not of bytes. The existing
  file is read in text mode, so a file that ends its line with carriage return and
  line feed differs in bytes from the rendered content and is still reported up to
  date.
\<close>

theorem validate_text_mode_counterexample:
  "lookup (files crlf_world) python_readme
     = Some (File (''# python: fast'' @ [CHR 0x0D, CHR 0x0A])) \<and>
   fst (generate_readme two_generator ''python'' (PDict [(''tagline'', PStr ''fast'')])
          python_readme True crlf_world) = Inr (''# python: fast'' @ [CHR 0x0A]) \<and>
   ''# python: fast'' @ [CHR 0x0D, CHR 0x0A] \<noteq> ''# python: fast'' @ [CHR 0x0A] \<and>
   fst (validate_readme two_generator ''python'' (PDict [(''tagline'', PStr ''fast'')])
          python_readme crlf_world) = True"
  by code_simp

text \<open>
  Claim C8, amended. \<open>validate_readme\<close> leaves the disk as it was, whatever it
  returns; it returns false when the file is missing and when the text read from the
  file (in text mode) differs from the rendered content. A run of the target loop in
  validate mode over targets whose output path resolves leaves the disk as it was,
  never raises, logs one verdict per target in the order of the targets, and returns
  the conjunction of the verdicts; a whole run of \<open>process_all_languages\<close> in
  validate mode leaves the disk as it was, and without a language filter it is that
  loop over the items of \<^verbatim>\<open>languages\<close>, started with the result true.
\<close>

theorem validate_mode_reports:
  "(validate_readme g l c p w = (ok, w') \<longrightarrow> files w' = files w) \<and>
   (\<not> path_exists (files w) p \<longrightarrow> fst (validate_readme g l c p w) = False) \<and>
   (generate_readme g l c p True w = (Inr generated, w1) \<and>
    read_text (files w1) p = Inr existing \<and> generated \<noteq> existing \<longrightarrow>
      fst (validate_readme g l c p w) = False) \<and>
   ((\<forall>item\<in>set targets. resolve_output_path g (fst item) (snd item) = Inr (rp item)) \<and>
    process_languages g d True targets all_ok w = (r, w2) \<longrightarrow>
      files w2 = files w \<and>
      (\<exists>evs. logged w2 = logged w @ evs \<and>
         map fst (List.map_filter validate_outcome evs) = map rp targets \<and>
         r = Inr (all_ok \<and> list_all snd (List.map_filter validate_outcome evs)))) \<and>
   (process_all_languages g flt d True w = (r', w3) \<longrightarrow> files w3 = files w) \<and>
   (truthy (config g) \<and> get (config g) ''languages'' (PDict []) = Inr (PDict targets) \<longrightarrow>
      process_all_languages g None d True w = process_languages g d True targets True w)"
proof -
  have c1: "validate_readme g l c p w = (ok, w') \<longrightarrow> files w' = files w"
    using validate_files by blast
  have c2: "\<not> path_exists (files w) p \<longrightarrow> fst (validate_readme g l c p w) = False"
    using validate_missing by blast
  have c3: "generate_readme g l c p True w = (Inr generated, w1) \<and>
    read_text (files w1) p = Inr existing \<and> generated \<noteq> existing \<longrightarrow>
      fst (validate_readme g l c p w) = False"
    using validate_mismatch by blast
  have c4: "(\<forall>item\<in>set targets. resolve_output_path g (fst item) (snd item) = Inr (rp item)) \<and>
    process_languages g d True targets all_ok w = (r, w2) \<longrightarrow>
      files w2 = files w \<and>
      (\<exists>evs. logged w2 = logged w @ evs \<and>
         map fst (List.map_filter validate_outcome evs) = map rp targets \<and>
         r = Inr (all_ok \<and> list_all snd (List.map_filter validate_outcome evs)))"
  proof
    assume a: "(\<forall>item\<in>set targets. resolve_output_path g (fst item) (snd item) = Inr (rp item)) \<and>
      process_languages g d True targets all_ok w = (r, w2)"
    then have "\<forall>item\<in>set targets. resolve_output_path g (fst item) (snd item) = Inr (rp item)"
      and "process_languages g d True targets all_ok w = (r, w2)" by simp_all
    then show "files w2 = files w \<and>
      (\<exists>evs. logged w2 = logged w @ evs \<and>
         map fst (List.map_filter validate_outcome evs) = map rp targets \<and>
         r = Inr (all_ok \<and> list_all snd (List.map_filter validate_outcome evs)))"
      by (rule process_validate)
  qed
  have c5: "process_all_languages g flt d True w = (r', w3) \<longrightarrow> files w3 = files w"
    using process_all_validate_files by blast
  have c6: "truthy (config g) \<and> get (config g) ''languages'' (PDict []) = Inr (PDict targets) \<longrightarrow>
      process_all_languages g None d True w = process_languages g d True targets True w"
    by (simp add: process_all_unfiltered)
  show ?thesis
    by (rule conjI [OF c1 conjI [OF c2 conjI [OF c3 conjI [OF c4 conjI [OF c5 c6]]]]])
qed

text \<open>
  Claim C8 (amended) at the two-target project: on the empty disk the README is missing, on
  a disk with an older README the content differs; both targets get a verdict and the
  disk stays as it was.
\<close>

theorem validate_mode_reports_witness:
  "files (snd (validate_readme two_generator ''python'' (PDict [(''tagline'', PStr ''fast'')])
                 python_readme stale_world)) = files stale_world \<and>
   \<not> path_exists (files empty_world) python_readme \<and>
   fst (validate_readme two_generator ''python'' (PDict [(''tagline'', PStr ''fast'')])
          python_readme empty_world) = False \<and>
   fst (generate_readme two_generator ''python'' (PDict [(''tagline'', PStr ''fast'')])
          python_readme True stale_world) = Inr (''# python: fast'' @ nl) \<and>
   read_text (files stale_world) python_readme = Inr ''# python: slow'' \<and>
   fst (validate_readme two_generator ''python'' (PDict [(''tagline'', PStr ''fast'')])
          python_readme stale_world) = False \<and>
   fst (process_all_languages two_generator None False True stale_world) = Inr False \<and>
   List.map_filter validate_outcome
     (logged (snd (process_all_languages two_generator None False True stale_world)))
     = [(Path True [''repo'', ''packages'', ''broken'', ''README.md''], False),
        (python_readme, False)] \<and>
   files (snd (process_all_languages two_generator None False True stale_world))
     = files stale_world"
proof -
  let ?c = "PDict [(''tagline'', PStr ''fast'')]"
  let ?v = "validate_readme two_generator ''python'' ?c python_readme stale_world"
  let ?g = "generate_readme two_generator ''python'' ?c python_readme True stale_world"
  let ?p = "process_languages two_generator False True two_languages True stale_world"
  let ?a = "process_all_languages two_generator None False True stale_world"
  let ?rp = "\<lambda>item. case resolve_output_path two_generator (fst item) (snd item) of
                       Inr q \<Rightarrow> q | Inl e \<Rightarrow> python_readme"
  have h2: "\<not> path_exists (files empty_world) python_readme" by code_simp
  have g: "fst ?g = Inr (''# python: fast'' @ nl)" by code_simp
  have rd: "read_text (files (snd ?g)) python_readme = Inr ''# python: slow''" by code_simp
  have rd0: "read_text (files stale_world) python_readme = Inr ''# python: slow''" by code_simp
  have ne: "''# python: fast'' @ nl \<noteq> ''# python: slow''" by (simp add: nl_def)
  have wf: "\<forall>item\<in>set two_languages.
     resolve_output_path two_generator (fst item) (snd item) = Inr (?rp item)" by code_simp
  have lg: "logged stale_world = []" by (simp add: stale_world_def)
  have ev: "List.map_filter validate_outcome (logged (snd ?p))
     = [(Path True [''repo'', ''packages'', ''broken'', ''README.md''], False),
        (python_readme, False)]" by code_simp
  have h6: "truthy (config two_generator) \<and>
    get (config two_generator) ''languages'' (PDict []) = Inr (PDict two_languages)"
    by (simp add: two_generator_def two_languages_def)
  note t = validate_mode_reports
    [where g = two_generator and l = "''python''" and c = ?c and p = python_readme
      and w = stale_world and ok = "fst ?v" and w' = "snd ?v"
      and generated = "''# python: fast'' @ nl" and ?w1.0 = "snd ?g"
      and existing = "''# python: slow''" and targets = two_languages and rp = ?rp
      and d = False and all_ok = True and r = "fst ?p" and ?w2.0 = "snd ?p"
      and flt = None and r' = "fst ?a" and ?w3.0 = "snd ?a"]
  note t0 = validate_mode_reports
    [where g = two_generator and l = "''python''" and c = ?c and p = python_readme
      and w = empty_world]
  have f7: "?a = ?p"
    by (rule mp [OF t [THEN conjunct2, THEN conjunct2, THEN conjunct2, THEN conjunct2,
          THEN conjunct2] h6])
  from t have f1: "files (snd ?v) = files stale_world" by simp
  from t0 h2 have f2: "fst (validate_readme two_generator ''python'' ?c python_readme empty_world) = False"
    by blast
  from t pair_of_fst [OF g] rd ne have f3: "fst ?v = False" by blast
  from t wf have f4: "files (snd ?p) = files stale_world \<and>
      (\<exists>evs. logged (snd ?p) = logged stale_world @ evs \<and>
         map fst (List.map_filter validate_outcome evs) = map ?rp two_languages \<and>
         fst ?p = Inr (True \<and> list_all snd (List.map_filter validate_outcome evs)))"
    by simp
  then have f5: "fst ?p = Inr False" using ev lg by auto
  from t have f6: "files (snd ?a) = files stale_world" by simp
  from h2 g rd0 f1 f2 f3 f4 f5 f6 ev show ?thesis unfolding f7 by blast
qed

subsection \<open>Validating what was just generated\<close>

lemma generate_success:
  assumes "generate_readme g l c p d w = (Inr content, w')"
  obtains env n t ctx w1 rendered where
    "jinja_env g = Some env"
    "get c ''template'' (PStr (l @ ''.md.jinja'')) = Inr (PStr n)"
    "get_template env (files w) n = Inr t"
    "prepare_template_context g l c w = (Inr ctx, w1)"
    "render_template env t (files w1) ctx = Inr rendered"
    "content = rstrip rendered @ nl"
    "d \<Longrightarrow> w' = emit (Info_DryRun p) w1"
    "\<not> d \<Longrightarrow> \<exists>fs1 fs2. mkdir (files w1) (parent p) = Inr fs1 \<and>
        write_text fs1 p content = Inr fs2 \<and>
        w' = emit (Info_Generated p) (w1\<lparr>files := fs2\<rparr>)"
  using assms
  by (auto simp: generate_readme_def Let_def
      split: sum.splits option.splits prod.splits if_splits pyval.splits)

lemma generate_dry_intro:
  assumes "jinja_env g = Some env"
    "get c ''template'' (PStr (l @ ''.md.jinja'')) = Inr (PStr n)"
    "get_template env (files w) n = Inr t"
    "prepare_template_context g l c w = (Inr ctx, w1)"
    "render_template env t (files w1) ctx = Inr rendered"
  shows "generate_readme g l c p True w = (Inr (rstrip rendered @ nl), emit (Info_DryRun p) w1)"
  using assms by (simp add: generate_readme_def)

lemma inject_fst_eq:
  "lookup (files wa) (guide_path g l v) = lookup (files wb) (guide_path g l v) \<Longrightarrow>
   fst (inject_migration_guide g l v wa) = fst (inject_migration_guide g l v wb)"
  by (simp add: inject_migration_guide_def path_exists_def read_text_def lookup_def
      split: sum.splits node.splits)

lemma prepare_fst_eq:
  assumes "\<forall>v. get (config g) ''version'' (PStr []) = Inr v \<longrightarrow>
     lookup (files wa) (guide_path g l v) = lookup (files wb) (guide_path g l v)"
  shows "fst (prepare_template_context g l c wa) = fst (prepare_template_context g l c wb)"
proof (cases "get (config g) ''version'' (PStr [])")
  case (Inl e)
  then show ?thesis by (simp add: prepare_template_context_def)
next
  case (Inr v)
  with assms have "fst (inject_migration_guide g l v wa) = fst (inject_migration_guide g l v wb)"
    by (intro inject_fst_eq) simp
  with Inr show ?thesis
    by (cases "inject_migration_guide g l v wa"; cases "inject_migration_guide g l v wb")
      (simp add: prepare_template_context_def)
qed

lemma universal_newlines_id: "CHR 0x0D \<notin> set s \<Longrightarrow> universal_newlines s = s"
  by (induction s rule: universal_newlines.induct) auto

lemma lookup_stat: "lookup fs p = Some n \<Longrightarrow> stat fs p = Inr n"
  by (auto simp: lookup_def split: sum.splits)

lemma walk_written:
  assumes "\<And>l. node_at fs' l = (if l = loc then Some (File s) else node_at fs l)"
    and "node_at fs loc \<noteq> Some Dir" and "walk fs start cs = Inr l"
  shows "walk fs' start cs = Inr l"
  using assms(3)
proof (induction cs arbitrary: start)
  case Nil
  then show ?case by simp
next
  case (Cons c cs)
  from Cons.prems have d: "node_at fs start = Some Dir"
    by (auto split: option.splits node.splits)
  with assms(2) have "start \<noteq> loc" by auto
  with d assms(1) have d': "node_at fs' start = Some Dir" by simp
  from Cons.prems d
  have "walk fs (if c = ''..'' then butlast start else start @ [c]) cs = Inr l" by simp
  then have "walk fs' (if c = ''..'' then butlast start else start @ [c]) cs = Inr l"
    by (rule Cons.IH)
  with d' show ?case by simp
qed

lemma write_text_lookup:
  assumes "write_text fs p s = Inr fs'"
  shows "lookup fs' p = Some (File s)"
proof -
  from assms obtain loc where r: "resolve fs p = Inr loc"
    and n: "node_at fs loc \<noteq> Some Dir"
    and f: "fs' = fs\<lparr>nodes := (nodes fs)(loc \<mapsto> File s)\<rparr>"
    by (auto simp: write_text_def split: sum.splits if_splits)
  from n have ne: "loc \<noteq> []" by (auto simp: node_at_def)
  have c: "cwd fs' = cwd fs" by (simp add: f)
  have na: "node_at fs' l = (if l = loc then Some (File s) else node_at fs l)" for l
    using ne by (simp add: f node_at_def)
  from r have "walk fs (if is_abs p then [] else cwd fs) (parts p) = Inr loc"
    by (simp add: resolve_def)
  with na n have "walk fs' (if is_abs p then [] else cwd fs) (parts p) = Inr loc"
    by (rule walk_written)
  with c have "resolve fs' p = Inr loc" by (simp only: resolve_def)
  with na show ?thesis by (simp add: lookup_def stat_def)
qed

text \<open>
  Claim C7 as stated fails in three cases. When the output path of a target is a file
  that its own rendering reads, generation changes the input of the next rendering.
  With the migration guide of the target as output, the run generates \<^verbatim>\<open>Guide\<close> and
  the validation that follows renders \<^verbatim>\<open>Guide\<close> twice and reports the target out of
  date; with a snippet that the template includes as output, the validation that
  follows wraps the generated text once more and reports the target out of date.
  When the rendered content holds a carriage return, the file is written with it and
  read back in text mode with a line feed in its place, and validation reports the
  target out of date.
\<close>

theorem validate_after_generate_counterexample:
  "fst (process_all_languages guide_generator None False False empty_world) = Inr True \<and>
   fst (process_all_languages guide_generator None False True
          (snd (process_all_languages guide_generator None False False empty_world)))
     = Inr False \<and>
   read_text (files (snd (process_all_languages guide_generator None False False empty_world)))
       (Path True [''repo'', ''docs'', ''migration-guides'', ''python'', ''1.0.md''])
     = Inr (''Guide'' @ nl) \<and>
   fst (generate_readme guide_generator ''python''
          (PDict [(''output_path'', PStr ''docs/migration-guides/python/1.0.md'')])
          (Path True [''repo'', ''docs'', ''migration-guides'', ''python'', ''1.0.md'']) True
          (snd (process_all_languages guide_generator None False False empty_world)))
     = Inr (''Guide'' @ nl @ ''Guide'' @ nl) \<and>
   fst (process_all_languages cr_generator None False False empty_world) = Inr True \<and>
   fst (process_all_languages cr_generator None False True
          (snd (process_all_languages cr_generator None False False empty_world)))
     = Inr False \<and>
   fst (process_all_languages alias_generator None False False snippet_world) = Inr True \<and>
   fst (process_all_languages alias_generator None False True
          (snd (process_all_languages alias_generator None False False snippet_world)))
     = Inr False"
  by code_simp

text \<open>
  Claim C7, amended. Let a non-dry-run \<open>generate_readme\<close> of a target succeed with
  a content that has no carriage return; let \<open>n\<close> be the template name of the target,
  \<open>t\<close> the template found for it and \<open>ctx\<close> the context prepared for it. Let the
  write leave what the rendering of this target reads as it was: after the write the
  name \<open>n\<close> still finds \<open>t\<close>, \<open>t\<close> renders \<open>ctx\<close> as it did before, and the
  migration guide of the target is as before. Then \<open>validate_readme\<close> on the
  resulting state reports the target up to date and changes no file, a dry run there
  renders the same content again, the written file holds exactly that content, and
  the file read back equals it.
\<close>

theorem validate_after_generate:
  assumes gen: "generate_readme g l c p False w = (Inr content, w1)"
    and cr: "CHR 0x0D \<notin> set content"
    and env: "jinja_env g = Some env"
    and named: "get c ''template'' (PStr (l @ ''.md.jinja'')) = Inr (PStr n)"
    and found: "get_template env (files w) n = Inr t"
    and prepared: "fst (prepare_template_context g l c w) = Inr ctx"
    and tmpl: "get_template env (files w1) n = Inr t"
    and rend: "render_template env t (files w1) ctx = render_template env t (files w) ctx"
    and guide: "\<forall>v. get (config g) ''version'' (PStr []) = Inr v \<longrightarrow>
       lookup (files w1) (guide_path g l v) = lookup (files w) (guide_path g l v)"
  shows "fst (validate_readme g l c p w1) = True
     \<and> files (snd (validate_readme g l c p w1)) = files w1
     \<and> fst (generate_readme g l c p True w1) = Inr content
     \<and> lookup (files w1) p = Some (File content)
     \<and> read_text (files w1) p = Inr content"
proof -
  from gen obtain env' n' t' ctx' w0 rendered fs1 fs2 where
    e: "jinja_env g = Some env'"
    and n: "get c ''template'' (PStr (l @ ''.md.jinja'')) = Inr (PStr n')"
    and t: "get_template env' (files w) n' = Inr t'"
    and p: "prepare_template_context g l c w = (Inr ctx', w0)"
    and r: "render_template env' t' (files w0) ctx' = Inr rendered"
    and c: "content = rstrip rendered @ nl"
    and wr: "write_text fs1 p content = Inr fs2"
    and w1: "w1 = emit (Info_Generated p) (w0\<lparr>files := fs2\<rparr>)"
    by (rule generate_success) auto
  from e env have e': "env' = env" by simp
  from n named have n': "n' = n" by simp
  from t found e' n' have t': "t' = t" by simp
  from p prepared have c': "ctx' = ctx" by simp
  have f0: "files w0 = files w" using p by (rule prepare_files)
  have f1: "files w1 = fs2" by (simp add: w1)
  from wr have lk: "lookup (files w1) p = Some (File content)"
    unfolding f1 by (rule write_text_lookup)
  then have ex: "path_exists (files w1) p" by (simp add: path_exists_def)
  from lookup_stat [OF lk] cr have rd: "read_text (files w1) p = Inr content"
    by (simp add: read_text_def universal_newlines_id)
  obtain cr1 w2 where p1: "prepare_template_context g l c w1 = (cr1, w2)"
    by (cases "prepare_template_context g l c w1") auto
  from guide have "fst (prepare_template_context g l c w1) = fst (prepare_template_context g l c w)"
    by (rule prepare_fst_eq)
  with p p1 c' have p1': "prepare_template_context g l c w1 = (Inr ctx, w2)" by simp
  have f2: "files w2 = files w1" using p1 by (rule prepare_files)
  have r1: "render_template env t (files w2) ctx = Inr rendered"
    using rend r f0 f2 e' t' c' by simp
  from generate_dry_intro [OF env named tmpl p1' r1]
  have dry: "generate_readme g l c p True w1 = (Inr content, emit (Info_DryRun p) w2)"
    by (simp add: c)
  have "validate_readme g l c p w1 = (True, emit (Info_Valid p) (emit (Info_DryRun p) w2))"
    using ex dry rd f2 by (simp add: validate_readme_def)
  with dry rd lk f2 show ?thesis by simp
qed

text \<open>
  The amended claim at a target whose template includes a snippet from the disk: the
  rendering reads the snippet file, which the write of the README leaves as it was.
\<close>

theorem validate_after_generate_witness:
  "fst (generate_readme snippet_generator ''python'' (PDict []) python_readme False snippet_world)
     = Inr (''# python'' @ nl @ ''```py'' @ nl @ ''print(\"hi\")'' @ nl @ ''```'' @ nl) \<and>
   CHR 0x0D \<notin> set (''# python'' @ nl @ ''```py'' @ nl @ ''print(\"hi\")'' @ nl @ ''```'' @ nl) \<and>
   fst (validate_readme snippet_generator ''python'' (PDict []) python_readme
          (snd (generate_readme snippet_generator ''python'' (PDict []) python_readme False
                  snippet_world))) = True \<and>
   lookup
     (files (snd (generate_readme snippet_generator ''python'' (PDict []) python_readme False
                    snippet_world))) python_readme
     = Some (File (''# python'' @ nl @ ''```py'' @ nl @ ''print(\"hi\")'' @ nl @ ''```'' @ nl)) \<and>
   read_text
     (files (snd (generate_readme snippet_generator ''python'' (PDict []) python_readme False
                    snippet_world))) python_readme
     = Inr (''# python'' @ nl @ ''```py'' @ nl @ ''print(\"hi\")'' @ nl @ ''```'' @ nl)"
proof -
  let ?t = "[Lit ''# '', Var ''language'', Lit nl,
           Snippet (Path True [''repo'']) ''hello.py'' ''python'']"
  let ?env = "table_env [(''python.md.jinja'', ?t)]"
  let ?ctx = "[(''language'', PStr ''python''), (''version'', PStr ''1.0''),
      (''license'', PStr ''MIT''), (''discord_url'', PStr []), (''banner_url'', PStr []),
      (''migration_guide'', PStr [])]"
  let ?out = "''# python'' @ nl @ ''```py'' @ nl @ ''print(\"hi\")'' @ nl @ ''```'' @ nl"
  let ?g = "generate_readme snippet_generator ''python'' (PDict []) python_readme False snippet_world"
  have g: "fst ?g = Inr ?out" by code_simp
  have cr: "CHR 0x0D \<notin> set ?out" by (simp add: nl_def)
  have env: "jinja_env snippet_generator = Some ?env" by (simp add: snippet_generator_def)
  have named: "get (PDict []) ''template'' (PStr (''python'' @ ''.md.jinja''))
      = Inr (PStr ''python.md.jinja'')" by simp
  have found: "get_template ?env (files snippet_world) ''python.md.jinja'' = Inr ?t"
    by (simp add: table_env_def)
  have prepared: "fst (prepare_template_context snippet_generator ''python'' (PDict [])
      snippet_world) = Inr ?ctx" by code_simp
  have tmpl: "get_template ?env (files (snd ?g)) ''python.md.jinja'' = Inr ?t"
    by (simp add: table_env_def)
  have rend: "render_template ?env ?t (files (snd ?g)) ?ctx
      = render_template ?env ?t (files snippet_world) ?ctx"
    by code_simp
  have lk: "lookup (files (snd ?g)) (guide_path snippet_generator ''python'' (PStr ''1.0''))
      = lookup (files snippet_world) (guide_path snippet_generator ''python'' (PStr ''1.0''))"
    by code_simp
  have guide: "\<forall>v. get (config snippet_generator) ''version'' (PStr []) = Inr v \<longrightarrow>
       lookup (files (snd ?g)) (guide_path snippet_generator ''python'' v)
       = lookup (files snippet_world) (guide_path snippet_generator ''python'' v)"
    using lk by (auto simp: snippet_generator_def)
  from validate_after_generate
    [OF pair_of_fst [OF g] cr env named found prepared tmpl rend guide] g cr
  show ?thesis by blast
qed

section \<open>Properties of the loaders\<close>

lemma check_required_dict:
  "check_required ks (PDict m) = (if set ks \<subseteq> set (map fst m) then Inr () else Inl ValueError)"
  by (induction ks) auto

lemma read_text_exists: "read_text fs p = Inr text \<Longrightarrow> path_exists fs p"
  by (auto simp: read_text_def path_exists_def lookup_def split: sum.splits node.splits)

lemma load_schema_absent:
  "\<not> path_exists fs p \<Longrightarrow> load_schema safe_load fs p = Inl FileNotFoundError"
  by (simp add: load_schema_def)

lemma load_schema_unparsable:
  "read_text fs p = Inr text \<Longrightarrow> safe_load text = Inl e \<Longrightarrow> load_schema safe_load fs p = Inl e"
  by (simp add: load_schema_def read_text_exists)

lemma load_schema_empty:
  "read_text fs p = Inr text \<Longrightarrow> safe_load text = Inr PNone \<Longrightarrow>
   load_schema safe_load fs p = Inl TypeError"
  by (simp add: load_schema_def read_text_exists required_keys_def)

lemma load_schema_missing_key:
  "read_text fs p = Inr text \<Longrightarrow> safe_load text = Inr (PDict m) \<Longrightarrow>
   key \<in> set required_keys \<Longrightarrow> key \<notin> set (map fst m) \<Longrightarrow>
   load_schema safe_load fs p = Inl ValueError"
  by (auto simp: load_schema_def read_text_exists check_required_dict)

lemma visitor_main_load_failure:
  "load_schema safe_load fs
     (joinpath root ''crates/html-to-markdown-ffi/visitor_callbacks.yaml'') = Inl e \<Longrightarrow>
   visitor_main safe_load Environment root fs = (SystemExit 1, [], fs)"
  by (simp add: visitor_main_def)

lemma load_config_absent:
  "\<not> path_exists (files w) (joinpath (scripts_dir g) ''readme_config.yaml'') \<Longrightarrow>
   load_config safe_load g w = (Inl FileNotFoundError, g, w)"
  by (simp add: load_config_def)

lemma load_config_unparsable:
  "read_text (files w) (joinpath (scripts_dir g) ''readme_config.yaml'') = Inr text \<Longrightarrow>
   safe_load text = Inl YAMLError \<Longrightarrow>
   load_config safe_load g w = (Inl ValueError, g, w)"
  by (simp add: load_config_def read_text_exists)

lemma load_config_empty:
  "read_text (files w) (joinpath (scripts_dir g) ''readme_config.yaml'') = Inr text \<Longrightarrow>
   safe_load text = Inr cfg \<Longrightarrow> \<not> truthy cfg \<Longrightarrow>
   load_config safe_load g w = (Inl ValueError, g\<lparr>config := cfg\<rparr>, w)"
  by (simp add: load_config_def read_text_exists Let_def)

lemma load_config_world:
  "load_config safe_load g w = (Inl e, g', w') \<Longrightarrow> w' = w"
  by (auto simp: load_config_def Let_def split: if_splits sum.splits)

lemma main_load_failure:
  assumes "fst (load_config safe_load g w) = Inl e"
  shows "fst (main safe_load Environment g a w) = 1 \<and>
    files (snd (snd (main safe_load Environment g a w))) = files w \<and>
    logged (snd (snd (main safe_load Environment g a w))) = logged w @ [Fatal e]"
proof -
  obtain g' w' where l: "load_config safe_load g w = (Inl e, g', w')"
    using assms by (cases "load_config safe_load g w") auto
  then have "w' = w" by (rule load_config_world)
  with l show ?thesis by (simp add: main_def emit_def)
qed

lemma load_config_without_languages:
  "read_text (files w) (joinpath (scripts_dir g) ''readme_config.yaml'') = Inr text \<Longrightarrow>
   safe_load text = Inr (PDict m) \<Longrightarrow> m \<noteq> [] \<Longrightarrow> ''languages'' \<notin> set (map fst m) \<Longrightarrow>
   load_config safe_load g w = (Inr (PDict m), g\<lparr>config := PDict m\<rparr>, emit (Info_Loaded 0) w)"
  by (simp add: load_config_def read_text_exists Let_def map_of_eq_None_iff [THEN iffD2])

lemma templates_dir_config [simp]: "templates_dir (g\<lparr>config := c\<rparr>) = templates_dir g"
  by (simp add: templates_dir_def scripts_dir_def)

lemma main_without_languages_unfiltered:
  assumes "read_text (files w) (joinpath (scripts_dir g) ''readme_config.yaml'') = Inr text"
    and "safe_load text = Inr (PDict m)" and "m \<noteq> []" and "''languages'' \<notin> set (map fst m)"
    and "path_exists (files w) (templates_dir g)"
    and "language a = None \<or> language a = Some []"
  shows "fst (main safe_load Environment g a w) = 0 \<and>
    files (snd (snd (main safe_load Environment g a w))) = files w \<and>
    logged (snd (snd (main safe_load Environment g a w)))
      = logged w @ [Info_Loaded 0, if validate a then Info_UpToDate else Info_Completed]"
proof -
  have l: "load_config safe_load g w
      = (Inr (PDict m), g\<lparr>config := PDict m\<rparr>, emit (Info_Loaded 0) w)"
    using assms(1-4) by (rule load_config_without_languages)
  let ?g2 = "g\<lparr>config := PDict m, jinja_env := Some (Environment (templates_dir g))\<rparr>"
  have s: "setup_jinja_env Environment (g\<lparr>config := PDict m\<rparr>) (emit (Info_Loaded 0) w)
      = (Inr (Environment (templates_dir g)), ?g2, emit (Info_Loaded 0) w)"
    using assms(5) by (simp add: setup_jinja_env_def Let_def)
  have "map_of m ''languages'' = None"
    using assms(4) by (simp add: map_of_eq_None_iff)
  then have p: "process_all_languages ?g2 (language a) (dry_run a) (validate a) (emit (Info_Loaded 0) w)
      = (Inr True, emit (Info_Loaded 0) w)"
    using assms(3,6) by (auto simp: process_all_languages_def)
  show ?thesis
    using l s p by (simp add: main_def emit_def)
qed

lemma main_without_languages_filtered:
  assumes "read_text (files w) (joinpath (scripts_dir g) ''readme_config.yaml'') = Inr text"
    and "safe_load text = Inr (PDict m)" and "m \<noteq> []" and "''languages'' \<notin> set (map fst m)"
    and "path_exists (files w) (templates_dir g)"
    and "language a = Some l" and "l \<noteq> []"
  shows "fst (main safe_load Environment g a w) = 1 \<and>
    files (snd (snd (main safe_load Environment g a w))) = files w \<and>
    logged (snd (snd (main safe_load Environment g a w)))
      = logged w @ [Info_Loaded 0, Error_UnknownLanguage l, Info_Available [],
                    if validate a then Error_OutOfDate else Error_CompletedWithErrors]"
proof -
  have ld: "load_config safe_load g w
      = (Inr (PDict m), g\<lparr>config := PDict m\<rparr>, emit (Info_Loaded 0) w)"
    using assms(1-4) by (rule load_config_without_languages)
  let ?g2 = "g\<lparr>config := PDict m, jinja_env := Some (Environment (templates_dir g))\<rparr>"
  have s: "setup_jinja_env Environment (g\<lparr>config := PDict m\<rparr>) (emit (Info_Loaded 0) w)
      = (Inr (Environment (templates_dir g)), ?g2, emit (Info_Loaded 0) w)"
    using assms(5) by (simp add: setup_jinja_env_def Let_def)
  have "map_of m ''languages'' = None"
    using assms(4) by (simp add: map_of_eq_None_iff)
  then have p: "process_all_languages ?g2 (language a) (dry_run a) (validate a) (emit (Info_Loaded 0) w)
      = (Inr False, emit (Info_Available [])
           (emit (Error_UnknownLanguage l) (emit (Info_Loaded 0) w)))"
    using assms(3,6,7) by (simp add: process_all_languages_def)
  show ?thesis
    using ld s p by (simp add: main_def emit_def)
qed

lemma main_without_templates:
  assumes "fst (load_config safe_load g w) = Inr cfg"
    and "\<not> path_exists (files w) (templates_dir g)"
  shows "fst (main safe_load Environment g a w) = 1 \<and>
    files (snd (snd (main safe_load Environment g a w))) = files w"
proof -
  obtain g' w' where l: "load_config safe_load g w = (Inr cfg, g', w')"
    using assms(1) by (cases "load_config safe_load g w") auto
  then have "files w' = files w" "templates_dir g' = templates_dir g"
    by (auto simp: load_config_def Let_def emit_def split: if_splits sum.splits)
  with l assms(2) show ?thesis
    by (simp add: main_def setup_jinja_env_def emit_def)
qed

text \<open>
  Claim C2 as stated fails for the README configuration: \<open>load_config\<close> has no
  check for the key \<^verbatim>\<open>languages\<close>. A configuration file that holds only a version
  loads, and the run that follows processes no target and ends with status 0.
\<close>

theorem load_config_without_languages_counterexample:
  "fst (load_config (fixed_parser (Inr (PDict [(''version'', PStr ''1.0'')])))
          (init (Path True [''repo'']) :: piece list generator) readme_world)
     = Inr (PDict [(''version'', PStr ''1.0'')]) \<and>
   fst (main (fixed_parser (Inr (PDict [(''version'', PStr ''1.0'')]))) (fixed_environment [])
          (init (Path True [''repo''])) default_args readme_world) = 0"
  by code_simp

text \<open>
  Claim C2, amended. \<open>load_schema\<close> raises when the file is absent, when the
  parser raises, when the document is empty (\<open>None\<close>) and when the document is a
  mapping that lacks one of the keys \<^verbatim>\<open>version\<close>, \<^verbatim>\<open>metadata\<close>, \<^verbatim>\<open>types\<close>,
  \<^verbatim>\<open>callbacks\<close>, \<^verbatim>\<open>generation\<close>; when it raises, the visitor run exits with
  status 1 with no generated file and the disk as it was. \<open>load_config\<close> raises
  when the file is absent, when the parser raises a YAML error and when the document is
  empty; when it raises, the README run returns 1 with the disk as it was and only the
  fatal error logged. A README configuration that is a non-empty mapping without the
  key \<^verbatim>\<open>languages\<close> loads. The run over it writes nothing. If the template
  directory exists and no language is asked for (no filter, or the empty one), the run
  processes no target and returns 0; if the template directory exists and a language
  is asked for, the run reports that language as unknown and returns 1; if the
  template directory does not exist, the run returns 1.
\<close>

theorem loading_all_or_nothing:
  "(\<not> path_exists fs sp \<longrightarrow> load_schema safe_load fs sp = Inl FileNotFoundError) \<and>
   (read_text fs sp = Inr stext \<and> safe_load stext = Inl e \<longrightarrow>
      load_schema safe_load fs sp = Inl e) \<and>
   (read_text fs sp = Inr stext \<and> safe_load stext = Inr PNone \<longrightarrow>
      load_schema safe_load fs sp = Inl TypeError) \<and>
   (read_text fs sp = Inr stext \<and> safe_load stext = Inr (PDict m) \<and>
    key \<in> set required_keys \<and> key \<notin> set (map fst m) \<longrightarrow>
      load_schema safe_load fs sp = Inl ValueError) \<and>
   (load_schema safe_load fs
      (joinpath root ''crates/html-to-markdown-ffi/visitor_callbacks.yaml'') = Inl e \<longrightarrow>
      visitor_main safe_load venv root fs = (SystemExit 1, [], fs)) \<and>
   (\<not> path_exists (files w) (joinpath (scripts_dir g) ''readme_config.yaml'') \<longrightarrow>
      fst (load_config parse g w) = Inl FileNotFoundError) \<and>
   (read_text (files w) (joinpath (scripts_dir g) ''readme_config.yaml'') = Inr ctext \<and>
    parse ctext = Inl YAMLError \<longrightarrow>
      fst (load_config parse g w) = Inl ValueError) \<and>
   (read_text (files w) (joinpath (scripts_dir g) ''readme_config.yaml'') = Inr ctext \<and>
    parse ctext = Inr cfg \<and> \<not> truthy cfg \<longrightarrow>
      fst (load_config parse g w) = Inl ValueError) \<and>
   (fst (load_config parse g w) = Inl e' \<longrightarrow>
      fst (main parse Environment g a w) = 1 \<and>
      files (snd (snd (main parse Environment g a w))) = files w \<and>
      logged (snd (snd (main parse Environment g a w))) = logged w @ [Fatal e']) \<and>
   (read_text (files w) (joinpath (scripts_dir g) ''readme_config.yaml'') = Inr ctext \<and>
    parse ctext = Inr (PDict cm) \<and> cm \<noteq> [] \<and> ''languages'' \<notin> set (map fst cm) \<longrightarrow>
      fst (load_config parse g w) = Inr (PDict cm)) \<and>
   (read_text (files w) (joinpath (scripts_dir g) ''readme_config.yaml'') = Inr ctext \<and>
    parse ctext = Inr (PDict cm) \<and> cm \<noteq> [] \<and> ''languages'' \<notin> set (map fst cm) \<and>
    path_exists (files w) (templates_dir g) \<and>
    (language a = None \<or> language a = Some []) \<longrightarrow>
      fst (main parse Environment g a w) = 0 \<and>
      files (snd (snd (main parse Environment g a w))) = files w \<and>
      logged (snd (snd (main parse Environment g a w)))
        = logged w @ [Info_Loaded 0, if validate a then Info_UpToDate else Info_Completed]) \<and>
   (read_text (files w) (joinpath (scripts_dir g) ''readme_config.yaml'') = Inr ctext \<and>
    parse ctext = Inr (PDict cm) \<and> cm \<noteq> [] \<and> ''languages'' \<notin> set (map fst cm) \<and>
    path_exists (files w) (templates_dir g) \<and> language a = Some l \<and> l \<noteq> [] \<longrightarrow>
      fst (main parse Environment g a w) = 1 \<and>
      files (snd (snd (main parse Environment g a w))) = files w \<and>
      logged (snd (snd (main parse Environment g a w)))
        = logged w @ [Info_Loaded 0, Error_UnknownLanguage l, Info_Available [],
                      if validate a then Error_OutOfDate else Error_CompletedWithErrors]) \<and>
   (fst (load_config parse g w) = Inr cfg' \<and>
    \<not> path_exists (files w) (templates_dir g) \<longrightarrow>
      fst (main parse Environment g a w) = 1 \<and>
      files (snd (snd (main parse Environment g a w))) = files w)"
proof -
  have c1: "\<not> path_exists fs sp \<longrightarrow> load_schema safe_load fs sp = Inl FileNotFoundError"
    by (simp add: load_schema_absent)
  have c2: "read_text fs sp = Inr stext \<and> safe_load stext = Inl e \<longrightarrow>
      load_schema safe_load fs sp = Inl e"
    by (simp add: load_schema_unparsable)
  have c3: "read_text fs sp = Inr stext \<and> safe_load stext = Inr PNone \<longrightarrow>
      load_schema safe_load fs sp = Inl TypeError"
    by (simp add: load_schema_empty)
  have c4: "read_text fs sp = Inr stext \<and> safe_load stext = Inr (PDict m) \<and>
    key \<in> set required_keys \<and> key \<notin> set (map fst m) \<longrightarrow>
      load_schema safe_load fs sp = Inl ValueError"
    by (intro impI, elim conjE) (rule load_schema_missing_key)
  have c5: "load_schema safe_load fs
      (joinpath root ''crates/html-to-markdown-ffi/visitor_callbacks.yaml'') = Inl e \<longrightarrow>
      visitor_main safe_load venv root fs = (SystemExit 1, [], fs)"
    by (intro impI) (rule visitor_main_load_failure)
  have c6: "\<not> path_exists (files w) (joinpath (scripts_dir g) ''readme_config.yaml'') \<longrightarrow>
      fst (load_config parse g w) = Inl FileNotFoundError"
    by (simp add: load_config_absent)
  have c7: "read_text (files w) (joinpath (scripts_dir g) ''readme_config.yaml'') = Inr ctext \<and>
    parse ctext = Inl YAMLError \<longrightarrow>
      fst (load_config parse g w) = Inl ValueError"
    by (simp add: load_config_unparsable)
  have c8: "read_text (files w) (joinpath (scripts_dir g) ''readme_config.yaml'') = Inr ctext \<and>
    parse ctext = Inr cfg \<and> \<not> truthy cfg \<longrightarrow>
      fst (load_config parse g w) = Inl ValueError"
    by (simp add: load_config_empty)
  have c9: "fst (load_config parse g w) = Inl e' \<longrightarrow>
      fst (main parse Environment g a w) = 1 \<and>
      files (snd (snd (main parse Environment g a w))) = files w \<and>
      logged (snd (snd (main parse Environment g a w))) = logged w @ [Fatal e']"
    by (intro impI) (rule main_load_failure)
  have c10: "read_text (files w) (joinpath (scripts_dir g) ''readme_config.yaml'') = Inr ctext \<and>
    parse ctext = Inr (PDict cm) \<and> cm \<noteq> [] \<and> ''languages'' \<notin> set (map fst cm) \<longrightarrow>
      fst (load_config parse g w) = Inr (PDict cm)"
    by (simp add: load_config_without_languages)
  have c11: "read_text (files w) (joinpath (scripts_dir g) ''readme_config.yaml'') = Inr ctext \<and>
    parse ctext = Inr (PDict cm) \<and> cm \<noteq> [] \<and> ''languages'' \<notin> set (map fst cm) \<and>
    path_exists (files w) (templates_dir g) \<and>
    (language a = None \<or> language a = Some []) \<longrightarrow>
      fst (main parse Environment g a w) = 0 \<and>
      files (snd (snd (main parse Environment g a w))) = files w \<and>
      logged (snd (snd (main parse Environment g a w)))
        = logged w @ [Info_Loaded 0, if validate a then Info_UpToDate else Info_Completed]"
    by (intro impI, elim conjE) (rule main_without_languages_unfiltered)
  have c12: "read_text (files w) (joinpath (scripts_dir g) ''readme_config.yaml'') = Inr ctext \<and>
    parse ctext = Inr (PDict cm) \<and> cm \<noteq> [] \<and> ''languages'' \<notin> set (map fst cm) \<and>
    path_exists (files w) (templates_dir g) \<and> language a = Some l \<and> l \<noteq> [] \<longrightarrow>
      fst (main parse Environment g a w) = 1 \<and>
      files (snd (snd (main parse Environment g a w))) = files w \<and>
      logged (snd (snd (main parse Environment g a w)))
        = logged w @ [Info_Loaded 0, Error_UnknownLanguage l, Info_Available [],
                      if validate a then Error_OutOfDate else Error_CompletedWithErrors]"
    by (intro impI, elim conjE) (rule main_without_languages_filtered)
  have c13: "fst (load_config parse g w) = Inr cfg' \<and>
    \<not> path_exists (files w) (templates_dir g) \<longrightarrow>
      fst (main parse Environment g a w) = 1 \<and>
      files (snd (snd (main parse Environment g a w))) = files w"
    by (intro impI, elim conjE) (rule main_without_templates)
  show ?thesis
    by (rule conjI [OF c1 conjI [OF c2 conjI [OF c3 conjI [OF c4 conjI [OF c5 conjI [OF c6
          conjI [OF c7 conjI [OF c8 conjI [OF c9 conjI [OF c10 conjI [OF c11
          conjI [OF c12 c13]]]]]]]]]]]])
qed

text \<open>
  Claim C2 (amended) at concrete projects: a visitor project without its schema file,
  with a schema that lacks \<^verbatim>\<open>metadata\<close>, with an empty schema and with an unparsable
  one; a README project without its configuration file, with an unparsable and with
  an empty configuration, and with a configuration that has no \<^verbatim>\<open>languages\<close>, run
  without a filter, with the filter \<^verbatim>\<open>python\<close> and without the template directory.
\<close>

theorem loading_all_or_nothing_witness:
  "\<not> path_exists no_files
       (joinpath (Path True [''repo'']) ''crates/html-to-markdown-ffi/visitor_callbacks.yaml'') \<and>
   load_schema (fixed_parser (Inr visitor_schema)) no_files
       (joinpath (Path True [''repo'']) ''crates/html-to-markdown-ffi/visitor_callbacks.yaml'')
     = Inl FileNotFoundError \<and>
   ''metadata'' \<in> set required_keys \<and>
   ''metadata'' \<notin> set (map fst [(''version'', PStr ''1'')]) \<and>
   load_schema (fixed_parser (Inr (PDict [(''version'', PStr ''1'')]))) visitor_files
       (joinpath (Path True [''repo'']) ''crates/html-to-markdown-ffi/visitor_callbacks.yaml'')
     = Inl ValueError \<and>
   load_schema (fixed_parser (Inr PNone)) visitor_files
       (joinpath (Path True [''repo'']) ''crates/html-to-markdown-ffi/visitor_callbacks.yaml'')
     = Inl TypeError \<and>
   load_schema (fixed_parser (Inl YAMLError)) visitor_files
       (joinpath (Path True [''repo'']) ''crates/html-to-markdown-ffi/visitor_callbacks.yaml'')
     = Inl YAMLError \<and>
   visitor_main (fixed_parser (Inr (PDict [(''version'', PStr ''1'')])))
       (fixed_environment visitor_templates) (Path True [''repo'']) visitor_files
     = (SystemExit 1, [], visitor_files) \<and>
   fst (load_config (fixed_parser (Inr (PDict [(''version'', PStr ''1.0'')])))
          (init (Path True [''repo'']) :: piece list generator) empty_world)
     = Inl FileNotFoundError \<and>
   fst (main (fixed_parser (Inr (PDict [(''version'', PStr ''1.0'')]))) (fixed_environment [])
          (init (Path True [''repo''])) default_args empty_world) = 1 \<and>
   files (snd (snd (main (fixed_parser (Inr (PDict [(''version'', PStr ''1.0'')])))
          (fixed_environment []) (init (Path True [''repo''])) default_args empty_world)))
     = files empty_world \<and>
   fst (load_config (fixed_parser (Inl YAMLError))
          (init (Path True [''repo'']) :: piece list generator) readme_world) = Inl ValueError \<and>
   fst (load_config (fixed_parser (Inr (PDict [])))
          (init (Path True [''repo'']) :: piece list generator) readme_world) = Inl ValueError \<and>
   fst (load_config (fixed_parser (Inr (PDict [(''version'', PStr ''1.0'')])))
          (init (Path True [''repo'']) :: piece list generator) readme_world)
     = Inr (PDict [(''version'', PStr ''1.0'')]) \<and>
   fst (main (fixed_parser (Inr (PDict [(''version'', PStr ''1.0'')]))) (fixed_environment [])
          (init (Path True [''repo''])) default_args readme_world) = 0 \<and>
   files (snd (snd (main (fixed_parser (Inr (PDict [(''version'', PStr ''1.0'')])))
          (fixed_environment []) (init (Path True [''repo''])) default_args readme_world)))
     = files readme_world \<and>
   fst (main (fixed_parser (Inr (PDict [(''version'', PStr ''1.0'')]))) (fixed_environment [])
          (init (Path True [''repo''])) python_args readme_world) = 1 \<and>
   files (snd (snd (main (fixed_parser (Inr (PDict [(''version'', PStr ''1.0'')])))
          (fixed_environment []) (init (Path True [''repo''])) python_args readme_world)))
     = files readme_world \<and>
   fst (main (fixed_parser (Inr (PDict [(''version'', PStr ''1.0'')]))) (fixed_environment [])
          (init (Path True [''repo''])) default_args config_only_world) = 1 \<and>
   files (snd (snd (main (fixed_parser (Inr (PDict [(''version'', PStr ''1.0'')])))
          (fixed_environment []) (init (Path True [''repo''])) default_args config_only_world)))
     = files config_only_world"
proof -
  let ?root = "Path True [''repo'']"
  let ?sp = "joinpath ?root ''crates/html-to-markdown-ffi/visitor_callbacks.yaml''"
  let ?g = "init ?root :: piece list generator"
  let ?cp = "joinpath (scripts_dir ?g) ''readme_config.yaml''"
  let ?cfg = "PDict [(''version'', PStr ''1.0'')]"
  let ?short = "PDict [(''version'', PStr ''1'')]"
  have a1: "\<not> path_exists no_files ?sp" by code_simp
  have a2: "read_text visitor_files ?sp = Inr ''version: 1''" by code_simp
  have a3: "''metadata'' \<in> set required_keys" by (simp add: required_keys_def)
  have a4: "''metadata'' \<notin> set (map fst [(''version'', PStr ''1'')])" by simp
  have b1: "\<not> path_exists (files empty_world) ?cp" by code_simp
  have b2: "read_text (files readme_world) ?cp = Inr ''version: 1.0''" by code_simp
  have b3: "path_exists (files readme_world) (templates_dir ?g)" by code_simp
  have b4: "language default_args = None" "\<not> validate default_args"
    by (simp_all add: default_args_def)
  have b5: "language python_args = Some ''python''" "''python'' \<noteq> []"
    by (simp_all add: python_args_def)
  have b6: "read_text (files config_only_world) ?cp = Inr ''version: 1.0''" by code_simp
  have b7: "\<not> path_exists (files config_only_world) (templates_dir ?g)" by code_simp
  have p: "fixed_parser (Inr ?short) ''version: 1'' = Inr ?short"
    "fixed_parser (Inr PNone) ''version: 1'' = Inr PNone"
    "fixed_parser (Inl YAMLError) ''version: 1'' = Inl YAMLError"
    "fixed_parser (Inl YAMLError) ''version: 1.0'' = Inl YAMLError"
    "fixed_parser (Inr (PDict [])) ''version: 1.0'' = Inr (PDict [])"
    "fixed_parser (Inr ?cfg) ''version: 1.0'' = Inr ?cfg"
    by (simp_all add: fixed_parser_def)
  have q: "\<not> truthy (PDict [])" "[(''version'', PStr ''1.0'')] \<noteq> []"
    "''languages'' \<notin> set (map fst [(''version'', PStr ''1.0'')])"
    by simp_all
  note v0 = loading_all_or_nothing
    [where fs = no_files and sp = ?sp and safe_load = "fixed_parser (Inr visitor_schema)"]
  note v1 = loading_all_or_nothing
    [where fs = visitor_files and sp = ?sp and root = ?root and stext = "''version: 1''"
      and safe_load = "fixed_parser (Inr ?short)" and m = "[(''version'', PStr ''1'')]"
      and key = "''metadata''" and e = ValueError
      and venv = "fixed_environment visitor_templates"]
  note v2 = loading_all_or_nothing
    [where fs = visitor_files and sp = ?sp and stext = "''version: 1''"
      and safe_load = "fixed_parser (Inr PNone)"]
  note v3 = loading_all_or_nothing
    [where fs = visitor_files and sp = ?sp and stext = "''version: 1''"
      and safe_load = "fixed_parser (Inl YAMLError)" and e = YAMLError]
  note r0 = loading_all_or_nothing
    [where w = empty_world and g = ?g and parse = "fixed_parser (Inr ?cfg)"
      and e' = FileNotFoundError and Environment = "fixed_environment []" and a = default_args]
  note r1 = loading_all_or_nothing
    [where w = readme_world and g = ?g and parse = "fixed_parser (Inl YAMLError)"
      and ctext = "''version: 1.0''"]
  note r2 = loading_all_or_nothing
    [where w = readme_world and g = ?g and parse = "fixed_parser (Inr (PDict []))"
      and ctext = "''version: 1.0''" and cfg = "PDict []"]
  note r3 = loading_all_or_nothing
    [where w = readme_world and g = ?g and parse = "fixed_parser (Inr ?cfg)"
      and ctext = "''version: 1.0''" and cm = "[(''version'', PStr ''1.0'')]"
      and Environment = "fixed_environment []" and a = default_args]
  note r4 = loading_all_or_nothing
    [where w = readme_world and g = ?g and parse = "fixed_parser (Inr ?cfg)"
      and ctext = "''version: 1.0''" and cm = "[(''version'', PStr ''1.0'')]"
      and Environment = "fixed_environment []" and a = python_args and l = "''python''"]
  note r5 = loading_all_or_nothing
    [where w = config_only_world and g = ?g and parse = "fixed_parser (Inr ?cfg)"
      and ctext = "''version: 1.0''" and cm = "[(''version'', PStr ''1.0'')]"
      and Environment = "fixed_environment []" and a = default_args and cfg' = ?cfg]
  from v0 a1 have f1: "load_schema (fixed_parser (Inr visitor_schema)) no_files ?sp
      = Inl FileNotFoundError" by blast
  from v1 a2 a3 a4 p(1) have f2: "load_schema (fixed_parser (Inr ?short)) visitor_files ?sp
      = Inl ValueError" by blast
  from v2 a2 p(2) have f3: "load_schema (fixed_parser (Inr PNone)) visitor_files ?sp = Inl TypeError"
    by blast
  from v3 a2 p(3) have f4: "load_schema (fixed_parser (Inl YAMLError)) visitor_files ?sp
      = Inl YAMLError" by blast
  from v1 f2 have f5: "visitor_main (fixed_parser (Inr ?short))
       (fixed_environment visitor_templates) ?root visitor_files
     = (SystemExit 1, [], visitor_files)" by blast
  from r0 b1 have f6: "fst (load_config (fixed_parser (Inr ?cfg)) ?g empty_world)
      = Inl FileNotFoundError" by blast
  from r0 f6 have f7: "fst (main (fixed_parser (Inr ?cfg)) (fixed_environment []) ?g
          default_args empty_world) = 1 \<and>
      files (snd (snd (main (fixed_parser (Inr ?cfg)) (fixed_environment []) ?g
          default_args empty_world))) = files empty_world" by blast
  from r1 b2 p(4) have f8: "fst (load_config (fixed_parser (Inl YAMLError)) ?g readme_world)
      = Inl ValueError" by blast
  from r2 b2 p(5) q(1) have f9: "fst (load_config (fixed_parser (Inr (PDict []))) ?g readme_world)
      = Inl ValueError" by blast
  from r3 b2 p(6) q(2,3) have f10: "fst (load_config (fixed_parser (Inr ?cfg)) ?g readme_world) = Inr ?cfg"
    by blast
  from r3 b2 b3 b4(1) p(6) q(2,3) have f11: "fst (main (fixed_parser (Inr ?cfg)) (fixed_environment []) ?g
          default_args readme_world) = 0 \<and>
      files (snd (snd (main (fixed_parser (Inr ?cfg)) (fixed_environment []) ?g
          default_args readme_world))) = files readme_world" by blast
  have h12: "read_text (files readme_world) ?cp = Inr ''version: 1.0'' \<and>
      fixed_parser (Inr ?cfg) ''version: 1.0'' = Inr (PDict [(''version'', PStr ''1.0'')]) \<and>
      [(''version'', PStr ''1.0'')] \<noteq> [] \<and>
      ''languages'' \<notin> set (map fst [(''version'', PStr ''1.0'')]) \<and>
      path_exists (files readme_world) (templates_dir ?g) \<and>
      language python_args = Some ''python'' \<and> ''python'' \<noteq> []"
    using b2 b3 b5 p(6) q(2,3) by simp
  have f12: "fst (main (fixed_parser (Inr ?cfg)) (fixed_environment []) ?g
          python_args readme_world) = 1 \<and>
      files (snd (snd (main (fixed_parser (Inr ?cfg)) (fixed_environment []) ?g
          python_args readme_world))) = files readme_world"
    using mp [OF r4 [THEN conjunct2, THEN conjunct2, THEN conjunct2, THEN conjunct2,
      THEN conjunct2, THEN conjunct2, THEN conjunct2, THEN conjunct2, THEN conjunct2,
      THEN conjunct2, THEN conjunct2, THEN conjunct1] h12]
    by simp
  have h13: "read_text (files config_only_world) ?cp = Inr ''version: 1.0'' \<and>
      fixed_parser (Inr ?cfg) ''version: 1.0'' = Inr (PDict [(''version'', PStr ''1.0'')]) \<and>
      [(''version'', PStr ''1.0'')] \<noteq> [] \<and>
      ''languages'' \<notin> set (map fst [(''version'', PStr ''1.0'')])"
    using b6 p(6) q(2,3) by simp
  have f13: "fst (load_config (fixed_parser (Inr ?cfg)) ?g config_only_world) = Inr ?cfg"
    by (rule mp [OF r5 [THEN conjunct2, THEN conjunct2, THEN conjunct2, THEN conjunct2,
      THEN conjunct2, THEN conjunct2, THEN conjunct2, THEN conjunct2, THEN conjunct2,
      THEN conjunct1] h13])
  have f14: "fst (main (fixed_parser (Inr ?cfg)) (fixed_environment []) ?g
          default_args config_only_world) = 1 \<and>
      files (snd (snd (main (fixed_parser (Inr ?cfg)) (fixed_environment []) ?g
          default_args config_only_world))) = files config_only_world"
    by (rule mp [OF r5 [THEN conjunct2, THEN conjunct2, THEN conjunct2, THEN conjunct2,
      THEN conjunct2, THEN conjunct2, THEN conjunct2, THEN conjunct2, THEN conjunct2,
      THEN conjunct2, THEN conjunct2, THEN conjunct2] conjI [OF f13 b7]])
  from a1 a3 a4 f1 f2 f3 f4 f5 f6 f7 f8 f9 f10 f11 f12 f14 show ?thesis by simp
qed
end
